theory Spec2Isabelle
  imports Main "HOL-Library.AList" "HOL-Library.Char_ord" "HOL-Library.List_Lexorder"
begin

section \<open>Strings, identifiers and tokens\<close>

text \<open>
  The server under study is the persistent room server (header "Phase4 Step2 hardening +
  Step3 monitoring + Step4 ops tools (V45)"). Room ids, tokens, verbs and data URLs are
  modelled as \<open>string\<close> (one \<open>char\<close> per UTF-16 code unit below 256, which covers the
  ASCII text these fields carry); themes and the Japanese message texts are lists of UTF-16 code
  units. One reading of the clock (\<open>now()\<close>) is taken per handler run. Metric counters
  and log lines are left out: no handler reads them back.
\<close>

type_synonym jstring = "nat list"

definition code_unit :: "char \<Rightarrow> nat" where
  "code_unit c = of_char c"

definition is_space :: "char \<Rightarrow> bool" where
  "is_space c = (code_unit c \<in> {9, 10, 11, 12, 13, 32, 160})"

definition is_jspace :: "nat \<Rightarrow> bool" where
  "is_jspace n = (n \<in> {9, 10, 11, 12, 13, 32, 160, 5760, 8232, 8233, 8239, 8287, 12288, 65279}
                  \<or> (8192 \<le> n \<and> n \<le> 8202))"

text \<open>\<open>String.prototype.trim\<close>: white space dropped at both ends.\<close>

definition trim_by :: "('a \<Rightarrow> bool) \<Rightarrow> 'a list \<Rightarrow> 'a list" where
  "trim_by sp s = rev (dropWhile sp (rev (dropWhile sp s)))"

text \<open>
  \<open>String.prototype.toUpperCase\<close> on code units below 256: \<open>a-z\<close> and the letters
  U+00E0-U+00FE (U+00F7, the division sign, apart) move down by 32, and U+00DF, the sharp
  s, becomes \<open>SS\<close>. The upper case of U+00B5 and of U+00FF lies above 255: the two are
  kept here, and fail \<open>ROOM_ID_RE\<close> either way.
\<close>

definition upper_char :: "char \<Rightarrow> char" where
  "upper_char c =
     (if (97 \<le> code_unit c \<and> code_unit c \<le> 122)
         \<or> (224 \<le> code_unit c \<and> code_unit c \<le> 254 \<and> code_unit c \<noteq> 247)
      then char_of (code_unit c - 32) else c)"

definition toUpperCase :: "string \<Rightarrow> string" where
  "toUpperCase s = concat (map (\<lambda>c. if code_unit c = 223 then ''SS'' else [upper_char c]) s)"

definition is_AZ09 :: "char \<Rightarrow> bool" where
  "is_AZ09 c = ((65 \<le> code_unit c \<and> code_unit c \<le> 90) \<or> (48 \<le> code_unit c \<and> code_unit c \<le> 57))"

text \<open>\<open>ROOM_ID_RE = /^[A-Z0-9]{6,12}$/\<close>.\<close>

definition ROOM_ID_RE :: "string \<Rightarrow> bool" where
  "ROOM_ID_RE s = (6 \<le> length s \<and> length s \<le> 12 \<and> list_all is_AZ09 s)"

text \<open>The argument is \<open>String(x || "")\<close>: an absent field arrives as the empty string.\<close>

definition normalizeRoomId :: "string \<Rightarrow> string" where
  "normalizeRoomId x =
     (let rid = toUpperCase (trim_by is_space x)
      in if \<not> ROOM_ID_RE rid then [] else rid)"

text \<open>
  \<open>Math.random().toString(36)\<close> is an input of the model: the text \<open>0\<close>, or \<open>0.\<close>
  followed by at least one digit of \<open>0-9a-z\<close>. \<open>(0.5).toString(36)\<close> is \<open>0.i\<close>.
\<close>

definition is_b36 :: "char \<Rightarrow> bool" where
  "is_b36 c = ((97 \<le> code_unit c \<and> code_unit c \<le> 122) \<or> (48 \<le> code_unit c \<and> code_unit c \<le> 57))"

definition is_rand36 :: "string \<Rightarrow> bool" where
  "is_rand36 s = (s = ''0'' \<or> (take 2 s = ''0.'' \<and> drop 2 s \<noteq> [] \<and> list_all is_b36 (drop 2 s)))"

text \<open>\<open>id7\<close>: \<open>Math.random().toString(36).slice(2,9).toUpperCase()\<close>.\<close>

definition id7 :: "string \<Rightarrow> string" where
  "id7 rnd = toUpperCase (take 7 (drop 2 rnd))"

text \<open>\<open>token\<close>: two draws, each \<open>.toString(36).slice(2)\<close>, joined by a hyphen.\<close>

definition token :: "string \<Rightarrow> string \<Rightarrow> string" where
  "token rnd1 rnd2 = drop 2 rnd1 @ ''-'' @ drop 2 rnd2"

text \<open>\<open>validatePngDataUrl\<close>; \<open>None\<close> is a value that is not a string.\<close>

definition validatePngDataUrl :: "string option \<Rightarrow> bool" where
  "validatePngDataUrl s =
     (case s of None \<Rightarrow> False
      | Some u \<Rightarrow> if take 11 u \<noteq> ''data:image/'' then False
                  else if length u > 1500000 then False else True)"

section \<open>Rooms and reservations\<close>

record reservation =
  frameIndex :: int
  expiresAt :: int

text \<open>
  The two \<open>Map\<close>s of a room are association lists in insertion order:
  \<open>Map.set\<close> is \<open>AList.update\<close> (in place for a known key, appended otherwise),
  \<open>Map.delete\<close> is \<open>AList.delete\<close>, \<open>Map.get\<close> is \<open>map_of\<close>.
\<close>

record room =
  roomId :: string
  theme :: jstring
  frames :: "string option list"
  committed :: "bool list"
  createdAt :: int
  updatedAt :: int
  phase :: string
  reservations :: "(string \<times> reservation) list"
  reservedByFrame :: "(int \<times> string) list"

text \<open>\<open>Boolean(room.committed[i])\<close>: reading outside the array gives \<open>undefined\<close>.\<close>

definition committed_at :: "bool list \<Rightarrow> int \<Rightarrow> bool" where
  "committed_at cm i = (0 \<le> i \<and> nat i < length cm \<and> cm ! nat i)"

text \<open>One turn of the loop of \<open>cleanupReservations\<close> on the entry \<open>(tok, r)\<close>.\<close>

definition cleanup_entry ::
  "int \<Rightarrow> bool list \<Rightarrow> string \<times> reservation
     \<Rightarrow> (string \<times> reservation) list \<times> (int \<times> string) list
     \<Rightarrow> (string \<times> reservation) list \<times> (int \<times> string) list" where
  "cleanup_entry t cm e st =
     (let tok = fst e; r = snd e; res = fst st; rbf = snd st;
          fi = frameIndex r;
          ex = expiresAt r;
          expired = (ex \<le> t);
          invalid = (\<not> (fi \<ge> 0 \<and> fi < 60));
          is_committed = (if \<not> invalid then committed_at cm fi else False)
      in if expired \<or> is_committed \<or> invalid
         then (AList.delete tok res,
               if \<not> invalid
               then (if map_of rbf fi = Some tok then AList.delete fi rbf else rbf)
               else rbf)
         else (res, rbf))"

definition cleanupReservations :: "int \<Rightarrow> room \<Rightarrow> room" where
  "cleanupReservations t rm =
     (let st = fold (cleanup_entry t (committed rm)) (reservations rm)
                 (reservations rm, reservedByFrame rm)
      in rm\<lparr>reservations := fst st, reservedByFrame := snd st\<rparr>)"

definition normalizePhase :: "room \<Rightarrow> room" where
  "normalizePhase rm =
     (let done = list_all (\<lambda>b. b) (committed rm)
      in if done then rm\<lparr>phase := ''PLAYBACK''\<rparr> else rm\<lparr>phase := ''DRAWING''\<rparr>)"

section \<open>Serialization\<close>

text \<open>
  A parsed room file. \<open>JSON.stringify\<close> followed by \<open>JSON.parse\<close> is the identity on
  these values; the arrays of a file may have any length, and its reservation entries
  any token, frame index and expiry.
\<close>

record room_json =
  j_roomId :: string
  j_theme :: jstring
  j_frames :: "string option list"
  j_committed :: "bool list"
  j_createdAt :: int
  j_updatedAt :: int
  j_phase :: string
  j_reservations :: "(string \<times> reservation) list"

definition pad60 :: "'a \<Rightarrow> 'a list \<Rightarrow> 'a list" where
  "pad60 d xs = take 60 xs @ replicate (60 - length (take 60 xs)) d"

definition load_reservation ::
  "string \<times> reservation \<Rightarrow> (string \<times> reservation) list \<Rightarrow> (string \<times> reservation) list" where
  "load_reservation pair res =
     (let tok = fst pair; fi = frameIndex (snd pair); ex = expiresAt (snd pair)
      in if tok = [] then res
         else if fi < 0 \<or> fi \<ge> 60 then res
         else if ex \<le> 0 then res
         else AList.update tok \<lparr>frameIndex = fi, expiresAt = ex\<rparr> res)"

definition rebuild_entry ::
  "bool list \<Rightarrow> string \<times> reservation \<Rightarrow> (int \<times> string) list \<Rightarrow> (int \<times> string) list" where
  "rebuild_entry cm e rbf =
     (if committed_at cm (frameIndex (snd e)) then rbf
      else AList.update (frameIndex (snd e)) (fst e) rbf)"

text \<open>\<open>deserializeRoom\<close>; \<open>rt\<close> is the theme \<open>randTheme()\<close> would draw.\<close>

definition deserializeRoom :: "int \<Rightarrow> jstring \<Rightarrow> room_json \<Rightarrow> room option" where
  "deserializeRoom t rt obj =
     (let rid = normalizeRoomId (j_roomId obj)
      in if rid = [] then None
         else
           let fr = pad60 None (j_frames obj);
               cm = pad60 False (j_committed obj);
               res = fold load_reservation (j_reservations obj) [];
               rbf = fold (rebuild_entry cm) res [];
               rm = \<lparr>roomId = rid,
                     theme = (if trim_by is_jspace (j_theme obj) \<noteq> []
                              then trim_by is_jspace (j_theme obj) else rt),
                     frames = fr,
                     committed = cm,
                     createdAt = (if j_createdAt obj = 0 then t else j_createdAt obj),
                     updatedAt = (if j_updatedAt obj = 0 then t else j_updatedAt obj),
                     phase = (if j_phase obj = [] then ''DRAWING'' else j_phase obj),
                     reservations = res,
                     reservedByFrame = rbf\<rparr>
           in Some (normalizePhase (cleanupReservations t rm)))"

text \<open>\<open>serializeRoom\<close> cleans and normalizes the room it is given, then copies it.\<close>

definition serializeRoom :: "int \<Rightarrow> room \<Rightarrow> room \<times> room_json" where
  "serializeRoom t rm =
     (let rm1 = normalizePhase (cleanupReservations t rm)
      in (rm1, \<lparr>j_roomId = roomId rm1, j_theme = theme rm1, j_frames = frames rm1,
                j_committed = committed rm1, j_createdAt = createdAt rm1,
                j_updatedAt = updatedAt rm1, j_phase = phase rm1,
                j_reservations = reservations rm1\<rparr>))"

section \<open>The store\<close>

record index_entry =
  ix_roomId :: string
  ix_theme :: jstring
  ix_createdAt :: int
  ix_updatedAt :: int
  filledCount :: nat
  completed :: bool

text \<open>A file under \<open>rooms/\<close>: text that \<open>JSON.parse\<close> rejects, or a parsed object.\<close>

datatype disk_file = Unparseable | Parsed room_json

text \<open>
  The process-wide state. \<open>cache\<close> maps a room id to \<open>{room, lastAccess}\<close>; \<open>files\<close> is
  the directory \<open>rooms/\<close>, keyed by room id; \<open>backups\<close> lists the entries of \<open>backups/\<close>.
  A bucket holds \<open>count\<close> and \<open>resetAt\<close> (\<open>None\<close> when \<open>resetAt\<close> is \<open>NaN\<close>).
\<close>

record store =
  cache :: "(string \<times> room \<times> int) list"
  files :: "string \<rightharpoonup> disk_file"
  index :: "(string \<times> index_entry) list"
  quarantineSet :: "string set"
  dirtyRoomIds :: "string list"
  lastBackupAt :: int
  backups :: "string list"
  RATE_BUCKETS :: "(string \<times> nat \<times> int option) list"

text \<open>
  What a handler run takes from outside: the clock, the texts of up to two
  \<open>Math.random().toString(36)\<close> draws, the theme \<open>randTheme()\<close> draws, the number a random
  choice among candidates draws, and whether the first and the second room-file write of
  the run succeed (\<open>atomicWriteFile\<close> throws otherwise).
\<close>

record env =
  now :: int
  rnd1 :: string
  rnd2 :: string
  rnd_theme :: jstring
  rnd_pick :: nat
  write1_ok :: bool
  write2_ok :: bool

definition RESERVATION_MS :: int where
  "RESERVATION_MS = 3 * 60 * 1000"

definition ROOM_CACHE_MAX :: nat where
  "ROOM_CACHE_MAX = 80"

definition ROOM_CACHE_IDLE_MS :: int where
  "ROOM_CACHE_IDLE_MS = 5 * 60 * 1000"

definition BACKUP_INTERVAL_MS :: int where
  "BACKUP_INTERVAL_MS = 30 * 60 * 1000"

text \<open>The room object a handler holds is the one in the cache: a change is written back.\<close>

definition set_cached :: "string \<Rightarrow> room \<Rightarrow> int \<Rightarrow> store \<Rightarrow> store" where
  "set_cached k rm la s = s\<lparr>cache := AList.update k (rm, la) (cache s)\<rparr>"

definition updateIndexFromRoom :: "room \<Rightarrow> store \<Rightarrow> store" where
  "updateIndexFromRoom rm s =
     s\<lparr>index := AList.update (roomId rm)
          \<lparr>ix_roomId = roomId rm, ix_theme = theme rm, ix_createdAt = createdAt rm,
           ix_updatedAt = updatedAt rm,
           filledCount = length (filter (\<lambda>b. b) (committed rm)),
           completed = (phase rm = ''PLAYBACK'')\<rparr> (index s)\<rparr>"

text \<open>
  \<open>getRoom\<close> returns a reference to the cached object: here the cache key with the value.
\<close>

definition getRoom :: "env \<Rightarrow> store \<Rightarrow> string \<Rightarrow> store \<times> (string \<times> room) option" where
  "getRoom ev s rid =
     (let k = normalizeRoomId rid
      in if k = [] then (s, None)
         else case map_of (cache s) k of
                Some e \<Rightarrow> (set_cached k (fst e) (now ev) s, Some (k, fst e))
              | None \<Rightarrow>
                  (case files s k of
                     None \<Rightarrow> (s, None)
                   | Some Unparseable \<Rightarrow> (s, None)
                   | Some (Parsed obj) \<Rightarrow>
                       (case deserializeRoom (now ev) (rnd_theme ev) obj of
                          None \<Rightarrow> (s, None)
                        | Some rm \<Rightarrow> (set_cached k rm (now ev) s, Some (k, rm)))))"

text \<open>
  \<open>saveRoom\<close>: every exception is swallowed by its \<open>try/catch\<close>. \<open>roomFile\<close> throws on an
  id that \<open>normalizeRoomId\<close> rejects, \<open>atomicWriteFile\<close> throws when \<open>wok\<close> is false; what
  ran before the throw stays done. The index file is not part of the model.
\<close>

definition saveRoom :: "env \<Rightarrow> bool \<Rightarrow> room \<Rightarrow> store \<Rightarrow> room \<times> store" where
  "saveRoom ev wok rm s =
     (let rm1 = cleanupReservations (now ev) (normalizePhase rm);
          s1 = updateIndexFromRoom rm1 s
      in if normalizeRoomId (roomId rm1) = [] then (rm1, s1)
         else
           let ser = serializeRoom (now ev) rm1
           in if \<not> wok then (fst ser, s1)
              else (fst ser,
                    s1\<lparr>files := (files s1)(normalizeRoomId (roomId rm1) \<mapsto> Parsed (snd ser)),
                       dirtyRoomIds := List.insert (roomId rm1) (dirtyRoomIds s1)\<rparr>))"

definition makeRoom :: "env \<Rightarrow> jstring \<Rightarrow> store \<Rightarrow> room \<times> store" where
  "makeRoom ev th s =
     (let rid = id7 (rnd1 ev);
          rm = \<lparr>roomId = rid,
                theme = (if trim_by is_jspace th \<noteq> [] then trim_by is_jspace th else rnd_theme ev),
                frames = replicate 60 None,
                committed = replicate 60 False,
                createdAt = now ev,
                updatedAt = now ev,
                phase = ''DRAWING'',
                reservations = [],
                reservedByFrame = []\<rparr>;
          s1 = set_cached rid rm (now ev) s;
          s2 = updateIndexFromRoom rm s1;
          sv = saveRoom ev (write1_ok ev) rm s2
      in (fst sv, set_cached rid (fst sv) (now ev) (snd sv)))"

record room_state =
  rs_roomId :: string
  rs_theme :: jstring
  rs_frameCount :: nat
  rs_fps :: nat
  rs_phase :: string
  rs_createdAt :: int
  rs_updatedAt :: int
  rs_filled :: "bool list"
  rs_completed :: bool

definition roomState :: "int \<Rightarrow> room \<Rightarrow> room \<times> room_state" where
  "roomState t rm =
     (let rm1 = normalizePhase (cleanupReservations t rm)
      in (rm1, \<lparr>rs_roomId = roomId rm1, rs_theme = theme rm1, rs_frameCount = 60, rs_fps = 12,
                rs_phase = phase rm1, rs_createdAt = createdAt rm1, rs_updatedAt = updatedAt rm1,
                rs_filled = committed rm1, rs_completed = (phase rm1 = ''PLAYBACK'')\<rparr>))"

text \<open>\<open>firstYoungestEmpty\<close>: the cleaned room and the index found, \<open>-1\<close> when there is none.\<close>

definition firstYoungestEmpty :: "int \<Rightarrow> room \<Rightarrow> room \<times> int" where
  "firstYoungestEmpty t rm =
     (let rm1 = cleanupReservations t rm
      in (rm1,
          case find (\<lambda>i. \<not> committed_at (committed rm1) i \<and> map_of (reservedByFrame rm1) i = None)
                 (map int [0..<60])
          of None \<Rightarrow> - 1 | Some i \<Rightarrow> i))"

text \<open>
  \<open>for (const rid in index)\<close> visits the keys that are array indices (canonical decimal
  numerals below \<open>2^32 - 1\<close>) first, in ascending numeric order, and then the other keys in
  insertion order.
\<close>

definition dec_value :: "string \<Rightarrow> int" where
  "dec_value k = foldl (\<lambda>n c. 10 * n + (int (code_unit c) - 48)) 0 k"

definition is_array_index :: "string \<Rightarrow> bool" where
  "is_array_index k =
     (k \<noteq> [] \<and> list_all (\<lambda>c. 48 \<le> code_unit c \<and> code_unit c \<le> 57) k
      \<and> (k = ''0'' \<or> hd k \<noteq> CHR ''0'') \<and> dec_value k < 4294967295)"

definition for_in :: "(string \<times> 'a) list \<Rightarrow> (string \<times> 'a) list" where
  "for_in obj =
     sort_key (\<lambda>e. dec_value (fst e)) (filter (\<lambda>e. is_array_index (fst e)) obj)
     @ filter (\<lambda>e. \<not> is_array_index (fst e)) obj"

definition findRandomOpenRoomId :: "env \<Rightarrow> store \<Rightarrow> string option" where
  "findRandomOpenRoomId ev s =
     (let candidates =
            map fst (filter (\<lambda>e. fst e \<notin> quarantineSet s \<and> \<not> completed (snd e)
                                  \<and> \<not> filledCount (snd e) \<ge> 60) (for_in (index s)))
      in if candidates = [] then None
         else Some (candidates ! (rnd_pick ev mod length candidates)))"

section \<open>Messages\<close>

text \<open>
  The \<open>data\<close> object of an inbound message, each field of its expected JSON type or
  absent: an absent or empty text is \<open>[]\<close>, \<open>d_view\<close> holds \<open>d.view === true\<close>,
  \<open>d_frameIndex\<close> is \<open>None\<close> when \<open>Number(d.frameIndex)\<close> is not finite, and
  \<open>d_dataUrl\<close> is \<open>None\<close> when \<open>d.dataUrl\<close> is not a string.
\<close>

record data =
  d_roomId :: string
  d_theme :: jstring
  d_dataUrl :: "string option"
  d_view :: bool
  d_reservationToken :: string
  d_frameIndex :: "int option"

record msg =
  m_t :: string
  m_data :: data

text \<open>A connection: its \<open>_roomId\<close> attachment and the peer address.\<close>

record conn =
  ws_roomId :: string
  remoteAddress :: string

datatype payload =
    P_error "string option" jstring "int option"
  | P_welcome nat int
  | P_room_state room_state
  | P_room_joined string jstring int string int "bool list"
  | P_frame_data string int string
  | P_frame_committed string int
  | P_submitted string int
  | P_start_playback string

text \<open>The outbound envelope \<open>{v, t, ts, data}\<close>.\<close>

datatype envelope = Envelope (e_v: nat) (e_t: string) (e_ts: int) (e_data: payload)

text \<open>\<open>send(ws, obj)\<close> to the requester, or \<open>broadcast(roomId, obj)\<close>.\<close>

datatype action = Send envelope | Broadcast string envelope

text \<open>The message texts of the source, as UTF-16 code units, with a gloss.\<close>

definition MSG_ROOMID_INVALID :: jstring where \<comment> \<open>"roomId is invalid"\<close>
  "MSG_ROOMID_INVALID = [0x72, 0x6F, 0x6F, 0x6D, 0x49, 0x64, 0x20, 0x304C, 0x4E0D, 0x6B63, 0x3067, 0x3059]"

definition MSG_RATE_LIMIT :: jstring where \<comment> \<open>"too fast, wait a little"\<close>
  "MSG_RATE_LIMIT = [0x64CD, 0x4F5C, 0x304C, 0x65E9, 0x3059, 0x304E, 0x307E, 0x3059, 0x3002,
     0x5C11, 0x3057, 0x5F85, 0x3063, 0x3066, 0x306D]"

definition MSG_ROOM_NOT_FOUND :: jstring where \<comment> \<open>"room not found"\<close>
  "MSG_ROOM_NOT_FOUND = [0x90E8, 0x5C4B, 0x304C, 0x898B, 0x3064, 0x304B, 0x3089, 0x306A, 0x3044]"

definition MSG_DATAURL_INVALID :: jstring where \<comment> \<open>"dataUrl is invalid / too large"\<close>
  "MSG_DATAURL_INVALID = [0x64, 0x61, 0x74, 0x61, 0x55, 0x72, 0x6C, 0x20, 0x304C, 0x4E0D, 0x6B63,
     0x2F, 0x5927, 0x304D, 0x3059, 0x304E, 0x308B]"

definition MSG_NO_PUBLIC_WORK :: jstring where \<comment> \<open>"no public work to join"\<close>
  "MSG_NO_PUBLIC_WORK = [0x53C2, 0x52A0, 0x3067, 0x304D, 0x308B, 0x516C, 0x958B, 0x4F5C, 0x54C1,
     0x304C, 0x3042, 0x308A, 0x307E, 0x305B, 0x3093, 0xFF08, 0x307E, 0x305A, 0x8AB0, 0x304B,
     0x304C, 0x516C, 0x958B, 0x3067, 0x31, 0x30B3, 0x30DE, 0x76EE, 0x3092, 0x63D0, 0x51FA,
     0x3057, 0x3066, 0x306D, 0xFF09]"

definition MSG_ROOM_NOT_FOUND_RETRY :: jstring where \<comment> \<open>"room not found (retry)"\<close>
  "MSG_ROOM_NOT_FOUND_RETRY = [0x90E8, 0x5C4B, 0x304C, 0x898B, 0x3064, 0x304B, 0x3089, 0x306A,
     0x3044, 0xFF08, 0x518D, 0x8A66, 0x884C, 0x3057, 0x3066, 0x306D, 0xFF09]"

definition MSG_NO_ROOM_RETRY :: jstring where \<comment> \<open>"no room to join (retry)"\<close>
  "MSG_NO_ROOM_RETRY = [0x53C2, 0x52A0, 0x3067, 0x304D, 0x308B, 0x90E8, 0x5C4B, 0x304C, 0x3042,
     0x308A, 0x307E, 0x305B, 0x3093, 0xFF08, 0x518D, 0x8A66, 0x884C, 0x3057, 0x3066, 0x306D,
     0xFF09]"

definition MSG_NO_EMPTY_FRAME_RETRY :: jstring where \<comment> \<open>"no empty frame (retry)"\<close>
  "MSG_NO_EMPTY_FRAME_RETRY = [0x7A7A, 0x304D, 0x30B3, 0x30DE, 0x304C, 0x3042, 0x308A, 0x307E,
     0x305B, 0x3093, 0xFF08, 0x518D, 0x8A66, 0x884C, 0x3057, 0x3066, 0x306D, 0xFF09]"

definition MSG_NO_EMPTY_FRAME :: jstring where \<comment> \<open>"no empty frame"\<close>
  "MSG_NO_EMPTY_FRAME = [0x7A7A, 0x304D, 0x30B3, 0x30DE, 0x304C, 0x3042, 0x308A, 0x307E, 0x305B,
     0x3093]"

definition MSG_NOT_EDITABLE :: jstring where \<comment> \<open>"this room cannot be edited (completed)"\<close>
  "MSG_NOT_EDITABLE = [0x3053, 0x306E, 0x90E8, 0x5C4B, 0x306F, 0x7DE8, 0x96C6, 0x3067, 0x304D,
     0x307E, 0x305B, 0x3093, 0xFF08, 0x5B8C, 0x6210, 0x6E08, 0x307F, 0xFF09]"

definition MSG_RESERVATION_INVALID_REJOIN :: jstring where
  \<comment> \<open>"reservation invalid/expired, join again"\<close>
  "MSG_RESERVATION_INVALID_REJOIN = [0x4E88, 0x7D04, 0x304C, 0x7121, 0x52B9, 0x2F, 0x671F, 0x9650,
     0x5207, 0x308C, 0x3067, 0x3059, 0x3002, 0x3082, 0x3046, 0x4E00, 0x5EA6, 0x53C2, 0x52A0,
     0x3057, 0x3066, 0x306D]"

definition MSG_FRAMEINDEX_INVALID :: jstring where \<comment> \<open>"frameIndex is invalid"\<close>
  "MSG_FRAMEINDEX_INVALID = [0x66, 0x72, 0x61, 0x6D, 0x65, 0x49, 0x6E, 0x64, 0x65, 0x78, 0x20,
     0x304C, 0x4E0D, 0x6B63]"

definition MSG_NOT_ACCEPTING :: jstring where
  \<comment> \<open>"this room accepts no submissions (completed)"\<close>
  "MSG_NOT_ACCEPTING = [0x3053, 0x306E, 0x90E8, 0x5C4B, 0x306F, 0x63D0, 0x51FA, 0x3092, 0x53D7,
     0x3051, 0x4ED8, 0x3051, 0x3066, 0x3044, 0x307E, 0x305B, 0x3093, 0xFF08, 0x5B8C, 0x6210,
     0x6E08, 0x307F, 0xFF09]"

definition MSG_TOKEN_REQUIRED :: jstring where \<comment> \<open>"reservationToken is required"\<close>
  "MSG_TOKEN_REQUIRED = [0x72, 0x65, 0x73, 0x65, 0x72, 0x76, 0x61, 0x74, 0x69, 0x6F, 0x6E, 0x54,
     0x6F, 0x6B, 0x65, 0x6E, 0x20, 0x304C, 0x5FC5, 0x8981]"

definition MSG_RESERVATION_INVALID :: jstring where \<comment> \<open>"reservation invalid/expired"\<close>
  "MSG_RESERVATION_INVALID = [0x4E88, 0x7D04, 0x304C, 0x7121, 0x52B9, 0x2F, 0x671F, 0x9650,
     0x5207, 0x308C, 0x3067, 0x3059]"

definition MSG_FRAME_MISMATCH :: jstring where \<comment> \<open>"assigned frame does not match"\<close>
  "MSG_FRAME_MISMATCH = [0x62C5, 0x5F53, 0x30B3, 0x30DE, 0x304C, 0x4E00, 0x81F4, 0x3057, 0x307E,
     0x305B, 0x3093]"

definition MSG_ALREADY_SUBMITTED :: jstring where \<comment> \<open>"already submitted"\<close>
  "MSG_ALREADY_SUBMITTED = [0x3059, 0x3067, 0x306B, 0x63D0, 0x51FA, 0x6E08, 0x307F, 0x3067,
     0x3059]"

definition error_env :: "env \<Rightarrow> jstring \<Rightarrow> action" where
  "error_env ev m = Send (Envelope 1 ''error'' (now ev) (P_error None m None))"

section \<open>Rate limiting\<close>

text \<open>
  \<open>RATE_BY_OP[op] || RATE_DEFAULT\<close>. A verb that names a member every object inherits
  (\<open>toString\<close>, \<open>constructor\<close>, ...) finds that member instead of a setting: its window
  and maximum are \<open>undefined\<close>, the bucket's \<open>resetAt\<close> is \<open>NaN\<close>, and no count exceeds it.
\<close>

datatype rate_cfg = Cfg int nat | Inherited

definition RATE_DEFAULT :: rate_cfg where
  "RATE_DEFAULT = Cfg 10000 50"

definition RATE_BY_OP :: "string \<Rightarrow> rate_cfg" where
  "RATE_BY_OP op =
     (if op = ''hello'' then Cfg 10000 120
      else if op = ''get_frame'' then Cfg 10000 90
      else if op = ''join_room'' then Cfg 10000 40
      else if op = ''resync'' then Cfg 10000 30
      else if op = ''join_random'' then Cfg 10000 18
      else if op = ''join_by_id'' then Cfg 10000 18
      else if op = ''create_public_and_submit'' then Cfg 60000 12
      else if op = ''submit_frame'' then Cfg 60000 10
      else if op \<in> set [''constructor'', ''toString'', ''toLocaleString'', ''valueOf'',
                ''hasOwnProperty'', ''isPrototypeOf'', ''propertyIsEnumerable'', ''__proto__'',
                ''__defineGetter__'', ''__defineSetter__'', ''__lookupGetter__'',
                ''__lookupSetter__'']
      then Inherited
      else RATE_DEFAULT)"

text \<open>\<open>checkRateLimit\<close>: the buckets, \<open>ok\<close> and \<open>retryAfterMs\<close>.\<close>

definition checkRateLimit ::
  "int \<Rightarrow> string \<Rightarrow> string \<Rightarrow> (string \<times> nat \<times> int option) list
     \<Rightarrow> (string \<times> nat \<times> int option) list \<times> bool \<times> int" where
  "checkRateLimit t ip op bs =
     (let cfg = RATE_BY_OP op;
          key = (if ip = [] then ''unknown'' else ip) @ ''|'' @ (if op = [] then ''unknown'' else op);
          fresh = (0, case cfg of Cfg w m \<Rightarrow> Some (t + w) | Inherited \<Rightarrow> None);
          e = (case map_of bs key of
                 None \<Rightarrow> fresh
               | Some b \<Rightarrow> (case snd b of None \<Rightarrow> fresh
                            | Some ra \<Rightarrow> if ra \<le> t then fresh else b));
          e1 = (fst e + 1, snd e);
          bs1 = AList.update key e1 bs
      in case cfg of
           Inherited \<Rightarrow> (bs1, True, 0)
         | Cfg w m \<Rightarrow>
             if fst e1 > m
             then (bs1, False, max 0 ((case snd e1 of Some ra \<Rightarrow> ra | None \<Rightarrow> t) - t))
             else (bs1, True, 0))"

section \<open>Message handlers\<close>

definition room_state_env :: "env \<Rightarrow> room_state \<Rightarrow> envelope" where
  "room_state_env ev st = Envelope 1 ''room_state'' (now ev) (P_room_state st)"

text \<open>\<open>d.roomId || ws._roomId\<close>, normalized.\<close>

definition target_roomId :: "conn \<Rightarrow> data \<Rightarrow> string" where
  "target_roomId c d = normalizeRoomId (if d_roomId d \<noteq> [] then d_roomId d else ws_roomId c)"

definition h_hello :: "env \<Rightarrow> store \<Rightarrow> conn \<Rightarrow> data \<Rightarrow> store \<times> conn \<times> action list" where
  "h_hello ev s c d = (s, c, [Send (Envelope 1 ''welcome'' (now ev) (P_welcome 1 (now ev)))])"

definition h_resync :: "env \<Rightarrow> store \<Rightarrow> conn \<Rightarrow> data \<Rightarrow> store \<times> conn \<times> action list" where
  "h_resync ev s c d =
     (let rid = target_roomId c d
      in if rid = [] then (s, c, [error_env ev MSG_ROOMID_INVALID])
         else if rid \<in> quarantineSet s then (s, c, [error_env ev MSG_ROOM_NOT_FOUND])
         else case getRoom ev s rid of
                (s1, None) \<Rightarrow> (s1, c, [error_env ev MSG_ROOM_NOT_FOUND])
              | (s1, Some (k, rm)) \<Rightarrow>
                  let st = roomState (now ev) rm
                  in (set_cached k (fst st) (now ev) s1, c\<lparr>ws_roomId := roomId rm\<rparr>,
                      [Send (room_state_env ev (snd st))]))"

definition h_create_public_and_submit ::
  "env \<Rightarrow> store \<Rightarrow> conn \<Rightarrow> data \<Rightarrow> store \<times> conn \<times> action list" where
  "h_create_public_and_submit ev s c d =
     (let th = (if trim_by is_jspace (d_theme d) \<noteq> [] then trim_by is_jspace (d_theme d)
                else rnd_theme ev)
      in if \<not> validatePngDataUrl (d_dataUrl d) then (s, c, [error_env ev MSG_DATAURL_INVALID])
         else
           let mk = makeRoom ev th s;
               rm = fst mk;
               rm1 = rm\<lparr>frames := (frames rm)[0 := d_dataUrl d],
                        committed := (committed rm)[0 := True],
                        updatedAt := now ev\<rparr>;
               sv = saveRoom ev (write2_ok ev) rm1 (snd mk);
               st = roomState (now ev) (fst sv)
           in (set_cached (roomId rm) (fst st) (now ev) (snd sv),
               c\<lparr>ws_roomId := roomId rm\<rparr>,
               [Send (Envelope 1 ''created_public'' (now ev) (P_room_state (snd st))),
                Broadcast (roomId rm)
                  (Envelope 1 ''frame_committed'' (now ev) (P_frame_committed (roomId rm) 0))]))"

text \<open>
  The part \<open>join_random\<close> and \<open>join_by_id\<close> have in common, from \<open>firstYoungestEmpty\<close>
  on; \<open>m\<close> is the text each sends when no frame is free.
\<close>

definition join_assign ::
  "env \<Rightarrow> store \<Rightarrow> conn \<Rightarrow> string \<Rightarrow> room \<Rightarrow> jstring \<Rightarrow> store \<times> conn \<times> action list" where
  "join_assign ev s c k rm m =
     (let fy = firstYoungestEmpty (now ev) rm; rm1 = fst fy; idx = snd fy
      in if idx < 0
         then (let sv = saveRoom ev (write1_ok ev) rm1 (updateIndexFromRoom rm1 s)
               in (set_cached k (fst sv) (now ev) (snd sv), c, [error_env ev m]))
         else
           let tok = token (rnd1 ev) (rnd2 ev);
               ex = now ev + RESERVATION_MS;
               rm2 = rm1\<lparr>reservations :=
                          AList.update tok \<lparr>frameIndex = idx, expiresAt = ex\<rparr> (reservations rm1),
                        reservedByFrame := AList.update idx tok (reservedByFrame rm1),
                        updatedAt := now ev\<rparr>;
               sv = saveRoom ev (write1_ok ev) rm2 s;
               st = roomState (now ev) (fst sv)
           in (set_cached k (fst st) (now ev) (snd sv), c\<lparr>ws_roomId := roomId rm2\<rparr>,
               [Send (Envelope 1 ''room_joined'' (now ev)
                   (P_room_joined (roomId rm2) (theme rm2) idx tok ex (rs_filled (snd st))))]))"

definition h_join_random :: "env \<Rightarrow> store \<Rightarrow> conn \<Rightarrow> data \<Rightarrow> store \<times> conn \<times> action list" where
  "h_join_random ev s c d =
     (case findRandomOpenRoomId ev s of
        None \<Rightarrow> (s, c, [error_env ev MSG_NO_PUBLIC_WORK])
      | Some rid \<Rightarrow>
          (case getRoom ev s rid of
             (s1, None) \<Rightarrow>
               (s1\<lparr>index := AList.delete rid (index s1)\<rparr>, c,
                [error_env ev MSG_ROOM_NOT_FOUND_RETRY])
           | (s1, Some (k, rm0)) \<Rightarrow>
               let rm = normalizePhase rm0
               in if phase rm \<noteq> ''DRAWING''
                  then (set_cached k rm (now ev) (updateIndexFromRoom rm s1), c,
                        [error_env ev MSG_NO_ROOM_RETRY])
                  else join_assign ev s1 c k rm MSG_NO_EMPTY_FRAME_RETRY))"

definition h_join_by_id :: "env \<Rightarrow> store \<Rightarrow> conn \<Rightarrow> data \<Rightarrow> store \<times> conn \<times> action list" where
  "h_join_by_id ev s c d =
     (let rid = normalizeRoomId (d_roomId d)
      in if rid = [] then (s, c, [error_env ev MSG_ROOMID_INVALID])
         else if rid \<in> quarantineSet s then (s, c, [error_env ev MSG_ROOM_NOT_FOUND])
         else case getRoom ev s rid of
                (s1, None) \<Rightarrow> (s1, c, [error_env ev MSG_ROOM_NOT_FOUND])
              | (s1, Some (k, rm0)) \<Rightarrow>
                  let rm = normalizePhase rm0
                  in if phase rm \<noteq> ''DRAWING''
                     then (set_cached k rm (now ev) s1, c, [error_env ev MSG_ROOM_NOT_FOUND])
                     else join_assign ev s1 c k rm MSG_NO_EMPTY_FRAME)"

definition h_join_room :: "env \<Rightarrow> store \<Rightarrow> conn \<Rightarrow> data \<Rightarrow> store \<times> conn \<times> action list" where
  "h_join_room ev s c d =
     (let rid = target_roomId c d
      in if rid = [] then (s, c, [error_env ev MSG_ROOMID_INVALID])
         else if rid \<in> quarantineSet s then (s, c, [error_env ev MSG_ROOM_NOT_FOUND])
         else case getRoom ev s rid of
                (s1, None) \<Rightarrow> (s1, c, [error_env ev MSG_ROOM_NOT_FOUND])
              | (s1, Some (k, rm0)) \<Rightarrow>
                  let c1 = c\<lparr>ws_roomId := roomId rm0\<rparr>;
                      rm = normalizePhase rm0
                  in if \<not> d_view d \<and> d_reservationToken d \<noteq> []
                     then
                       (if phase rm \<noteq> ''DRAWING''
                        then (set_cached k rm (now ev) s1, c1, [error_env ev MSG_NOT_EDITABLE])
                        else
                          let rm1 = cleanupReservations (now ev) rm
                          in case map_of (reservations rm1) (d_reservationToken d) of
                               None \<Rightarrow> (set_cached k rm1 (now ev) s1, c1,
                                        [error_env ev MSG_RESERVATION_INVALID_REJOIN])
                             | Some r \<Rightarrow>
                                 if expiresAt r \<le> now ev
                                 then (set_cached k rm1 (now ev) s1, c1,
                                       [error_env ev MSG_RESERVATION_INVALID_REJOIN])
                                 else
                                   let st = roomState (now ev) rm1
                                   in (set_cached k (fst st) (now ev) s1, c1,
                                       [Send (room_state_env ev (snd st))]))
                     else
                       let st = roomState (now ev) rm
                       in (set_cached k (fst st) (now ev) s1, c1,
                           [Send (room_state_env ev (snd st))]))"

text \<open>\<open>room.frames[idx]\<close> as a condition: an empty slot and an empty text are falsy.\<close>

definition frame_at :: "string option list \<Rightarrow> int \<Rightarrow> string option" where
  "frame_at fr i =
     (if 0 \<le> i \<and> nat i < length fr
      then (case fr ! nat i of None \<Rightarrow> None | Some u \<Rightarrow> if u = [] then None else Some u)
      else None)"

definition h_get_frame :: "env \<Rightarrow> store \<Rightarrow> conn \<Rightarrow> data \<Rightarrow> store \<times> conn \<times> action list" where
  "h_get_frame ev s c d =
     (let rid = target_roomId c d
      in if rid = [] then (s, c, [error_env ev MSG_ROOMID_INVALID])
         else if rid \<in> quarantineSet s then (s, c, [error_env ev MSG_ROOM_NOT_FOUND])
         else case getRoom ev s rid of
                (s1, None) \<Rightarrow> (s1, c, [error_env ev MSG_ROOM_NOT_FOUND])
              | (s1, Some (k, rm)) \<Rightarrow>
                  (case d_frameIndex d of
                     None \<Rightarrow> (s1, c, [error_env ev MSG_FRAMEINDEX_INVALID])
                   | Some idx \<Rightarrow>
                       if idx < 0 \<or> idx \<ge> 60 then (s1, c, [error_env ev MSG_FRAMEINDEX_INVALID])
                       else if \<not> committed_at (committed rm) idx then (s1, c, [])
                       else case frame_at (frames rm) idx of
                              None \<Rightarrow> (s1, c, [])
                            | Some u \<Rightarrow>
                                (s1, c, [Send (Envelope 1 ''frame_data'' (now ev)
                                                (P_frame_data (roomId rm) idx u))])))"

text \<open>
  \<open>submit_frame\<close>. The writes \<open>room.frames[idx] = dataUrl\<close> and \<open>room.committed[idx] = true\<close>
  fall inside the arrays, which hold 60 slots in every room \<open>makeRoom\<close> or
  \<open>deserializeRoom\<close> builds.
\<close>

definition h_submit_frame :: "env \<Rightarrow> store \<Rightarrow> conn \<Rightarrow> data \<Rightarrow> store \<times> conn \<times> action list" where
  "h_submit_frame ev s c d =
     (let rid = target_roomId c d
      in if rid = [] then (s, c, [error_env ev MSG_ROOMID_INVALID])
         else if rid \<in> quarantineSet s then (s, c, [error_env ev MSG_ROOM_NOT_FOUND])
         else case getRoom ev s rid of
                (s1, None) \<Rightarrow> (s1, c, [error_env ev MSG_ROOM_NOT_FOUND])
              | (s1, Some (k, rm0)) \<Rightarrow>
                  let rm = cleanupReservations (now ev) (normalizePhase rm0);
                      s2 = set_cached k rm (now ev) s1;
                      tok = d_reservationToken d
                  in if phase rm \<noteq> ''DRAWING'' then (s2, c, [error_env ev MSG_NOT_ACCEPTING])
                     else case d_frameIndex d of
                       None \<Rightarrow> (s2, c, [error_env ev MSG_FRAMEINDEX_INVALID])
                     | Some idx \<Rightarrow>
                         if idx < 0 \<or> idx \<ge> 60
                         then (s2, c, [error_env ev MSG_FRAMEINDEX_INVALID])
                         else if tok = [] then (s2, c, [error_env ev MSG_TOKEN_REQUIRED])
                         else case map_of (reservations rm) tok of
                           None \<Rightarrow> (s2, c, [error_env ev MSG_RESERVATION_INVALID])
                         | Some r \<Rightarrow>
                             if expiresAt r \<le> now ev
                             then (s2, c, [error_env ev MSG_RESERVATION_INVALID])
                             else if frameIndex r \<noteq> idx
                             then (s2, c, [error_env ev MSG_FRAME_MISMATCH])
                             else if committed_at (committed rm) idx
                             then (s2, c, [error_env ev MSG_ALREADY_SUBMITTED])
                             else if \<not> validatePngDataUrl (d_dataUrl d)
                             then (s2, c, [error_env ev MSG_DATAURL_INVALID])
                             else
                               let rm1 = rm\<lparr>frames := (frames rm)[nat idx := d_dataUrl d],
                                           committed := (committed rm)[nat idx := True],
                                           updatedAt := now ev,
                                           reservations := AList.delete tok (reservations rm),
                                           reservedByFrame := AList.delete idx (reservedByFrame rm)\<rparr>;
                                   sv = saveRoom ev (write1_ok ev) rm1 s1;
                                   rm2 = fst sv;
                                   out = [Broadcast (roomId rm2)
                                            (Envelope 1 ''frame_committed'' (now ev)
                                               (P_frame_committed (roomId rm2) idx)),
                                          Send (Envelope 1 ''submitted'' (now ev)
                                               (P_submitted (roomId rm2) idx))]
                               in if list_all (\<lambda>b. b) (committed rm2)
                                  then
                                    let rm3 = rm2\<lparr>phase := ''PLAYBACK'', updatedAt := now ev\<rparr>;
                                        sv2 = saveRoom ev (write2_ok ev) rm3 (snd sv);
                                        st = roomState (now ev) (fst sv2)
                                    in (set_cached k (fst st) (now ev) (snd sv2), c,
                                        out @ [Broadcast (roomId rm2)
                                                 (Envelope 1 ''start_playback'' (now ev)
                                                    (P_start_playback (roomId rm2))),
                                               Broadcast (roomId rm2) (room_state_env ev (snd st))])
                                  else (set_cached k rm2 (now ev) (snd sv), c, out))"

text \<open>
  The \<open>message\<close> listener. \<open>None\<close> is a text \<open>JSON.parse\<close> rejects: it is dropped. The
  second \<open>resync\<close> branch of the source is never reached, the first one returns.
\<close>

definition on_message :: "env \<Rightarrow> store \<Rightarrow> conn \<Rightarrow> msg option \<Rightarrow> store \<times> conn \<times> action list" where
  "on_message ev s c raw =
     (case raw of
        None \<Rightarrow> (s, c, [])
      | Some m \<Rightarrow>
          let t = m_t m; d = m_data m;
              rl = checkRateLimit (now ev) (remoteAddress c) t (RATE_BUCKETS s);
              s1 = s\<lparr>RATE_BUCKETS := fst rl\<rparr>
          in if \<not> fst (snd rl)
             then (s1, c, [Send (Envelope 1 ''error'' (now ev)
                                  (P_error (Some ''RATE_LIMIT'') MSG_RATE_LIMIT (Some (snd (snd rl)))))])
             else if t = ''hello'' then h_hello ev s1 c d
             else if t = ''resync'' then h_resync ev s1 c d
             else if t = ''create_public_and_submit'' then h_create_public_and_submit ev s1 c d
             else if t = ''join_random'' then h_join_random ev s1 c d
             else if t = ''join_by_id'' then h_join_by_id ev s1 c d
             else if t = ''join_room'' then h_join_room ev s1 c d
             else if t = ''get_frame'' then h_get_frame ev s1 c d
             else if t = ''submit_frame'' then h_submit_frame ev s1 c d
             else (s1, c, [error_env ev (map code_unit (''unknown message type: '' @ t))]))"

section \<open>Background tasks\<close>

text \<open>\<open>evictCache\<close>: idle entries first, then the oldest beyond \<open>ROOM_CACHE_MAX\<close>.\<close>

definition evictCache :: "int \<Rightarrow> store \<Rightarrow> store" where
  "evictCache t s =
     (let c1 = filter (\<lambda>e. \<not> (t - snd (snd e) > ROOM_CACHE_IDLE_MS)) (cache s)
      in if length c1 > ROOM_CACHE_MAX
         then (let arr = sort_key (\<lambda>e. snd (snd e)) c1;
                   over = length c1 - ROOM_CACHE_MAX
               in s\<lparr>cache := fold (\<lambda>e. AList.delete (fst e)) (take over arr) c1\<rparr>)
         else s\<lparr>cache := c1\<rparr>)"

definition prune_rate_buckets :: "int \<Rightarrow> store \<Rightarrow> store" where
  "prune_rate_buckets t s =
     s\<lparr>RATE_BUCKETS := filter (\<lambda>b. case snd (snd b) of None \<Rightarrow> False | Some ra \<Rightarrow> \<not> ra \<le> t)
                         (RATE_BUCKETS s)\<rparr>"

text \<open>
  \<open>pruneBackups\<close> on the listing of \<open>backups/\<close>, \<open>keep\<close> being \<open>BACKUP_KEEP\<close> (a natural
  number): the names not starting with a dot are sorted, and the first
  \<open>dirs.length - BACKUP_KEEP\<close> of them removed, one \<open>fs.rmSync\<close> each.
\<close>

definition hidden_name :: "string \<Rightarrow> bool" where
  "hidden_name n = (take 1 n = ''.'')"

definition pruneBackups :: "nat \<Rightarrow> string list \<Rightarrow> string list" where
  "pruneBackups keep entries =
     (let dirs = sort (filter (\<lambda>n. \<not> hidden_name n) entries);
          over = int (length dirs) - int keep
      in fold removeAll (take (nat over) dirs) entries)"

text \<open>
  \<open>doBackup\<close>, with every file operation succeeding; \<open>stamp\<close> is the directory name made
  of the time \<open>t\<close>, \<open>interval\<close> is \<open>BACKUP_INTERVAL_MS\<close>. Only the names under
  \<open>backups/\<close> are kept, not what each snapshot holds.
\<close>

definition doBackup :: "nat \<Rightarrow> int \<Rightarrow> int \<Rightarrow> string \<Rightarrow> store \<Rightarrow> store" where
  "doBackup keep interval t stamp s =
     (if t - lastBackupAt s < interval then s
      else if dirtyRoomIds s = [] then s
      else s\<lparr>dirtyRoomIds := [], lastBackupAt := t,
             backups := pruneBackups keep (List.insert stamp (backups s))\<rparr>)"

section \<open>Administration and the run of the server\<close>

text \<open>
  \<open>/admin/quarantine\<close> for an authorized caller; \<open>mode\<close> is the lower-cased parameter,
  \<open>toggle\<close> when absent. An id that \<open>normalizeRoomId\<close> rejects is answered with status 400.
\<close>

definition admin_quarantine :: "string \<Rightarrow> string \<Rightarrow> store \<Rightarrow> store" where
  "admin_quarantine rid mode s =
     (let r = normalizeRoomId rid
      in if r = [] then s
         else
           let q0 = (r \<in> quarantineSet s);
               q = (if mode = ''on'' then True else if mode = ''off'' then False else \<not> q0)
           in if q then s\<lparr>quarantineSet := insert r (quarantineSet s)\<rparr>
              else s\<lparr>quarantineSet := quarantineSet s - {r}\<rparr>)"

text \<open>
  What happens to the store: a message arrives on some connection, or a timer runs
  \<open>evictCache\<close>, \<open>doBackup\<close> or the bucket sweep, or the administrator changes the
  quarantine. A message event carries the state of its connection.
\<close>

datatype event =
    Message env conn "msg option"
  | Evict int
  | Backup nat int int string
  | SweepBuckets int
  | Quarantine string string

fun step :: "event \<Rightarrow> store \<Rightarrow> store" where
  "step (Message ev c raw) s = fst (on_message ev s c raw)"
| "step (Evict t) s = evictCache t s"
| "step (Backup keep interval t stamp) s = doBackup keep interval t stamp s"
| "step (SweepBuckets t) s = prune_rate_buckets t s"
| "step (Quarantine rid mode) s = admin_quarantine rid mode s"

fun replies :: "event \<Rightarrow> store \<Rightarrow> action list" where
  "replies (Message ev c raw) s = snd (snd (on_message ev s c raw))"
| "replies e s = []"

section \<open>Notions used by the properties\<close>

text \<open>
  A reservation is stale when it is expired, when its frame is committed, or when its
  frame index is out of range.
\<close>

definition stale :: "int \<Rightarrow> bool list \<Rightarrow> reservation \<Rightarrow> bool" where
  "stale t cm r = (expiresAt r \<le> t \<or> committed_at cm (frameIndex r)
                   \<or> \<not> (0 \<le> frameIndex r \<and> frameIndex r < 60))"

text \<open>
  An orphan: an entry of \<open>reservations\<close> whose frame \<open>reservedByFrame\<close> maps to another
  token.
\<close>

definition orphan :: "room \<Rightarrow> string \<times> reservation \<Rightarrow> bool" where
  "orphan rm e =
     (e \<in> set (reservations rm) \<and>
      (case map_of (reservedByFrame rm) (frameIndex (snd e)) of
         None \<Rightarrow> False | Some tok \<Rightarrow> tok \<noteq> fst e))"

text \<open>A room file in which two tokens reserve frame 5, and the room loaded from it.\<close>

definition orphan_file :: room_json where
  "orphan_file =
     \<lparr>j_roomId = ''ABCDEF'', j_theme = [65], j_frames = [], j_committed = [],
      j_createdAt = 1, j_updatedAt = 1, j_phase = ''DRAWING'',
      j_reservations = [(''a'', \<lparr>frameIndex = 5, expiresAt = 1000\<rparr>),
                        (''b'', \<lparr>frameIndex = 5, expiresAt = 1000\<rparr>)]\<rparr>"

definition orphan_room :: room where
  "orphan_room =
     \<lparr>roomId = ''ABCDEF'', theme = [65], frames = replicate 60 None,
      committed = replicate 60 False, createdAt = 1, updatedAt = 1, phase = ''DRAWING'',
      reservations = [(''a'', \<lparr>frameIndex = 5, expiresAt = 1000\<rparr>),
                      (''b'', \<lparr>frameIndex = 5, expiresAt = 1000\<rparr>)],
      reservedByFrame = [(5, ''b'')]\<rparr>"

text \<open>
  Example data: a room with frame 0 committed and frame 1 reserved, a completed room, and
  a store that caches both, holds the first on disk, and quarantines a third id.
\<close>

definition ex_room :: room where
  "ex_room =
     \<lparr>roomId = ''ABCDEFG'', theme = [65],
      frames = (replicate 60 None)[0 := Some ''data:image/png;base64,AAAA''],
      committed = (replicate 60 False)[0 := True],
      createdAt = 1000, updatedAt = 2000, phase = ''DRAWING'',
      reservations = [(''tok1'', \<lparr>frameIndex = 1, expiresAt = 200000\<rparr>)],
      reservedByFrame = [(1, ''tok1'')]\<rparr>"

definition ex_file :: room_json where
  "ex_file =
     \<lparr>j_roomId = ''ABCDEFG'', j_theme = [65],
      j_frames = (replicate 60 None)[0 := Some ''data:image/png;base64,AAAA''],
      j_committed = (replicate 60 False)[0 := True],
      j_createdAt = 1000, j_updatedAt = 2000, j_phase = ''DRAWING'',
      j_reservations = [(''tok1'', \<lparr>frameIndex = 1, expiresAt = 200000\<rparr>)]\<rparr>"

definition full_room :: room where
  "full_room =
     \<lparr>roomId = ''ZZZZZZZ'', theme = [65],
      frames = replicate 60 (Some ''data:image/png;base64,AAAA''),
      committed = replicate 60 True,
      createdAt = 1000, updatedAt = 2000, phase = ''PLAYBACK'',
      reservations = [], reservedByFrame = []\<rparr>"

definition ex_store :: store where
  "ex_store =
     \<lparr>cache = [(''ABCDEFG'', ex_room, 2000), (''ZZZZZZZ'', full_room, 2000)],
      files = [''ABCDEFG'' \<mapsto> Parsed ex_file],
      index = [], quarantineSet = {''QQQQQQQ''}, dirtyRoomIds = [], lastBackupAt = 0,
      backups = [], RATE_BUCKETS = []\<rparr>"

definition ex_env :: env where
  "ex_env = \<lparr>now = 5000, rnd1 = ''0.i'', rnd2 = ''0.i'', rnd_theme = [66], rnd_pick = 0,
             write1_ok = False, write2_ok = False\<rparr>"

definition ex_conn :: conn where
  "ex_conn = \<lparr>ws_roomId = [], remoteAddress = ''10.0.0.1''\<rparr>"

definition ex_data :: data where
  "ex_data = \<lparr>d_roomId = ''ABCDEFG'', d_theme = [], d_dataUrl = Some ''data:image/png;base64,BBBB'',
              d_view = False, d_reservationToken = ''tok1'', d_frameIndex = Some 1\<rparr>"

text \<open>The room object as \<open>saveRoom\<close> leaves it at time \<open>t\<close>, whether or not the file was written.\<close>

definition saved :: "int \<Rightarrow> room \<Rightarrow> room" where
  "saved t rm =
     (if normalizeRoomId (roomId rm) = [] then cleanupReservations t (normalizePhase rm)
      else normalizePhase (cleanupReservations t (cleanupReservations t (normalizePhase rm))))"

text \<open>The \<open>committed\<close> array of the room cached under \<open>k\<close>, if there is one.\<close>

definition cached_committed :: "store \<Rightarrow> string \<Rightarrow> bool list option" where
  "cached_committed s k = map_option (\<lambda>e. committed (fst e)) (map_of (cache s) k)"

text \<open>The entries of \<open>backups/\<close> that \<open>pruneBackups\<close> looks at.\<close>

definition visible :: "string list \<Rightarrow> string list" where
  "visible entries = filter (\<lambda>n. \<not> hidden_name n) entries"

text \<open>
  \<open>backup_cycles keep interval s0 stamps s\<close>: from the store \<open>s0\<close>, the store \<open>s\<close> is reached
  by backups that passed both gates of \<open>doBackup\<close> and made the directories \<open>stamps\<close>
  (latest first), with any activity in between that leaves \<open>backups/\<close> alone.
\<close>

inductive backup_cycles :: "nat \<Rightarrow> int \<Rightarrow> store \<Rightarrow> string list \<Rightarrow> store \<Rightarrow> bool"
  for keep :: nat and interval :: int and s0 :: store where
  start: "backup_cycles keep interval s0 [] s0"
| other: "backup_cycles keep interval s0 stamps s \<Longrightarrow> backups s' = backups s
          \<Longrightarrow> backup_cycles keep interval s0 stamps s'"
| cycle: "backup_cycles keep interval s0 stamps s \<Longrightarrow> \<not> t - lastBackupAt s < interval
          \<Longrightarrow> dirtyRoomIds s \<noteq> []
          \<Longrightarrow> backup_cycles keep interval s0 (stamp # stamps) (doBackup keep interval t stamp s)"

text \<open>Three backups of the example store, half an hour apart, keeping two.\<close>

definition ex_backup1 :: store where
  "ex_backup1 = doBackup 2 BACKUP_INTERVAL_MS 2000000 ''2026-01-15T00-00-00-000Z''
                  (ex_store\<lparr>dirtyRoomIds := [''ABCDEFG'']\<rparr>)"

definition ex_backup2 :: store where
  "ex_backup2 = doBackup 2 BACKUP_INTERVAL_MS 4000000 ''2026-01-15T00-30-00-000Z''
                  (ex_backup1\<lparr>dirtyRoomIds := [''ABCDEFG'']\<rparr>)"

definition ex_backup3 :: store where
  "ex_backup3 = doBackup 2 BACKUP_INTERVAL_MS 6000000 ''2026-01-15T01-00-00-000Z''
                  (ex_backup2\<lparr>dirtyRoomIds := [''ABCDEFG'']\<rparr>)"

text \<open>
  A room whose stored phase is the one derived from \<open>committed\<close>, over 60 slots.
\<close>

definition room_ok :: "room \<Rightarrow> bool" where
  "room_ok rm = (length (committed rm) = 60
                 \<and> phase rm = (if list_all (\<lambda>b. b) (committed rm) then ''PLAYBACK'' else ''DRAWING''))"

definition rooms_ok :: "(string \<times> room \<times> int) list \<Rightarrow> bool" where
  "rooms_ok c = list_all (\<lambda>e. room_ok (fst (snd e))) c"

text \<open>The stores the server passes through, from a start with an empty cache.\<close>

inductive reachable :: "store \<Rightarrow> bool" where
  boot: "cache s = [] \<Longrightarrow> reachable s"
| after: "reachable s \<Longrightarrow> reachable (step e s)"

text \<open>
  The coherence of cache and disk. With \<open>tgt = None\<close>: every cached room has 60 slots and
  is cached under its own id, an id \<open>normalizeRoomId\<close> leaves alone or rejects, and every
  room file is named after the room it holds. With \<open>tgt = Some (k, i)\<close>, moreover, frame
  \<open>i\<close> of room \<open>k\<close> is committed wherever the room is held, in the cache and on disk.
  The keys of the cache, a \<open>Map\<close>, are distinct.
\<close>

definition room_good :: "(string \<times> int) option \<Rightarrow> string \<Rightarrow> string \<Rightarrow> bool list \<Rightarrow> bool" where
  "room_good tgt k' rid cm =
     (length cm = 60 \<and> rid = k' \<and> (normalizeRoomId k' = k' \<or> normalizeRoomId k' = [])
      \<and> (case tgt of None \<Rightarrow> True | Some (k, i) \<Rightarrow> k' = k \<longrightarrow> committed_at cm i))"

definition coherent ::
  "(string \<times> int) option \<Rightarrow> (string \<times> room \<times> int) list \<Rightarrow> (string \<rightharpoonup> disk_file) \<Rightarrow> bool" where
  "coherent tgt c f =
     (distinct (map fst c)
      \<and> (\<forall>e \<in> set c. room_good tgt (fst e) (roomId (fst (snd e))) (committed (fst (snd e))))
      \<and> (\<forall>k' obj. f k' = Some (Parsed obj) \<longrightarrow>
            room_good tgt k' (normalizeRoomId (j_roomId obj)) (pad60 False (j_committed obj))))"

text \<open>A draw that mints an id \<open>normalizeRoomId\<close> leaves alone or rejects, other than the target's.\<close>

definition mint_ok :: "(string \<times> int) option \<Rightarrow> string \<Rightarrow> bool" where
  "mint_ok tgt r = (is_rand36 r \<and> (case tgt of None \<Rightarrow> True | Some (k, i) \<Rightarrow> id7 r \<noteq> k))"

text \<open>The reply \<open>submitted\<close> for frame \<open>i\<close>.\<close>

definition is_submitted :: "int \<Rightarrow> action \<Rightarrow> bool" where
  "is_submitted i a =
     (case a of
        Send en \<Rightarrow> (case e_data en of P_submitted rid j \<Rightarrow> e_t en = ''submitted'' \<and> j = i
                    | _ \<Rightarrow> False)
      | Broadcast rid en \<Rightarrow> False)"

text \<open>
  \<open>accepts k i e s\<close>: in the store \<open>s\<close>, the event \<open>e\<close> is a \<open>submit_frame\<close> request for the
  room id \<open>k\<close> that is answered with \<open>submitted\<close> for frame \<open>i\<close>.
\<close>

definition accepts :: "string \<Rightarrow> int \<Rightarrow> event \<Rightarrow> store \<Rightarrow> bool" where
  "accepts k i e s =
     (case e of
        Message ev c raw \<Rightarrow>
          (case raw of
             None \<Rightarrow> False
           | Some m \<Rightarrow> m_t m = ''submit_frame'' \<and> target_roomId c (m_data m) = k
                       \<and> list_ex (is_submitted i) (replies e s))
      | _ \<Rightarrow> False)"

text \<open>The number of accepted submissions of frame \<open>i\<close> of room \<open>k\<close> along a run.\<close>

fun successes :: "string \<Rightarrow> int \<Rightarrow> store \<Rightarrow> event list \<Rightarrow> nat" where
  "successes k i s [] = 0"
| "successes k i s (e # es) = (if accepts k i e s then 1 else 0) + successes k i (step e s) es"

text \<open>
  An event that leaves frame \<open>i\<close> of room \<open>k\<close> in peace: if it is a submission of frame \<open>i\<close>
  to room \<open>k\<close>, the write of the room file that follows the commit succeeds; if it creates
  a room, its draw is well formed and does not mint the id \<open>k\<close> again.
\<close>

definition undisturbed :: "string \<Rightarrow> int \<Rightarrow> event \<Rightarrow> bool" where
  "undisturbed k i e =
     (case e of
        Message ev c raw \<Rightarrow>
          (case raw of
             None \<Rightarrow> True
           | Some m \<Rightarrow>
               (m_t m = ''submit_frame'' \<and> target_roomId c (m_data m) = k
                  \<and> d_frameIndex (m_data m) = Some i \<longrightarrow> write1_ok ev)
               \<and> (m_t m = ''create_public_and_submit''
                  \<longrightarrow> is_rand36 (rnd1 ev) \<and> id7 (rnd1 ev) \<noteq> k))
      | _ \<Rightarrow> True)"

text \<open>
  Frame \<open>i\<close> of room \<open>k\<close> is committed in the cache: a room is cached under \<open>k\<close> and its
  \<open>committed[i]\<close> is true. It is committed on disk: the file of \<open>k\<close> parses and its
  \<open>committed[i]\<close>, as \<open>deserializeRoom\<close> reads the array, is true.
\<close>

definition committed_in_cache :: "string \<Rightarrow> int \<Rightarrow> (string \<times> room \<times> int) list \<Rightarrow> bool" where
  "committed_in_cache k i c =
     (case map_of c k of None \<Rightarrow> False | Some e \<Rightarrow> committed_at (committed (fst e)) i)"

definition committed_on_disk :: "string \<Rightarrow> int \<Rightarrow> (string \<rightharpoonup> disk_file) \<Rightarrow> bool" where
  "committed_on_disk k i f =
     (case f k of
        None \<Rightarrow> False
      | Some Unparseable \<Rightarrow> False
      | Some (Parsed obj) \<Rightarrow> committed_at (pad60 False (j_committed obj)) i)"

text \<open>
  The room \<open>ex_room\<close> as it is loaded from \<open>ex_file\<close> once the reservation \<open>tok1\<close> has
  expired, and as \<open>join_by_id\<close> leaves it at time 400000 with the token \<open>i-i\<close>.
\<close>

definition reloaded_room :: room where
  "reloaded_room = ex_room\<lparr>reservations := [], reservedByFrame := []\<rparr>"

definition rejoined_room :: room where
  "rejoined_room =
     ex_room\<lparr>updatedAt := 400000,
             reservations := [(''i-i'', \<lparr>frameIndex = 1, expiresAt = 580000\<rparr>)],
             reservedByFrame := [(1, ''i-i'')]\<rparr>"

text \<open>The file of room \<open>k\<close> exists and parses.\<close>

definition has_room_file :: "(string \<rightharpoonup> disk_file) \<Rightarrow> string \<Rightarrow> bool" where
  "has_room_file f k = (case f k of None \<Rightarrow> False | Some Unparseable \<Rightarrow> False | Some (Parsed obj) \<Rightarrow> True)"

section \<open>Basic facts\<close>

lemma normalizeRoomId_ABCDEF: "normalizeRoomId ''ABCDEF'' = ''ABCDEF''"
  by code_simp

lemma cleanupReservations_fields [simp]:
  "roomId (cleanupReservations t rm) = roomId rm"
  "theme (cleanupReservations t rm) = theme rm"
  "frames (cleanupReservations t rm) = frames rm"
  "committed (cleanupReservations t rm) = committed rm"
  "createdAt (cleanupReservations t rm) = createdAt rm"
  "updatedAt (cleanupReservations t rm) = updatedAt rm"
  "phase (cleanupReservations t rm) = phase rm"
  by (simp_all add: cleanupReservations_def Let_def)

lemma normalizePhase_fields [simp]:
  "roomId (normalizePhase rm) = roomId rm"
  "theme (normalizePhase rm) = theme rm"
  "frames (normalizePhase rm) = frames rm"
  "committed (normalizePhase rm) = committed rm"
  "createdAt (normalizePhase rm) = createdAt rm"
  "updatedAt (normalizePhase rm) = updatedAt rm"
  "reservations (normalizePhase rm) = reservations rm"
  "reservedByFrame (normalizePhase rm) = reservedByFrame rm"
  by (simp_all add: normalizePhase_def Let_def)

lemma phase_normalizePhase:
  "phase (normalizePhase rm) =
     (if list_all (\<lambda>b. b) (committed rm) then ''PLAYBACK'' else ''DRAWING'')"
  by (simp add: normalizePhase_def Let_def)

section \<open>The reservation sweep\<close>

lemma cleanup_entry_fst:
  "fst (cleanup_entry t cm e st) =
     (if stale t cm (snd e) then AList.delete (fst e) (fst st) else fst st)"
  by (auto simp: cleanup_entry_def stale_def Let_def)

lemma fold_cleanup_fst:
  "fst (fold (cleanup_entry t cm) xs st) =
     filter (\<lambda>e. fst e \<notin> fst ` {x \<in> set xs. stale t cm (snd x)}) (fst st)"
proof (induction xs arbitrary: st)
  case Nil
  then show ?case by simp
next
  case (Cons x xs)
  show ?case
    by (simp add: Cons.IH cleanup_entry_fst AList.delete_eq case_prod_beta)
       (auto intro!: filter_cong)
qed

lemma cleanup_reservations_filter:
  assumes "distinct (map fst (reservations rm))"
  shows "reservations (cleanupReservations t rm) =
           filter (\<lambda>e. \<not> stale t (committed rm) (snd e)) (reservations rm)"
proof -
  have "\<And>e. e \<in> set (reservations rm) \<Longrightarrow>
          (fst e \<notin> fst ` {x \<in> set (reservations rm). stale t (committed rm) (snd x)})
            = (\<not> stale t (committed rm) (snd e))"
    using assms by (auto simp: distinct_map inj_on_def)
  then show ?thesis
    by (simp add: cleanupReservations_def Let_def fold_cleanup_fst cong: filter_cong)
qed

lemma cleanup_orphan_room: "cleanupReservations 1 orphan_room = orphan_room"
  by (simp add: orphan_room_def cleanupReservations_def cleanup_entry_def committed_at_def Let_def)

text \<open>
  C5. The claim: sweep removes every orphan reservation, so that none remains after it
  returns. It fails on the room loaded from a file in which two live tokens reserve the
  uncommitted frame 5: \<open>deserializeRoom\<close> (which sweeps) yields a room where token \<open>a\<close> is an
  orphan, and a further sweep keeps it.
\<close>

theorem sweep_keeps_live_orphan:
  "deserializeRoom 1 [] orphan_file = Some orphan_room
   \<and> orphan orphan_room (''a'', \<lparr>frameIndex = 5, expiresAt = 1000\<rparr>)
   \<and> orphan (cleanupReservations 1 orphan_room) (''a'', \<lparr>frameIndex = 5, expiresAt = 1000\<rparr>)"
proof -
  have "deserializeRoom 1 [] orphan_file = Some orphan_room"
    by (simp add: deserializeRoom_def orphan_file_def orphan_room_def normalizeRoomId_ABCDEF
        pad60_def load_reservation_def rebuild_entry_def committed_at_def
        cleanupReservations_def cleanup_entry_def normalizePhase_def trim_by_def
        is_jspace_def Let_def list_all_iff)
  moreover have "orphan orphan_room (''a'', \<lparr>frameIndex = 5, expiresAt = 1000\<rparr>)"
    by (simp add: orphan_def orphan_room_def)
  ultimately show ?thesis
    by (simp add: cleanup_orphan_room)
qed

text \<open>
  C5, amended. Sweep removes exactly the stale reservations (expired, frame committed, or
  frame index out of range) and keeps every other entry in place, orphan or not: an orphan
  is removed only when it is stale. Tokens are the keys of a \<open>Map\<close>, hence distinct.
\<close>

theorem sweep_removes_exactly_stale:
  assumes "distinct (map fst (reservations rm))"
  shows "reservations (cleanupReservations t rm) =
           filter (\<lambda>e. \<not> stale t (committed rm) (snd e)) (reservations rm)
         \<and> (\<forall>e. orphan rm e \<longrightarrow>
               (e \<in> set (reservations (cleanupReservations t rm)))
                 = (\<not> stale t (committed rm) (snd e)))"
  using cleanup_reservations_filter [OF assms, of t] by (auto simp: orphan_def)


theorem sweep_removes_exactly_stale_witness:
  "distinct (map fst (reservations orphan_room))
   \<and> orphan orphan_room (''a'', \<lparr>frameIndex = 5, expiresAt = 1000\<rparr>)
   \<and> \<not> stale 1 (committed orphan_room) \<lparr>frameIndex = 5, expiresAt = 1000\<rparr>
   \<and> (''a'', \<lparr>frameIndex = 5, expiresAt = 1000\<rparr>)
         \<in> set (reservations (cleanupReservations 1 orphan_room))
   \<and> stale 1000 (committed orphan_room) \<lparr>frameIndex = 5, expiresAt = 1000\<rparr>
   \<and> (''a'', \<lparr>frameIndex = 5, expiresAt = 1000\<rparr>)
         \<notin> set (reservations (cleanupReservations 1000 orphan_room))"
proof -
  let ?e = "(''a'', \<lparr>frameIndex = 5, expiresAt = 1000\<rparr>)"
  have d: "distinct (map fst (reservations orphan_room))"
    by (simp add: orphan_room_def)
  have o: "orphan orphan_room ?e"
    by (simp add: orphan_def orphan_room_def)
  have s1: "\<not> stale 1 (committed orphan_room) (snd ?e)"
    by (simp add: stale_def orphan_room_def committed_at_def)
  have s2: "stale 1000 (committed orphan_room) (snd ?e)"
    by (simp add: stale_def)
  have k1: "?e \<in> set (reservations (cleanupReservations 1 orphan_room))"
    using sweep_removes_exactly_stale [OF d, of 1] o s1 by blast
  have k2: "?e \<notin> set (reservations (cleanupReservations 1000 orphan_room))"
    using sweep_removes_exactly_stale [OF d, of 1000] o s2 by blast
  show ?thesis
    using d o s1 s2 k1 k2 by simp
qed

section \<open>Examples and handler summaries\<close>

lemma normalizeRoomId_examples:
  "normalizeRoomId ''ABCDEFG'' = ''ABCDEFG''"
  "normalizeRoomId ''ZZZZZZZ'' = ''ZZZZZZZ''"
  "normalizeRoomId ''QQQQQQQ'' = ''QQQQQQQ''"
  "normalizeRoomId ''NOSUCHID'' = ''NOSUCHID''"
  "normalizeRoomId ''I'' = []"
  by code_simp+

lemma id7_examples: "id7 ''0.i'' = ''I''" "id7 ''0.abcdefg'' = ''ABCDEFG''"
  by code_simp+

lemma is_rand36_examples: "is_rand36 ''0.i''" "is_rand36 ''0.abcdefg''"
  by code_simp+

lemma upper_char_b36: "is_b36 c \<Longrightarrow> is_AZ09 (upper_char c)"
  by (auto simp: is_b36_def is_AZ09_def upper_char_def code_unit_def)

lemma rand36_digits: "is_rand36 r \<Longrightarrow> list_all is_b36 (take 7 (drop 2 r))"
  by (auto simp: is_rand36_def list_all_iff dest!: in_set_takeD)

lemma toUpperCase_b36: "list_all is_b36 x \<Longrightarrow> toUpperCase x = map upper_char x"
  by (induction x) (auto simp: toUpperCase_def is_b36_def)

lemma id7_length: "is_rand36 r \<Longrightarrow> length (id7 r) = min 7 (length r - 2)"
  by (simp add: id7_def toUpperCase_b36 rand36_digits min.commute)

lemma id7_chars: "is_rand36 r \<Longrightarrow> list_all is_AZ09 (id7 r)"
  using rand36_digits [of r]
  by (auto simp: id7_def toUpperCase_b36 list_all_iff upper_char_b36)

lemma token_length: "length (token r1 r2) = (length r1 - 2) + 1 + (length r2 - 2)"
  by (simp add: token_def)

lemma cleanup_ex_room: "cleanupReservations 5000 ex_room = ex_room"
  by (simp add: ex_room_def cleanupReservations_def cleanup_entry_def committed_at_def Let_def)

lemma getRoom_ex: "getRoom ex_env ex_store ''ABCDEFG'' = (set_cached ''ABCDEFG'' ex_room 5000 ex_store, Some (''ABCDEFG'', ex_room))"
  by (simp add: getRoom_def normalizeRoomId_examples ex_store_def ex_env_def Let_def)

lemma upt_60_unfold: "[0..<60] = 0 # 1 # 2 # [3..<60]"
  by (simp add: upt_conv_Cons)

lemma ex_room_fields:
  "roomId ex_room = ''ABCDEFG''"
  "theme ex_room = [65]"
  "committed ex_room = (replicate 60 False)[0 := True]"
  "frames ex_room = (replicate 60 None)[0 := Some ''data:image/png;base64,AAAA'']"
  "phase ex_room = ''DRAWING''"
  "reservations ex_room = [(''tok1'', \<lparr>frameIndex = 1, expiresAt = 200000\<rparr>)]"
  "reservedByFrame ex_room = [(1, ''tok1'')]"
  by (simp_all add: ex_room_def)

lemma fye_ex: "snd (firstYoungestEmpty 5000 ex_room) = 2"
  by (simp add: firstYoungestEmpty_def cleanup_ex_room Let_def upt_60_unfold ex_room_fields
        committed_at_def split del: if_split)
lemma roomState_fst: "fst (roomState t rm) = normalizePhase (cleanupReservations t rm)"
  by (simp add: roomState_def Let_def)

lemma roomState_snd_fields [simp]:
  "rs_roomId (snd (roomState t rm)) = roomId rm"
  "rs_filled (snd (roomState t rm)) = committed rm"
  "rs_phase (snd (roomState t rm)) = (if list_all (\<lambda>b. b) (committed rm) then ''PLAYBACK'' else ''DRAWING'')"
  "rs_completed (snd (roomState t rm)) = list_all (\<lambda>b. b) (committed rm)"
  by (simp_all add: roomState_def Let_def phase_normalizePhase)

lemma serializeRoom_fst: "fst (serializeRoom t rm) = normalizePhase (cleanupReservations t rm)"
  by (simp add: serializeRoom_def Let_def)

lemma firstYoungestEmpty_fst: "fst (firstYoungestEmpty t rm) = cleanupReservations t rm"
  by (simp add: firstYoungestEmpty_def Let_def)

lemma saveRoom_fst:
  "fst (saveRoom ev wok rm s) =
     (if normalizeRoomId (roomId rm) = [] then cleanupReservations (now ev) (normalizePhase rm)
      else normalizePhase (cleanupReservations (now ev)
             (cleanupReservations (now ev) (normalizePhase rm))))"
  by (simp add: saveRoom_def Let_def serializeRoom_fst)

lemma saveRoom_fst_fields [simp]:
  "roomId (fst (saveRoom ev wok rm s)) = roomId rm"
  "committed (fst (saveRoom ev wok rm s)) = committed rm"
  "frames (fst (saveRoom ev wok rm s)) = frames rm"
  "theme (fst (saveRoom ev wok rm s)) = theme rm"
  "phase (fst (saveRoom ev wok rm s)) =
     (if list_all (\<lambda>b. b) (committed rm) then ''PLAYBACK'' else ''DRAWING'')"
  by (simp_all add: saveRoom_fst phase_normalizePhase)

lemma saveRoom_snd_fields [simp]:
  "cache (snd (saveRoom ev wok rm s)) = cache s"
  "quarantineSet (snd (saveRoom ev wok rm s)) = quarantineSet s"
  "backups (snd (saveRoom ev wok rm s)) = backups s"
  "lastBackupAt (snd (saveRoom ev wok rm s)) = lastBackupAt s"
  "RATE_BUCKETS (snd (saveRoom ev wok rm s)) = RATE_BUCKETS s"
  by (simp_all add: saveRoom_def Let_def updateIndexFromRoom_def)

lemma join_assign_actions:
  "snd (snd (join_assign ev s c k rm m)) =
     (if snd (firstYoungestEmpty (now ev) rm) < 0 then [error_env ev m]
      else [Send (Envelope 1 ''room_joined'' (now ev)
              (P_room_joined (roomId rm) (theme rm) (snd (firstYoungestEmpty (now ev) rm))
                 (token (rnd1 ev) (rnd2 ev)) (now ev + RESERVATION_MS) (committed rm)))])"
  by (simp add: join_assign_def Let_def firstYoungestEmpty_fst)

lemma h_join_by_id_actions:
  "snd (snd (h_join_by_id ev s c d)) =
     (if normalizeRoomId (d_roomId d) = [] then [error_env ev MSG_ROOMID_INVALID]
      else if normalizeRoomId (d_roomId d) \<in> quarantineSet s then [error_env ev MSG_ROOM_NOT_FOUND]
      else case snd (getRoom ev s (normalizeRoomId (d_roomId d))) of
             None \<Rightarrow> [error_env ev MSG_ROOM_NOT_FOUND]
           | Some (k, rm0) \<Rightarrow>
               if list_all (\<lambda>b. b) (committed rm0) then [error_env ev MSG_ROOM_NOT_FOUND]
               else snd (snd (join_assign ev (fst (getRoom ev s (normalizeRoomId (d_roomId d))))
                                c k (normalizePhase rm0) MSG_NO_EMPTY_FRAME)))"
  by (simp add: h_join_by_id_def Let_def phase_normalizePhase split: prod.splits option.splits)

lemma h_join_random_actions:
  "snd (snd (h_join_random ev s c d)) =
     (case findRandomOpenRoomId ev s of
        None \<Rightarrow> [error_env ev MSG_NO_PUBLIC_WORK]
      | Some rid \<Rightarrow>
          (case snd (getRoom ev s rid) of
             None \<Rightarrow> [error_env ev MSG_ROOM_NOT_FOUND_RETRY]
           | Some (k, rm0) \<Rightarrow>
               if list_all (\<lambda>b. b) (committed rm0) then [error_env ev MSG_NO_ROOM_RETRY]
               else snd (snd (join_assign ev (fst (getRoom ev s rid))
                                c k (normalizePhase rm0) MSG_NO_EMPTY_FRAME_RETRY))))"
  by (simp add: h_join_random_def Let_def phase_normalizePhase split: prod.splits option.splits)

lemma room_joined_not_error [simp]:
  "Send (Envelope v t ts (P_room_joined rid th idx tok ex fl)) \<noteq> error_env ev m"
  by (simp add: error_env_def)

lemma join_assign_token:
  assumes "Send (Envelope v t ts (P_room_joined rid th idx tok ex fl))
             \<in> set (snd (snd (join_assign ev s c k rm m)))"
  shows "tok = token (rnd1 ev) (rnd2 ev)"
  using assms by (simp add: join_assign_actions split: if_splits)

text \<open>
  C7, amended. Every reservation token a join handler mints is the fraction digits of two
  \<open>Math.random().toString(36)\<close> draws joined by a hyphen: its length is the two digit
  counts plus one, and it has at least 16 characters exactly when the two draws have at
  least 15 digits between them.
\<close>

theorem join_token_shape:
  assumes "h = h_join_random \<or> h = h_join_by_id"
    and "Send (Envelope v t ts (P_room_joined rid th idx tok ex fl)) \<in> set (snd (snd (h ev s c d)))"
  shows "tok = drop 2 (rnd1 ev) @ ''-'' @ drop 2 (rnd2 ev)
         \<and> length tok = length (drop 2 (rnd1 ev)) + 1 + length (drop 2 (rnd2 ev))
         \<and> (16 \<le> length tok) = (15 \<le> length (drop 2 (rnd1 ev)) + length (drop 2 (rnd2 ev)))"
proof -
  have "tok = token (rnd1 ev) (rnd2 ev)"
    using assms
    by (auto simp: h_join_random_actions h_join_by_id_actions
             split: option.splits if_splits dest: join_assign_token)
  then show ?thesis
    by (auto simp: token_def)
qed

lemma not_all_committed: "i < length cm \<Longrightarrow> \<not> cm ! i \<Longrightarrow> \<not> list_all (\<lambda>b. b) cm"
  by (auto simp: list_all_length)

lemma ex_room_not_done: "\<not> list_all (\<lambda>b. b) (committed ex_room)"
  by (rule not_all_committed [of 1]) (simp_all add: ex_room_fields)

lemma normalizePhase_ex_room: "normalizePhase ex_room = ex_room"
  using ex_room_not_done by (simp add: normalizePhase_def Let_def) (simp add: ex_room_def)

lemma ex_join_by_id_actions:
  "snd (snd (h_join_by_id ex_env ex_store ex_conn ex_data)) =
     [Send (Envelope 1 ''room_joined'' 5000
        (P_room_joined ''ABCDEFG'' [65] 2 ''i-i'' 185000 ((replicate 60 False)[0 := True])))]"
proof -
  note n = normalizePhase_ex_room and c = ex_room_not_done [unfolded ex_room_fields]
  have q: "''ABCDEFG'' \<notin> quarantineSet ex_store"
    by (simp add: ex_store_def)
  have e: "d_roomId ex_data = ''ABCDEFG''" "now ex_env = 5000" "rnd1 ex_env = ''0.i''" "rnd2 ex_env = ''0.i''"
    by (simp_all add: ex_data_def ex_env_def)
  show ?thesis
    by (simp add: h_join_by_id_actions e normalizeRoomId_examples q getRoom_ex c n
          join_assign_actions fye_ex ex_room_fields token_def RESERVATION_MS_def)
qed

text \<open>
  C7. The claim: every reservation token minted by a join handler has at least 16
  characters. It fails when both draws are 0.5, printed \<open>0.i\<close> in base 36: \<open>join_by_id\<close>
  then answers \<open>room_joined\<close> with the token \<open>i-i\<close>.
\<close>

theorem join_token_short:
  "is_rand36 (rnd1 ex_env) \<and> is_rand36 (rnd2 ex_env)
   \<and> Send (Envelope 1 ''room_joined'' 5000
        (P_room_joined ''ABCDEFG'' [65] 2 ''i-i'' 185000 ((replicate 60 False)[0 := True])))
       \<in> set (snd (snd (h_join_by_id ex_env ex_store ex_conn ex_data)))
   \<and> length ''i-i'' < 16"
  by (simp add: ex_join_by_id_actions) (simp add: ex_env_def is_rand36_examples)

theorem join_token_shape_witness:
  "(h_join_by_id = h_join_random \<or> h_join_by_id = h_join_by_id)
   \<and> Send (Envelope 1 ''room_joined'' 5000
        (P_room_joined ''ABCDEFG'' [65] 2 ''i-i'' 185000 ((replicate 60 False)[0 := True])))
       \<in> set (snd (snd (h_join_by_id ex_env ex_store ex_conn ex_data)))
   \<and> ''i-i'' = drop 2 (rnd1 ex_env) @ ''-'' @ drop 2 (rnd2 ex_env)
   \<and> length ''i-i'' = length (drop 2 (rnd1 ex_env)) + 1 + length (drop 2 (rnd2 ex_env))
   \<and> (16 \<le> length ''i-i'') = (15 \<le> length (drop 2 (rnd1 ex_env)) + length (drop 2 (rnd2 ex_env)))"
proof -
  have m: "Send (Envelope 1 ''room_joined'' 5000
        (P_room_joined ''ABCDEFG'' [65] 2 ''i-i'' 185000 ((replicate 60 False)[0 := True])))
       \<in> set (snd (snd (h_join_by_id ex_env ex_store ex_conn ex_data)))"
    by (simp add: ex_join_by_id_actions)
  have h: "h_join_by_id = h_join_random \<or> h_join_by_id = h_join_by_id"
    by simp
  show ?thesis
    using join_token_shape [OF h m] m by simp
qed

lemma makeRoom_fields:
  "roomId (fst (makeRoom ev th s)) = id7 (rnd1 ev)"
  "committed (fst (makeRoom ev th s)) = replicate 60 False"
  "frames (fst (makeRoom ev th s)) = replicate 60 None"
  "phase (fst (makeRoom ev th s)) = ''DRAWING''"
  by (simp_all add: makeRoom_def Let_def list_all_iff)

lemma makeRoom_cached:
  "map_of (cache (snd (makeRoom ev th s))) (id7 (rnd1 ev)) = Some (fst (makeRoom ev th s), now ev)"
  by (simp add: makeRoom_def Let_def set_cached_def update_conv')

text \<open>
  C6, amended. Every roomId minted on room creation from a draw that prints at least
  seven base-36 fraction digits is exactly 7 characters, each in \<open>[A-Z0-9]\<close>: the first
  seven digits in upper case. No collision check is made: whatever the store holds,
  \<open>makeRoom\<close> installs a fresh, empty room under the minted id.
\<close>

theorem minted_roomId_shape:
  assumes "is_rand36 (rnd1 ev)" and "7 \<le> length (drop 2 (rnd1 ev))"
  shows "roomId (fst (makeRoom ev th s)) = id7 (rnd1 ev)
         \<and> length (id7 (rnd1 ev)) = 7
         \<and> list_all is_AZ09 (id7 (rnd1 ev))
         \<and> map_of (cache (snd (makeRoom ev th s))) (id7 (rnd1 ev))
             = Some (fst (makeRoom ev th s), now ev)
         \<and> committed (fst (makeRoom ev th s)) = replicate 60 False"
  using assms by (simp add: makeRoom_fields makeRoom_cached id7_length id7_chars)

theorem minted_roomId_shape_witness:
  "is_rand36 (rnd1 (ex_env\<lparr>rnd1 := ''0.abcdefg''\<rparr>))
   \<and> 7 \<le> length (drop 2 (rnd1 (ex_env\<lparr>rnd1 := ''0.abcdefg''\<rparr>)))
   \<and> roomId (fst (makeRoom (ex_env\<lparr>rnd1 := ''0.abcdefg''\<rparr>) [] ex_store)) = ''ABCDEFG''
   \<and> length ''ABCDEFG'' = 7
   \<and> list_all is_AZ09 ''ABCDEFG''
   \<and> map_of (cache (snd (makeRoom (ex_env\<lparr>rnd1 := ''0.abcdefg''\<rparr>) [] ex_store))) ''ABCDEFG''
       = Some (fst (makeRoom (ex_env\<lparr>rnd1 := ''0.abcdefg''\<rparr>) [] ex_store), 5000)"
proof -
  have r: "is_rand36 (rnd1 (ex_env\<lparr>rnd1 := ''0.abcdefg''\<rparr>))"
    by (simp add: is_rand36_examples)
  have l: "7 \<le> length (drop 2 (rnd1 (ex_env\<lparr>rnd1 := ''0.abcdefg''\<rparr>)))"
    by simp
  have e: "now ex_env = 5000"
    by (simp add: ex_env_def)
  show ?thesis
    using minted_roomId_shape [OF r l, of "[]" ex_store] r
    by (simp add: e id7_examples)
qed

text \<open>
  C6. The claim: a minted roomId has exactly 7 characters, and a collision with an
  existing roomId is detected and the mint retried. Both parts fail: the draw 0.5 (\<open>0.i\<close>)
  mints the one-character id \<open>I\<close>, and the draw printed \<open>0.abcdefg\<close> mints \<open>ABCDEFG\<close>
  while the store caches a room of that id with frame 0 committed; the new empty room
  takes its place.
\<close>

theorem minted_roomId_short_and_reused:
  "is_rand36 ''0.i''
   \<and> roomId (fst (makeRoom (ex_env\<lparr>rnd1 := ''0.i''\<rparr>) [] ex_store)) = ''I''
   \<and> length ''I'' \<noteq> 7
   \<and> is_rand36 ''0.abcdefg''
   \<and> map_of (cache ex_store) ''ABCDEFG'' = Some (ex_room, 2000)
   \<and> committed ex_room ! 0
   \<and> roomId (fst (makeRoom (ex_env\<lparr>rnd1 := ''0.abcdefg''\<rparr>) [] ex_store)) = ''ABCDEFG''
   \<and> map_of (cache (snd (makeRoom (ex_env\<lparr>rnd1 := ''0.abcdefg''\<rparr>) [] ex_store))) ''ABCDEFG''
       = Some (fst (makeRoom (ex_env\<lparr>rnd1 := ''0.abcdefg''\<rparr>) [] ex_store), 5000)
   \<and> \<not> committed (fst (makeRoom (ex_env\<lparr>rnd1 := ''0.abcdefg''\<rparr>) [] ex_store)) ! 0"
proof -
  have a: "map_of (cache ex_store) ''ABCDEFG'' = Some (ex_room, 2000)"
    by (simp add: ex_store_def)
  have b: "committed ex_room ! 0"
    by (simp add: ex_room_fields)
  have c: "map_of (cache (snd (makeRoom (ex_env\<lparr>rnd1 := ''0.abcdefg''\<rparr>) [] ex_store))) ''ABCDEFG''
       = Some (fst (makeRoom (ex_env\<lparr>rnd1 := ''0.abcdefg''\<rparr>) [] ex_store), 5000)"
    using makeRoom_cached [of "ex_env\<lparr>rnd1 := ''0.abcdefg''\<rparr>" "[]" ex_store]
    by (simp add: id7_examples) (simp add: ex_env_def)
  show ?thesis
    using a b c by (simp add: makeRoom_fields id7_examples is_rand36_examples)
qed

lemma full_room_fields:
  "roomId full_room = ''ZZZZZZZ''"
  "theme full_room = [65]"
  "committed full_room = replicate 60 True"
  "phase full_room = ''PLAYBACK''"
  "reservations full_room = []"
  "reservedByFrame full_room = []"
  by (simp_all add: full_room_def)

lemma full_room_done: "list_all (\<lambda>b. b) (committed full_room)"
  by (simp add: full_room_fields list_all_iff)

lemma getRoom_full:
  "getRoom ex_env ex_store ''ZZZZZZZ'' =
     (set_cached ''ZZZZZZZ'' full_room 5000 ex_store, Some (''ZZZZZZZ'', full_room))"
  by (simp add: getRoom_def normalizeRoomId_examples ex_store_def ex_env_def Let_def)

lemma getRoom_absent:
  "getRoom ex_env (ex_store\<lparr>cache := []\<rparr>) ''ZZZZZZZ'' = (ex_store\<lparr>cache := []\<rparr>, None)"
  by (simp add: getRoom_def normalizeRoomId_examples ex_store_def Let_def)

text \<open>
  C4. For every roomId, \<open>join_by_id\<close> answers with one and the same error envelope (verb
  \<open>error\<close>, message "room not found") when the room is quarantined, when it does not
  exist, and when it is completed.
\<close>

theorem join_by_id_not_found_uniform:
  assumes "normalizeRoomId (d_roomId d) = rid" and "rid \<noteq> []"
    and "rid \<in> quarantineSet sq"
    and "rid \<notin> quarantineSet sa" and "snd (getRoom ev sa rid) = None"
    and "rid \<notin> quarantineSet sc" and "snd (getRoom ev sc rid) = Some (k, rm)"
    and "list_all (\<lambda>b. b) (committed rm)"
  shows "snd (snd (h_join_by_id ev sq cq d))
           = [Send (Envelope 1 ''error'' (now ev) (P_error None MSG_ROOM_NOT_FOUND None))]
         \<and> snd (snd (h_join_by_id ev sa ca d))
           = [Send (Envelope 1 ''error'' (now ev) (P_error None MSG_ROOM_NOT_FOUND None))]
         \<and> snd (snd (h_join_by_id ev sc cc d))
           = [Send (Envelope 1 ''error'' (now ev) (P_error None MSG_ROOM_NOT_FOUND None))]"
  using assms by (simp add: h_join_by_id_actions error_env_def)

theorem join_by_id_not_found_uniform_witness:
  "normalizeRoomId (d_roomId (ex_data\<lparr>d_roomId := ''ZZZZZZZ''\<rparr>)) = ''ZZZZZZZ''
   \<and> ''ZZZZZZZ'' \<in> quarantineSet (ex_store\<lparr>quarantineSet := {''ZZZZZZZ''}\<rparr>)
   \<and> ''ZZZZZZZ'' \<notin> quarantineSet (ex_store\<lparr>cache := []\<rparr>)
   \<and> snd (getRoom ex_env (ex_store\<lparr>cache := []\<rparr>) ''ZZZZZZZ'') = None
   \<and> ''ZZZZZZZ'' \<notin> quarantineSet ex_store
   \<and> snd (getRoom ex_env ex_store ''ZZZZZZZ'') = Some (''ZZZZZZZ'', full_room)
   \<and> list_all (\<lambda>b. b) (committed full_room)
   \<and> snd (snd (h_join_by_id ex_env (ex_store\<lparr>quarantineSet := {''ZZZZZZZ''}\<rparr>) ex_conn
                 (ex_data\<lparr>d_roomId := ''ZZZZZZZ''\<rparr>)))
       = [Send (Envelope 1 ''error'' 5000 (P_error None MSG_ROOM_NOT_FOUND None))]
   \<and> snd (snd (h_join_by_id ex_env (ex_store\<lparr>cache := []\<rparr>) ex_conn
                 (ex_data\<lparr>d_roomId := ''ZZZZZZZ''\<rparr>)))
       = [Send (Envelope 1 ''error'' 5000 (P_error None MSG_ROOM_NOT_FOUND None))]
   \<and> snd (snd (h_join_by_id ex_env ex_store ex_conn (ex_data\<lparr>d_roomId := ''ZZZZZZZ''\<rparr>)))
       = [Send (Envelope 1 ''error'' 5000 (P_error None MSG_ROOM_NOT_FOUND None))]"
proof -
  have n: "normalizeRoomId (d_roomId (ex_data\<lparr>d_roomId := ''ZZZZZZZ''\<rparr>)) = ''ZZZZZZZ''"
    by (simp add: normalizeRoomId_examples)
  have z: "''ZZZZZZZ'' \<noteq> []"
    by simp
  have q: "''ZZZZZZZ'' \<in> quarantineSet (ex_store\<lparr>quarantineSet := {''ZZZZZZZ''}\<rparr>)"
    by simp
  have a1: "''ZZZZZZZ'' \<notin> quarantineSet (ex_store\<lparr>cache := []\<rparr>)"
    by (simp add: ex_store_def)
  have a2: "snd (getRoom ex_env (ex_store\<lparr>cache := []\<rparr>) ''ZZZZZZZ'') = None"
    by (simp add: getRoom_absent)
  have c1: "''ZZZZZZZ'' \<notin> quarantineSet ex_store"
    by (simp add: ex_store_def)
  have c2: "snd (getRoom ex_env ex_store ''ZZZZZZZ'') = Some (''ZZZZZZZ'', full_room)"
    by (simp add: getRoom_full)
  have t: "now ex_env = 5000"
    by (simp add: ex_env_def)
  show ?thesis
    using join_by_id_not_found_uniform [OF n z q a1 a2 c1 c2 full_room_done,
            of ex_conn ex_conn ex_conn] n q a1 a2 c1 c2 full_room_done
    by (simp add: t)
qed

lemma h_join_room_found:
  assumes "target_roomId c d \<noteq> []" and "target_roomId c d \<notin> quarantineSet s"
    and "snd (getRoom ev s (target_roomId c d)) = Some (k, rm)"
  shows "ws_roomId (fst (snd (h_join_room ev s c d))) = roomId rm"
    and "snd (snd (h_join_room ev s c d)) =
          (if \<not> d_view d \<and> d_reservationToken d \<noteq> []
           then (if list_all (\<lambda>b. b) (committed rm) then [error_env ev MSG_NOT_EDITABLE]
                 else case map_of (reservations (cleanupReservations (now ev) (normalizePhase rm)))
                             (d_reservationToken d) of
                        None \<Rightarrow> [error_env ev MSG_RESERVATION_INVALID_REJOIN]
                      | Some r \<Rightarrow>
                          if expiresAt r \<le> now ev then [error_env ev MSG_RESERVATION_INVALID_REJOIN]
                          else [Send (room_state_env ev
                                  (snd (roomState (now ev)
                                     (cleanupReservations (now ev) (normalizePhase rm)))))])
           else [Send (room_state_env ev (snd (roomState (now ev) (normalizePhase rm))))])"
  using assms
  by (auto simp: h_join_room_def Let_def phase_normalizePhase split: prod.splits option.splits)

text \<open>
  C10. For an existing room that is not quarantined, a \<open>join_room\<close> request with \<open>view\<close> not
  true and no reservation token is answered with \<open>room_state\<close> and attaches the connection,
  whatever the phase and the reservations of the room: a completed room is reported with
  phase PLAYBACK and \<open>completed\<close> true.
\<close>

theorem join_room_without_token:
  assumes "target_roomId c d \<noteq> []" and "target_roomId c d \<notin> quarantineSet s"
    and "snd (getRoom ev s (target_roomId c d)) = Some (k, rm)"
    and "\<not> d_view d" and "d_reservationToken d = []"
  shows "\<exists>st. snd (snd (h_join_room ev s c d))
                = [Send (Envelope 1 ''room_state'' (now ev) (P_room_state st))]
              \<and> rs_roomId st = roomId rm
              \<and> rs_filled st = committed rm
              \<and> rs_completed st = list_all (\<lambda>b. b) (committed rm)
              \<and> rs_phase st = (if list_all (\<lambda>b. b) (committed rm) then ''PLAYBACK'' else ''DRAWING'')
              \<and> ws_roomId (fst (snd (h_join_room ev s c d))) = roomId rm"
  using assms h_join_room_found [OF assms(1,2,3)]
  by (simp add: room_state_env_def)

theorem join_room_without_token_witness:
  "target_roomId ex_conn (ex_data\<lparr>d_roomId := ''ZZZZZZZ'', d_reservationToken := []\<rparr>) \<noteq> []
   \<and> target_roomId ex_conn (ex_data\<lparr>d_roomId := ''ZZZZZZZ'', d_reservationToken := []\<rparr>)
        \<notin> quarantineSet ex_store
   \<and> snd (getRoom ex_env ex_store
             (target_roomId ex_conn (ex_data\<lparr>d_roomId := ''ZZZZZZZ'', d_reservationToken := []\<rparr>)))
       = Some (''ZZZZZZZ'', full_room)
   \<and> \<not> d_view (ex_data\<lparr>d_roomId := ''ZZZZZZZ'', d_reservationToken := []\<rparr>)
   \<and> phase full_room = ''PLAYBACK''
   \<and> (\<exists>st. snd (snd (h_join_room ex_env ex_store ex_conn
                        (ex_data\<lparr>d_roomId := ''ZZZZZZZ'', d_reservationToken := []\<rparr>)))
               = [Send (Envelope 1 ''room_state'' 5000 (P_room_state st))]
             \<and> rs_roomId st = ''ZZZZZZZ'' \<and> rs_completed st \<and> rs_phase st = ''PLAYBACK'')
   \<and> ws_roomId (fst (snd (h_join_room ex_env ex_store ex_conn
                        (ex_data\<lparr>d_roomId := ''ZZZZZZZ'', d_reservationToken := []\<rparr>))))
       = ''ZZZZZZZ''"
proof -
  let ?d = "ex_data\<lparr>d_roomId := ''ZZZZZZZ'', d_reservationToken := []\<rparr>"
  have tr: "target_roomId ex_conn ?d = ''ZZZZZZZ''"
    by (simp add: target_roomId_def normalizeRoomId_examples)
  have h1: "target_roomId ex_conn ?d \<noteq> []"
    by (simp add: tr)
  have h2: "target_roomId ex_conn ?d \<notin> quarantineSet ex_store"
    by (simp add: tr ex_store_def)
  have h3: "snd (getRoom ex_env ex_store (target_roomId ex_conn ?d)) = Some (''ZZZZZZZ'', full_room)"
    by (simp add: tr getRoom_full)
  have h4: "\<not> d_view ?d"
    by (simp add: ex_data_def)
  have h5: "d_reservationToken ?d = []"
    by simp
  have t: "now ex_env = 5000"
    by (simp add: ex_env_def)
  show ?thesis
    using join_room_without_token [OF h1 h2 h3 h4 h5] h1 h2 h3 h4 full_room_done
    by (auto simp: t full_room_fields)
qed

text \<open>
  C8. The claim: a \<open>join_room\<close> request answered with an error frame leaves the
  connection's roomId attachment as it was. The handler attaches the connection as soon
  as the room is found, before the checks of an editing join. Here an unattached
  connection presents an unknown token for the room \<open>ABCDEFG\<close>, and a token for the
  completed room \<open>ZZZZZZZ\<close>: both requests are answered with an error, and both leave the
  connection attached to the room.
\<close>

theorem join_room_error_attaches:
  "ws_roomId ex_conn = []
   \<and> snd (snd (h_join_room ex_env ex_store ex_conn (ex_data\<lparr>d_reservationToken := ''nope''\<rparr>)))
       = [Send (Envelope 1 ''error'' 5000 (P_error None MSG_RESERVATION_INVALID_REJOIN None))]
   \<and> ws_roomId (fst (snd (h_join_room ex_env ex_store ex_conn
                             (ex_data\<lparr>d_reservationToken := ''nope''\<rparr>)))) = ''ABCDEFG''
   \<and> snd (snd (h_join_room ex_env ex_store ex_conn (ex_data\<lparr>d_roomId := ''ZZZZZZZ''\<rparr>)))
       = [Send (Envelope 1 ''error'' 5000 (P_error None MSG_NOT_EDITABLE None))]
   \<and> ws_roomId (fst (snd (h_join_room ex_env ex_store ex_conn
                             (ex_data\<lparr>d_roomId := ''ZZZZZZZ''\<rparr>)))) = ''ZZZZZZZ''"
proof -
  let ?d1 = "ex_data\<lparr>d_reservationToken := ''nope''\<rparr>"
  let ?d2 = "ex_data\<lparr>d_roomId := ''ZZZZZZZ''\<rparr>"
  have t1: "target_roomId ex_conn ?d1 = ''ABCDEFG''"
    by (simp add: target_roomId_def ex_data_def normalizeRoomId_examples)
  have t2: "target_roomId ex_conn ?d2 = ''ZZZZZZZ''"
    by (simp add: target_roomId_def normalizeRoomId_examples)
  have q: "''ABCDEFG'' \<notin> quarantineSet ex_store" "''ZZZZZZZ'' \<notin> quarantineSet ex_store"
    by (simp_all add: ex_store_def)
  have g1: "snd (getRoom ex_env ex_store (target_roomId ex_conn ?d1)) = Some (''ABCDEFG'', ex_room)"
    by (simp add: t1 getRoom_ex)
  have g2: "snd (getRoom ex_env ex_store (target_roomId ex_conn ?d2)) = Some (''ZZZZZZZ'', full_room)"
    by (simp add: t2 getRoom_full)
  have v: "\<not> d_view ?d1" "\<not> d_view ?d2" "d_reservationToken ?d2 = ''tok1''"
    by (simp_all add: ex_data_def)
  have t: "now ex_env = 5000"
    by (simp add: ex_env_def)
  have r1: "reservations (cleanupReservations (now ex_env) (normalizePhase ex_room))
              = [(''tok1'', \<lparr>frameIndex = 1, expiresAt = 200000\<rparr>)]"
    by (simp add: t normalizePhase_ex_room cleanup_ex_room ex_room_fields)
  have a1: "snd (snd (h_join_room ex_env ex_store ex_conn ?d1))
       = [Send (Envelope 1 ''error'' 5000 (P_error None MSG_RESERVATION_INVALID_REJOIN None))]"
    using h_join_room_found(2) [of ex_conn ?d1 ex_store ex_env, OF _ _ g1] v ex_room_not_done r1
    by (simp add: t1 q t error_env_def)
  have a2: "snd (snd (h_join_room ex_env ex_store ex_conn ?d2))
       = [Send (Envelope 1 ''error'' 5000 (P_error None MSG_NOT_EDITABLE None))]"
    using h_join_room_found(2) [of ex_conn ?d2 ex_store ex_env, OF _ _ g2] v
    by (simp add: t2 q t full_room_done error_env_def)
  have b1: "ws_roomId (fst (snd (h_join_room ex_env ex_store ex_conn ?d1))) = ''ABCDEFG''"
    using h_join_room_found(1) [of ex_conn ?d1 ex_store ex_env, OF _ _ g1]
    by (simp add: t1 q ex_room_fields)
  have b2: "ws_roomId (fst (snd (h_join_room ex_env ex_store ex_conn ?d2))) = ''ZZZZZZZ''"
    using h_join_room_found(1) [of ex_conn ?d2 ex_store ex_env, OF _ _ g2]
    by (simp add: t2 q full_room_fields)
  show ?thesis
    using a1 a2 b1 b2 by (simp add: ex_conn_def)
qed

lemma saveRoom_saved: "fst (saveRoom ev wok rm s) = saved (now ev) rm"
  by (simp add: saveRoom_fst saved_def)

lemma saveRoom_write_failed:
  "files (snd (saveRoom ev False rm s)) = files s"
  "dirtyRoomIds (snd (saveRoom ev False rm s)) = dirtyRoomIds s"
  by (simp_all add: saveRoom_def Let_def updateIndexFromRoom_def)

lemma set_cached_fields [simp]:
  "cache (set_cached k rm la s) = AList.update k (rm, la) (cache s)"
  "files (set_cached k rm la s) = files s"
  "index (set_cached k rm la s) = index s"
  "quarantineSet (set_cached k rm la s) = quarantineSet s"
  "dirtyRoomIds (set_cached k rm la s) = dirtyRoomIds s"
  "backups (set_cached k rm la s) = backups s"
  "lastBackupAt (set_cached k rm la s) = lastBackupAt s"
  "RATE_BUCKETS (set_cached k rm la s) = RATE_BUCKETS s"
  by (simp_all add: set_cached_def)

lemma getRoom_env:
  "now ev' = now ev \<Longrightarrow> rnd_theme ev' = rnd_theme ev \<Longrightarrow> getRoom ev' s rid = getRoom ev s rid"
  by (simp add: getRoom_def Let_def split: option.splits disk_file.splits)

lemma getRoom_fields [simp]:
  "files (fst (getRoom ev s rid)) = files s"
  "quarantineSet (fst (getRoom ev s rid)) = quarantineSet s"
  "index (fst (getRoom ev s rid)) = index s"
  "backups (fst (getRoom ev s rid)) = backups s"
  by (simp_all add: getRoom_def Let_def split: option.splits disk_file.splits)

lemma h_submit_frame_write_indep:
  assumes "now ev' = now ev" and "rnd_theme ev' = rnd_theme ev"
  shows "snd (h_submit_frame ev' s c d) = snd (h_submit_frame ev s c d)"
    and "cache (fst (h_submit_frame ev' s c d)) = cache (fst (h_submit_frame ev s c d))"
  using assms
  by (auto simp: h_submit_frame_def Let_def getRoom_env [OF assms] error_env_def room_state_env_def
        saveRoom_saved split: prod.splits option.splits)

lemma h_submit_frame_files_failed:
  assumes "\<not> write1_ok ev" and "\<not> write2_ok ev"
  shows "files (fst (h_submit_frame ev s c d)) = files s"
proof -
  have g: "\<And>x. files (fst (getRoom ev s x)) = files s"
    by simp
  have "\<And>x s1 r. getRoom ev s x = (s1, r) \<Longrightarrow> files s1 = files s"
    using g by (metis fst_conv)
  then show ?thesis
    using assms
    by (auto simp: h_submit_frame_def Let_def saveRoom_write_failed split: prod.splits option.splits)
qed

lemma h_submit_frame_commit:
  assumes "target_roomId c d \<noteq> []" and "target_roomId c d \<notin> quarantineSet s"
    and "getRoom ev s (target_roomId c d) = (s1, Some (k, rm0))"
    and "\<not> list_all (\<lambda>b. b) (committed rm0)"
    and "d_frameIndex d = Some idx" and "0 \<le> idx" and "idx < 60"
    and "d_reservationToken d \<noteq> []"
    and "map_of (reservations (cleanupReservations (now ev) (normalizePhase rm0)))
           (d_reservationToken d) = Some r"
    and "now ev < expiresAt r" and "frameIndex r = idx"
    and "\<not> committed_at (committed rm0) idx"
    and "validatePngDataUrl (d_dataUrl d)"
    and "\<not> list_all (\<lambda>b. b) ((committed rm0)[nat idx := True])"
  shows "snd (snd (h_submit_frame ev s c d)) =
           [Broadcast (roomId rm0)
              (Envelope 1 ''frame_committed'' (now ev) (P_frame_committed (roomId rm0) idx)),
            Send (Envelope 1 ''submitted'' (now ev) (P_submitted (roomId rm0) idx))]"
    and "cached_committed (fst (h_submit_frame ev s c d)) k = Some ((committed rm0)[nat idx := True])"
  using assms
  by (simp_all add: h_submit_frame_def Let_def phase_normalizePhase cached_committed_def
        saveRoom_saved update_conv' saved_def)

lemma ex_submit_path:
  "target_roomId ex_conn ex_data = ''ABCDEFG''"
  "d_frameIndex ex_data = Some 1"
  "d_reservationToken ex_data = ''tok1''"
  "map_of (reservations (cleanupReservations 5000 (normalizePhase ex_room))) ''tok1''
     = Some \<lparr>frameIndex = 1, expiresAt = 200000\<rparr>"
  "\<not> committed_at (committed ex_room) 1"
  "validatePngDataUrl (d_dataUrl ex_data)"
  "\<not> list_all (\<lambda>b. b) ((committed ex_room)[nat 1 := True])"
proof -
  show "target_roomId ex_conn ex_data = ''ABCDEFG''"
    by (simp add: target_roomId_def ex_data_def normalizeRoomId_examples)
  show "d_frameIndex ex_data = Some 1" "d_reservationToken ex_data = ''tok1''"
    by (simp_all add: ex_data_def)
  show "map_of (reservations (cleanupReservations 5000 (normalizePhase ex_room))) ''tok1''
     = Some \<lparr>frameIndex = 1, expiresAt = 200000\<rparr>"
    by (simp add: normalizePhase_ex_room cleanup_ex_room ex_room_fields)
  show "\<not> committed_at (committed ex_room) 1"
    by (simp add: committed_at_def ex_room_fields)
  show "validatePngDataUrl (d_dataUrl ex_data)"
    by (simp add: validatePngDataUrl_def ex_data_def)
  show "\<not> list_all (\<lambda>b. b) ((committed ex_room)[nat 1 := True])"
    by (rule not_all_committed [of 2]) (simp_all add: ex_room_fields)
qed

lemma ex_submit_result:
  assumes "now ev = 5000" and "rnd_theme ev = rnd_theme ex_env"
  shows "snd (snd (h_submit_frame ev ex_store ex_conn ex_data)) =
           [Broadcast ''ABCDEFG''
              (Envelope 1 ''frame_committed'' 5000 (P_frame_committed ''ABCDEFG'' 1)),
            Send (Envelope 1 ''submitted'' 5000 (P_submitted ''ABCDEFG'' 1))]"
    and "cached_committed (fst (h_submit_frame ev ex_store ex_conn ex_data)) ''ABCDEFG''
           = Some ((replicate 60 False)[0 := True, 1 := True])"
proof -
  have t: "now ex_env = 5000"
    by (simp add: ex_env_def)
  have g: "getRoom ev ex_store (target_roomId ex_conn ex_data)
             = (set_cached ''ABCDEFG'' ex_room 5000 ex_store, Some (''ABCDEFG'', ex_room))"
    using getRoom_env [of ev ex_env ex_store "''ABCDEFG''"] assms
    by (simp add: ex_submit_path t getRoom_ex)
  have q: "target_roomId ex_conn ex_data \<notin> quarantineSet ex_store"
    by (simp add: ex_submit_path ex_store_def)
  have ne: "target_roomId ex_conn ex_data \<noteq> []"
    by (simp add: ex_submit_path)
  have m: "map_of (reservations (cleanupReservations (now ev) (normalizePhase ex_room)))
             (d_reservationToken ex_data) = Some \<lparr>frameIndex = 1, expiresAt = 200000\<rparr>"
    by (simp add: assms ex_submit_path)
  note r = h_submit_frame_commit [OF ne q g ex_room_not_done ex_submit_path(2) _ _ _ m _ _
              ex_submit_path(5,6,7)]
  show "snd (snd (h_submit_frame ev ex_store ex_conn ex_data)) =
           [Broadcast ''ABCDEFG''
              (Envelope 1 ''frame_committed'' 5000 (P_frame_committed ''ABCDEFG'' 1)),
            Send (Envelope 1 ''submitted'' 5000 (P_submitted ''ABCDEFG'' 1))]"
    using r(1) by (simp add: assms ex_submit_path ex_room_fields)
  show "cached_committed (fst (h_submit_frame ev ex_store ex_conn ex_data)) ''ABCDEFG''
           = Some ((replicate 60 False)[0 := True, 1 := True])"
    using r(2) by (simp add: assms ex_submit_path ex_room_fields)
qed

text \<open>
  C3. The claim: a failed room save is surfaced to the requester as a server error and the
  in-memory change is undone, so that no \<open>submit_frame\<close> whose save fails answers with
  success while disk and memory differ. Here the write fails: the submitter of frame 1
  is sent \<open>submitted\<close>, the cached room has frame 1 committed, and the room file still has
  it uncommitted.
\<close>

theorem submit_save_failure_unreported:
  "\<not> write1_ok ex_env \<and> \<not> write2_ok ex_env
   \<and> snd (snd (h_submit_frame ex_env ex_store ex_conn ex_data)) =
       [Broadcast ''ABCDEFG''
          (Envelope 1 ''frame_committed'' 5000 (P_frame_committed ''ABCDEFG'' 1)),
        Send (Envelope 1 ''submitted'' 5000 (P_submitted ''ABCDEFG'' 1))]
   \<and> cached_committed (fst (h_submit_frame ex_env ex_store ex_conn ex_data)) ''ABCDEFG''
       = Some ((replicate 60 False)[0 := True, 1 := True])
   \<and> files (fst (h_submit_frame ex_env ex_store ex_conn ex_data)) ''ABCDEFG'' = Some (Parsed ex_file)
   \<and> j_committed ex_file = (replicate 60 False)[0 := True]"
proof -
  have w: "\<not> write1_ok ex_env" "\<not> write2_ok ex_env" and t: "now ex_env = 5000"
    by (simp_all add: ex_env_def)
  have f: "files (fst (h_submit_frame ex_env ex_store ex_conn ex_data)) ''ABCDEFG'' = Some (Parsed ex_file)"
    by (simp add: h_submit_frame_files_failed [OF w]) (simp add: ex_store_def)
  show ?thesis
    using w f ex_submit_result [OF t refl] by (simp add: ex_file_def)
qed

text \<open>
  C3, amended. A failed room save is swallowed by \<open>saveRoom\<close>: the room object is left as
  after a successful save and the room file keeps its previous content. A \<open>submit_frame\<close>
  whose writes fail sends the same replies and leaves the same cached rooms as one whose
  writes succeed, and changes no room file.
\<close>

theorem save_failure_is_silent:
  "fst (saveRoom ev False rm s) = fst (saveRoom ev True rm s)
   \<and> files (snd (saveRoom ev False rm s)) = files s
   \<and> snd (h_submit_frame (ev\<lparr>write1_ok := False, write2_ok := False\<rparr>) s c d)
       = snd (h_submit_frame (ev\<lparr>write1_ok := True, write2_ok := True\<rparr>) s c d)
   \<and> cache (fst (h_submit_frame (ev\<lparr>write1_ok := False, write2_ok := False\<rparr>) s c d))
       = cache (fst (h_submit_frame (ev\<lparr>write1_ok := True, write2_ok := True\<rparr>) s c d))
   \<and> files (fst (h_submit_frame (ev\<lparr>write1_ok := False, write2_ok := False\<rparr>) s c d)) = files s"
  by (simp add: saveRoom_saved saveRoom_write_failed h_submit_frame_files_failed
        h_submit_frame_write_indep [of "ev\<lparr>write1_ok := False, write2_ok := False\<rparr>"
           "ev\<lparr>write1_ok := True, write2_ok := True\<rparr>"])

theorem save_failure_is_silent_witness:
  "snd (snd (h_submit_frame (ex_env\<lparr>write1_ok := True, write2_ok := True\<rparr>) ex_store ex_conn ex_data))
     = [Broadcast ''ABCDEFG''
          (Envelope 1 ''frame_committed'' 5000 (P_frame_committed ''ABCDEFG'' 1)),
        Send (Envelope 1 ''submitted'' 5000 (P_submitted ''ABCDEFG'' 1))]
   \<and> snd (snd (h_submit_frame (ex_env\<lparr>write1_ok := False, write2_ok := False\<rparr>) ex_store ex_conn ex_data))
     = [Broadcast ''ABCDEFG''
          (Envelope 1 ''frame_committed'' 5000 (P_frame_committed ''ABCDEFG'' 1)),
        Send (Envelope 1 ''submitted'' 5000 (P_submitted ''ABCDEFG'' 1))]
   \<and> files (fst (h_submit_frame (ex_env\<lparr>write1_ok := False, write2_ok := False\<rparr>) ex_store ex_conn ex_data))
     = files ex_store"
proof -
  have a: "snd (snd (h_submit_frame (ex_env\<lparr>write1_ok := True, write2_ok := True\<rparr>) ex_store ex_conn ex_data))
     = [Broadcast ''ABCDEFG''
          (Envelope 1 ''frame_committed'' 5000 (P_frame_committed ''ABCDEFG'' 1)),
        Send (Envelope 1 ''submitted'' 5000 (P_submitted ''ABCDEFG'' 1))]"
    by (rule ex_submit_result(1)) (simp_all add: ex_env_def)
  show ?thesis
    using save_failure_is_silent [of ex_env full_room ex_store ex_conn ex_data] a by simp
qed

lemma fold_removeAll: "fold removeAll ns es = filter (\<lambda>n. n \<notin> set ns) es"
  by (induction ns arbitrary: es) (auto simp: removeAll_filter_not_eq intro!: filter_cong)

lemma filter_not_in_take:
  assumes "distinct ds"
  shows "filter (\<lambda>n. n \<notin> set (take m ds)) ds = drop m ds"
proof -
  let ?P = "\<lambda>n. n \<notin> set (take m ds)"
  have "distinct (take m ds @ drop m ds)"
    using assms by simp
  then have i: "set (take m ds) \<inter> set (drop m ds) = {}"
    by (simp only: distinct_append)
  have "filter ?P ds = filter ?P (take m ds) @ filter ?P (drop m ds)"
    by (metis append_take_drop_id filter_append)
  moreover have "filter ?P (take m ds) = []"
    by (simp add: filter_empty_conv)
  moreover have "filter ?P (drop m ds) = drop m ds"
    using i by (intro filter_True) blast
  ultimately show ?thesis by simp
qed

lemma pruneBackups_filter:
  "pruneBackups keep es =
     filter (\<lambda>n. n \<notin> set (take (length (visible es) - keep) (sort (visible es)))) es"
  by (simp add: pruneBackups_def Let_def fold_removeAll visible_def nat_diff_distrib')

lemma sort_visible_prune:
  assumes "distinct es"
  shows "sort (visible (pruneBackups keep es))
           = drop (length (visible es) - keep) (sort (visible es))"
proof -
  let ?ds = "sort (visible es)"
  let ?m = "length (visible es) - keep"
  have "visible (pruneBackups keep es) = filter (\<lambda>n. n \<notin> set (take ?m ?ds)) (visible es)"
    by (simp add: pruneBackups_filter visible_def conj_commute)
  then have "sort (visible (pruneBackups keep es)) = filter (\<lambda>n. n \<notin> set (take ?m ?ds)) ?ds"
    by (simp add: filter_sort)
  moreover have "distinct ?ds"
    using assms by (simp add: visible_def)
  ultimately show ?thesis
    by (simp add: filter_not_in_take)
qed

lemma drop_insort_tl:
  "sorted xs \<Longrightarrow> drop (Suc d) (insort x xs) = tl (insort x (drop d xs))"
proof (induction xs arbitrary: d)
  case Nil
  then show ?case by simp
next
  case (Cons y ys)
  show ?case
  proof (cases "x \<le> y")
    case True
    then have "\<forall>z\<in>set (drop d (y # ys)). x \<le> z"
      using Cons.prems by (fastforce dest: in_set_dropD)
    then have "insort x (drop d (y # ys)) = x # drop d (y # ys)"
      by (simp add: insort_is_Cons)
    then show ?thesis using True by simp
  next
    case False
    then show ?thesis
      using Cons by (cases d) auto
  qed
qed

lemma keep_greatest_step:
  assumes "sorted xs"
  shows "drop (length (insort x (drop (length xs - k) xs)) - k) (insort x (drop (length xs - k) xs))
           = drop (Suc (length xs) - k) (insort x xs)"
proof (cases "k \<le> length xs")
  case True
  then have "Suc (length xs) - k = Suc (length xs - k)"
    by simp
  moreover have "length (insort x (drop (length xs - k) xs)) - k = Suc 0"
    using True by simp
  ultimately show ?thesis
    using drop_insort_tl [OF assms, of "length xs - k" x] by (simp add: drop_Suc)
next
  case False
  then show ?thesis by simp
qed

lemma visible_Cons: "\<not> hidden_name x \<Longrightarrow> visible (x # es) = x # visible es"
  by (simp add: visible_def)

lemma hidden_pruneBackups: "filter hidden_name (pruneBackups keep es) = filter hidden_name es"
proof -
  have "\<And>n m. hidden_name n \<Longrightarrow> n \<notin> set (take m (sort (visible es)))"
    by (auto simp: visible_def dest!: in_set_takeD)
  then show ?thesis
    by (auto simp: pruneBackups_filter intro!: filter_cong)
qed

lemma doBackup_backups:
  "\<not> t - lastBackupAt s < interval \<Longrightarrow> dirtyRoomIds s \<noteq> []
   \<Longrightarrow> backups (doBackup keep interval t stamp s) = pruneBackups keep (List.insert stamp (backups s))"
  by (simp add: doBackup_def)

lemma backup_cycles_inv:
  assumes "backup_cycles keep interval s0 stamps s"
    and "distinct (backups s0)" and "distinct stamps"
    and "set stamps \<inter> set (backups s0) = {}"
    and "\<forall>n\<in>set stamps. \<not> hidden_name n"
  shows "distinct (backups s) \<and> set (backups s) \<subseteq> set (backups s0) \<union> set stamps
         \<and> filter hidden_name (backups s) = filter hidden_name (backups s0)
         \<and> (if stamps = [] then backups s = backups s0
             else sort (visible (backups s))
                    = drop (length (stamps @ visible (backups s0)) - keep)
                        (sort (stamps @ visible (backups s0))))"
  using assms
proof (induction rule: backup_cycles.induct)
  case start
  then show ?case by simp
next
  case (other stamps s s')
  then show ?case by simp
next
  case (cycle stamps s t stamp)
  let ?all = "stamps @ visible (backups s0)"
  have ih: "distinct (backups s)" "set (backups s) \<subseteq> set (backups s0) \<union> set stamps"
    "filter hidden_name (backups s) = filter hidden_name (backups s0)"
    "if stamps = [] then backups s = backups s0
     else sort (visible (backups s)) = drop (length ?all - keep) (sort ?all)"
    using cycle by simp_all
  have fresh: "stamp \<notin> set (backups s)"
    using ih(2) cycle.prems by auto
  have vis: "\<not> hidden_name stamp"
    using cycle.prems by simp
  have b: "backups (doBackup keep interval t stamp s) = pruneBackups keep (stamp # backups s)"
    using fresh cycle.hyps by (simp add: doBackup_backups)
  have d: "distinct (stamp # backups s)"
    using fresh ih(1) by simp
  have s1: "sort (visible (backups (doBackup keep interval t stamp s)))
              = drop (length (insort stamp (sort (visible (backups s)))) - keep)
                  (insort stamp (sort (visible (backups s))))"
    using sort_visible_prune [OF d, of keep] by (simp add: b visible_Cons [OF vis])
  have s2: "sort (visible (backups (doBackup keep interval t stamp s)))
              = drop (length ((stamp # stamps) @ visible (backups s0)) - keep)
                  (sort ((stamp # stamps) @ visible (backups s0)))"
  proof (cases "stamps = []")
    case True
    then show ?thesis using s1 ih(4) by simp
  next
    case False
    then have "sort (visible (backups s)) = drop (length (sort ?all) - keep) (sort ?all)"
      using ih(4) by simp
    then show ?thesis
      using s1 keep_greatest_step [of "sort ?all" stamp keep] by simp
  qed
  have "distinct (backups (doBackup keep interval t stamp s))"
    using d by (simp add: b pruneBackups_filter)
  moreover have "set (backups (doBackup keep interval t stamp s))
                   \<subseteq> set (backups s0) \<union> set (stamp # stamps)"
    using ih(2) by (auto simp: b pruneBackups_filter)
  moreover have "filter hidden_name (backups (doBackup keep interval t stamp s))
                   = filter hidden_name (backups s0)"
    using ih(3) vis by (simp add: b hidden_pruneBackups)
  ultimately show ?case
    using s2 by simp
qed

text \<open>
  C9. After more than \<open>BACKUP_KEEP\<close> completed non-empty backup cycles (with directory
  names that are new and distinct), exactly \<open>BACKUP_KEEP\<close> backup directories remain, and
  they are the \<open>BACKUP_KEEP\<close> greatest of all names in lexical order; the prune step of a
  cycle removes precisely the smallest names beyond \<open>BACKUP_KEEP\<close>.
\<close>

theorem backup_rotation:
  assumes "backup_cycles keep interval s0 stamps s"
    and "distinct (backups s0)" and "distinct stamps"
    and "set stamps \<inter> set (backups s0) = {}"
    and "\<forall>n\<in>set stamps. \<not> hidden_name n"
    and "keep < length stamps"
  shows "length (visible (backups s)) = keep
         \<and> set (visible (backups s))
             = set (drop (length (stamps @ visible (backups s0)) - keep)
                      (sort (stamps @ visible (backups s0))))
         \<and> (\<forall>es. pruneBackups keep es
                   = filter (\<lambda>n. n \<notin> set (take (length (visible es) - keep) (sort (visible es)))) es)"
proof -
  let ?all = "stamps @ visible (backups s0)"
  have ne: "stamps \<noteq> []"
    using assms(6) by auto
  have e: "sort (visible (backups s)) = drop (length ?all - keep) (sort ?all)"
    using backup_cycles_inv [OF assms(1-5)] ne by simp
  have "length (sort (visible (backups s))) = keep"
    using assms(6) by (simp only: e length_drop length_sort) simp
  then have l: "length (visible (backups s)) = keep"
    by simp
  have "set (sort (visible (backups s))) = set (drop (length ?all - keep) (sort ?all))"
    by (simp only: e)
  then have m: "set (visible (backups s)) = set (drop (length ?all - keep) (sort ?all))"
    by simp
  show ?thesis
    using l m by (simp add: pruneBackups_filter)
qed

lemma ex_backup1_fields:
  "backups ex_backup1 = [''2026-01-15T00-00-00-000Z'']" "lastBackupAt ex_backup1 = 2000000"
  by (simp_all add: ex_backup1_def doBackup_def BACKUP_INTERVAL_MS_def ex_store_def
        pruneBackups_def hidden_name_def Let_def)

lemma ex_backup2_fields:
  "backups ex_backup2 = [''2026-01-15T00-30-00-000Z'', ''2026-01-15T00-00-00-000Z'']"
  "lastBackupAt ex_backup2 = 4000000"
  by (simp_all add: ex_backup2_def doBackup_def BACKUP_INTERVAL_MS_def ex_backup1_fields
        pruneBackups_def hidden_name_def Let_def)

lemma ex_backup3_fields:
  "backups ex_backup3 = [''2026-01-15T01-00-00-000Z'', ''2026-01-15T00-30-00-000Z'']"
  by (simp_all add: ex_backup3_def doBackup_def BACKUP_INTERVAL_MS_def ex_backup2_fields
        pruneBackups_def hidden_name_def Let_def)

lemma ex_backup_cycles:
  "backup_cycles 2 BACKUP_INTERVAL_MS ex_store
     [''2026-01-15T01-00-00-000Z'', ''2026-01-15T00-30-00-000Z'', ''2026-01-15T00-00-00-000Z'']
     ex_backup3"
proof -
  have c0: "backup_cycles 2 BACKUP_INTERVAL_MS ex_store [] (ex_store\<lparr>dirtyRoomIds := [''ABCDEFG'']\<rparr>)"
    by (rule backup_cycles.other [OF backup_cycles.start]) simp
  have c1: "backup_cycles 2 BACKUP_INTERVAL_MS ex_store [''2026-01-15T00-00-00-000Z''] ex_backup1"
    unfolding ex_backup1_def
    by (rule backup_cycles.cycle [OF c0]) (simp_all add: BACKUP_INTERVAL_MS_def ex_store_def)
  have c1': "backup_cycles 2 BACKUP_INTERVAL_MS ex_store [''2026-01-15T00-00-00-000Z'']
               (ex_backup1\<lparr>dirtyRoomIds := [''ABCDEFG'']\<rparr>)"
    by (rule backup_cycles.other [OF c1]) simp
  have c2: "backup_cycles 2 BACKUP_INTERVAL_MS ex_store
              [''2026-01-15T00-30-00-000Z'', ''2026-01-15T00-00-00-000Z''] ex_backup2"
    unfolding ex_backup2_def
    by (rule backup_cycles.cycle [OF c1']) (simp_all add: BACKUP_INTERVAL_MS_def ex_backup1_fields)
  have c2': "backup_cycles 2 BACKUP_INTERVAL_MS ex_store
              [''2026-01-15T00-30-00-000Z'', ''2026-01-15T00-00-00-000Z'']
              (ex_backup2\<lparr>dirtyRoomIds := [''ABCDEFG'']\<rparr>)"
    by (rule backup_cycles.other [OF c2]) simp
  show ?thesis
    unfolding ex_backup3_def
    by (rule backup_cycles.cycle [OF c2']) (simp_all add: BACKUP_INTERVAL_MS_def ex_backup2_fields)
qed

theorem backup_rotation_witness:
  "backup_cycles 2 BACKUP_INTERVAL_MS ex_store
     [''2026-01-15T01-00-00-000Z'', ''2026-01-15T00-30-00-000Z'', ''2026-01-15T00-00-00-000Z'']
     ex_backup3
   \<and> backups ex_store = []
   \<and> backups ex_backup3 = [''2026-01-15T01-00-00-000Z'', ''2026-01-15T00-30-00-000Z'']
   \<and> length (visible (backups ex_backup3)) = 2
   \<and> set (visible (backups ex_backup3))
       = {''2026-01-15T00-30-00-000Z'', ''2026-01-15T01-00-00-000Z''}
   \<and> pruneBackups 2 [''b'', ''.x'', ''c'', ''a''] = [''b'', ''.x'', ''c'']"
proof -
  let ?st = "[''2026-01-15T01-00-00-000Z'', ''2026-01-15T00-30-00-000Z'', ''2026-01-15T00-00-00-000Z'']"
  have b0: "backups ex_store = []"
    by (simp add: ex_store_def)
  have h1: "distinct (backups ex_store)"
    by (simp add: b0)
  have h2: "distinct ?st"
    by simp
  have h3: "set ?st \<inter> set (backups ex_store) = {}"
    by (simp add: b0)
  have h4: "\<forall>n\<in>set ?st. \<not> hidden_name n"
    by (simp add: hidden_name_def)
  have h5: "2 < length ?st"
    by simp
  have v: "visible [''b'', ''.x'', ''c'', ''a''] = [''b'', ''c'', ''a'']"
    by (simp add: visible_def hidden_name_def)
  note r = backup_rotation [OF ex_backup_cycles h1 h2 h3 h4 h5]
  have p: "pruneBackups 2 [''b'', ''.x'', ''c'', ''a''] = [''b'', ''.x'', ''c'']"
    using r by (simp add: v)
  have s: "set (visible (backups ex_backup3))
       = {''2026-01-15T00-30-00-000Z'', ''2026-01-15T01-00-00-000Z''}"
    using r by (simp add: b0 visible_def)
  show ?thesis
    using ex_backup_cycles b0 ex_backup3_fields r p s by simp
qed

lemma room_ok_normalizePhase: "length (committed rm) = 60 \<Longrightarrow> room_ok (normalizePhase rm)"
  by (simp add: room_ok_def phase_normalizePhase)

lemma room_ok_cleanup [simp]: "room_ok (cleanupReservations t rm) = room_ok rm"
  by (simp add: room_ok_def)

lemma room_ok_saved: "length (committed rm) = 60 \<Longrightarrow> room_ok (saved t rm)"
  by (simp add: saved_def room_ok_normalizePhase)

lemma room_ok_length: "room_ok rm \<Longrightarrow> length (committed rm) = 60"
  by (simp add: room_ok_def)

lemma length_pad60 [simp]: "length (pad60 d xs) = 60"
  by (simp add: pad60_def)

lemma deserializeRoom_committed:
  "deserializeRoom t rt obj = Some rm \<Longrightarrow> committed rm = pad60 False (j_committed obj)"
  by (auto simp: deserializeRoom_def Let_def split: if_splits)

lemma deserializeRoom_ok: "deserializeRoom t rt obj = Some rm \<Longrightarrow> room_ok rm"
  by (auto simp: deserializeRoom_def Let_def room_ok_normalizePhase split: if_splits)

lemma set_update_cases:
  "e \<in> set (AList.update k v xs) \<Longrightarrow> e = (k, v) \<or> e \<in> set xs"
  by (induction xs) (auto split: if_splits)

lemma rooms_ok_update:
  "rooms_ok c \<Longrightarrow> room_ok rm \<Longrightarrow> rooms_ok (AList.update k (rm, la) c)"
  by (auto simp: rooms_ok_def list_all_iff dest!: set_update_cases)

lemma rooms_ok_lookup: "rooms_ok c \<Longrightarrow> map_of c k = Some e \<Longrightarrow> room_ok (fst e)"
  by (auto simp: rooms_ok_def list_all_iff dest!: map_of_SomeD)

lemma getRoom_cases:
  obtains (miss) "getRoom ev s rid = (s, None)"
  | (hit) k rm la where "getRoom ev s rid = (set_cached k rm (now ev) s, Some (k, rm))"
      "k = normalizeRoomId rid" "k \<noteq> []" "map_of (cache s) k = Some (rm, la)"
  | (load) k rm obj where "getRoom ev s rid = (set_cached k rm (now ev) s, Some (k, rm))"
      "k = normalizeRoomId rid" "k \<noteq> []" "map_of (cache s) k = None"
      "files s k = Some (Parsed obj)" "deserializeRoom (now ev) (rnd_theme ev) obj = Some rm"
proof (cases "normalizeRoomId rid = []")
  case True
  then show ?thesis using miss by (simp add: getRoom_def Let_def)
next
  case ne: False
  show ?thesis
  proof (cases "map_of (cache s) (normalizeRoomId rid)")
    case (Some e)
    then show ?thesis
      using ne hit [of "normalizeRoomId rid" "fst e" "snd e"] by (simp add: getRoom_def Let_def)
  next
    case None
    show ?thesis
    proof (cases "files s (normalizeRoomId rid)")
      case f: None
      then show ?thesis using ne None miss by (simp add: getRoom_def Let_def)
    next
      case f: (Some fl)
      show ?thesis
      proof (cases fl)
        case Unparseable
        then show ?thesis using ne None f miss by (simp add: getRoom_def Let_def)
      next
        case (Parsed obj)
        show ?thesis
        proof (cases "deserializeRoom (now ev) (rnd_theme ev) obj")
          case d: None
          then show ?thesis using ne None f Parsed miss by (simp add: getRoom_def Let_def)
        next
          case d: (Some rm)
          then show ?thesis
            using ne None f Parsed load [of "normalizeRoomId rid" rm obj] by (simp add: getRoom_def Let_def)
        qed
      qed
    qed
  qed
qed

lemma getRoom_ok:
  assumes "getRoom ev s rid = (s1, Some (k, rm))" and "rooms_ok (cache s)"
  shows "room_ok rm \<and> rooms_ok (cache s1)"
proof (cases rule: getRoom_cases [of ev s rid])
  case miss
  then show ?thesis using assms by simp
next
  case (hit k' rm' la)
  then have "room_ok rm'"
    using assms(2) rooms_ok_lookup by fastforce
  then show ?thesis
    using hit assms by (auto simp: rooms_ok_update)
next
  case (load k' rm' obj)
  then have "room_ok rm'"
    by (simp add: deserializeRoom_ok)
  then show ?thesis
    using load assms by (auto simp: rooms_ok_update)
qed

lemma getRoom_none: "getRoom ev s rid = (s1, None) \<Longrightarrow> s1 = s"
  by (cases rule: getRoom_cases [of ev s rid]) auto

lemma updateIndexFromRoom_fields [simp]:
  "cache (updateIndexFromRoom rm s) = cache s"
  "files (updateIndexFromRoom rm s) = files s"
  "quarantineSet (updateIndexFromRoom rm s) = quarantineSet s"
  "backups (updateIndexFromRoom rm s) = backups s"
  by (simp_all add: updateIndexFromRoom_def)

lemma getRoom_ok_cases [consumes 1, case_names none some]:
  assumes "rooms_ok (cache s)"
  obtains (none) "getRoom ev s rid = (s, None)"
  | (some) s1 k rm where "getRoom ev s rid = (s1, Some (k, rm))" "room_ok rm"
      "rooms_ok (cache s1)" "length (committed rm) = 60"
proof (cases "getRoom ev s rid")
  case (Pair s1 r)
  show ?thesis
  proof (cases r)
    case None
    then show ?thesis
      using Pair none getRoom_none [of ev s rid s1] by simp
  next
    case (Some p)
    obtain k rm where p: "p = (k, rm)" by (cases p)
    have "room_ok rm \<and> rooms_ok (cache s1)"
      using getRoom_ok [of ev s rid s1 k rm] Pair Some p assms by simp
    then show ?thesis
      using some [of s1 k rm] Pair Some p by (simp add: room_ok_length)
  qed
qed

lemma saved_fields [simp]:
  "roomId (saved t rm) = roomId rm"
  "committed (saved t rm) = committed rm"
  "frames (saved t rm) = frames rm"
  "theme (saved t rm) = theme rm"
  by (simp_all add: saved_def)

lemma room_ok_roomState: "length (committed rm) = 60 \<Longrightarrow> room_ok (fst (roomState t rm))"
  by (simp add: roomState_fst room_ok_normalizePhase)

lemma h_resync_ok:
  assumes "rooms_ok (cache s)"
  shows "rooms_ok (cache (fst (h_resync ev s c d)))"
  using assms
proof (cases rule: getRoom_ok_cases [of s ev "target_roomId c d"])
  case none
  then show ?thesis using assms by (simp add: h_resync_def Let_def)
next
  case (some s1 k rm)
  then show ?thesis
    using assms by (simp add: h_resync_def Let_def rooms_ok_update room_ok_roomState)
qed

lemma makeRoom_ok:
  assumes "rooms_ok (cache s)"
  shows "rooms_ok (cache (snd (makeRoom ev th s)))"
  using assms
  by (simp add: makeRoom_def Let_def saveRoom_saved rooms_ok_update room_ok_saved)

lemma h_create_ok:
  assumes "rooms_ok (cache s)"
  shows "rooms_ok (cache (fst (h_create_public_and_submit ev s c d)))"
  using assms makeRoom_ok [OF assms, of ev]
  by (simp add: h_create_public_and_submit_def Let_def rooms_ok_update room_ok_roomState
        makeRoom_fields)

lemma join_assign_ok:
  assumes "rooms_ok (cache s)" and "length (committed rm) = 60"
  shows "rooms_ok (cache (fst (join_assign ev s c k rm m)))"
  using assms
  by (simp add: join_assign_def Let_def rooms_ok_update room_ok_roomState room_ok_saved
        saveRoom_saved firstYoungestEmpty_fst)

lemma h_join_random_ok:
  assumes "rooms_ok (cache s)"
  shows "rooms_ok (cache (fst (h_join_random ev s c d)))"
proof (cases "findRandomOpenRoomId ev s")
  case None
  then show ?thesis using assms by (simp add: h_join_random_def)
next
  case (Some rid)
  from assms show ?thesis
  proof (cases rule: getRoom_ok_cases [of s ev rid])
    case none
    then show ?thesis using assms Some by (simp add: h_join_random_def Let_def)
  next
    case (some s1 k rm)
    then show ?thesis
      using Some
      by (simp add: h_join_random_def Let_def rooms_ok_update room_ok_normalizePhase join_assign_ok)
  qed
qed

lemma h_join_by_id_ok:
  assumes "rooms_ok (cache s)"
  shows "rooms_ok (cache (fst (h_join_by_id ev s c d)))"
  using assms
proof (cases rule: getRoom_ok_cases [of s ev "normalizeRoomId (d_roomId d)"])
  case none
  then show ?thesis using assms by (simp add: h_join_by_id_def Let_def)
next
  case (some s1 k rm)
  then show ?thesis
    using assms
    by (simp add: h_join_by_id_def Let_def rooms_ok_update room_ok_normalizePhase join_assign_ok)
qed

lemma h_join_room_ok:
  assumes "rooms_ok (cache s)"
  shows "rooms_ok (cache (fst (h_join_room ev s c d)))"
  using assms
proof (cases rule: getRoom_ok_cases [of s ev "target_roomId c d"])
  case none
  then show ?thesis using assms by (simp add: h_join_room_def Let_def)
next
  case (some s1 k rm)
  then show ?thesis
    using assms
    by (simp add: h_join_room_def Let_def rooms_ok_update room_ok_normalizePhase
          room_ok_roomState split: option.splits)
qed

lemma h_get_frame_ok:
  assumes "rooms_ok (cache s)"
  shows "rooms_ok (cache (fst (h_get_frame ev s c d)))"
  using assms
proof (cases rule: getRoom_ok_cases [of s ev "target_roomId c d"])
  case none
  then show ?thesis using assms by (simp add: h_get_frame_def Let_def)
next
  case (some s1 k rm)
  then show ?thesis
    using assms by (simp add: h_get_frame_def Let_def split: option.splits)
qed

lemma h_submit_frame_ok:
  assumes "rooms_ok (cache s)"
  shows "rooms_ok (cache (fst (h_submit_frame ev s c d)))"
  using assms
proof (cases rule: getRoom_ok_cases [of s ev "target_roomId c d"])
  case none
  then show ?thesis using assms by (simp add: h_submit_frame_def Let_def)
next
  case (some s1 k rm)
  then show ?thesis
    using assms
    by (simp add: h_submit_frame_def Let_def rooms_ok_update room_ok_normalizePhase
          room_ok_roomState room_ok_saved saveRoom_saved split: option.splits)
qed

lemma on_message_ok:
  assumes "rooms_ok (cache s)"
  shows "rooms_ok (cache (fst (on_message ev s c raw)))"
proof (cases raw)
  case None
  then show ?thesis using assms by (simp add: on_message_def)
next
  case (Some m)
  have r: "rooms_ok (cache (s\<lparr>RATE_BUCKETS := b\<rparr>))" for b
    using assms by simp
  show ?thesis
    using Some r
    by (simp add: on_message_def Let_def h_hello_def h_resync_ok h_create_ok h_join_random_ok
          h_join_by_id_ok h_join_room_ok h_get_frame_ok h_submit_frame_ok)
qed

lemma rooms_ok_subset: "rooms_ok c \<Longrightarrow> set c' \<subseteq> set c \<Longrightarrow> rooms_ok c'"
  by (auto simp: rooms_ok_def list_all_iff)

lemma set_fold_delete: "set (fold (\<lambda>e. AList.delete (fst e)) xs c) \<subseteq> set c"
proof (induction xs arbitrary: c)
  case Nil
  then show ?case by simp
next
  case (Cons a xs)
  have "set (fold (\<lambda>e. AList.delete (fst e)) xs (AList.delete (fst a) c))
          \<subseteq> set (AList.delete (fst a) c)"
    by (rule Cons.IH)
  also have "\<dots> \<subseteq> set c"
    by (auto simp: AList.delete_eq)
  finally show ?case by simp
qed

lemma evictCache_subset: "set (cache (evictCache t s)) \<subseteq> set (cache s)"
proof -
  have "set (fold (\<lambda>e. AList.delete (fst e)) xs (filter P (cache s))) \<subseteq> set (cache s)" for xs P
    using set_fold_delete [of xs "filter P (cache s)"] by auto
  then show ?thesis
    by (auto simp: evictCache_def Let_def)
qed

lemma step_ok: "rooms_ok (cache s) \<Longrightarrow> rooms_ok (cache (step e s))"
proof (cases e)
  case (Message ev c raw)
  then show "rooms_ok (cache s) \<Longrightarrow> ?thesis" by (simp add: on_message_ok)
next
  case (Evict t)
  then show "rooms_ok (cache s) \<Longrightarrow> ?thesis"
    using evictCache_subset [of t s] by (simp add: rooms_ok_subset)
next
  case (Backup keep interval t stamp)
  then show "rooms_ok (cache s) \<Longrightarrow> ?thesis" by (simp add: doBackup_def)
next
  case (SweepBuckets t)
  then show "rooms_ok (cache s) \<Longrightarrow> ?thesis" by (simp add: prune_rate_buckets_def)
next
  case (Quarantine rid mode)
  then show "rooms_ok (cache s) \<Longrightarrow> ?thesis" by (simp add: admin_quarantine_def Let_def)
qed

lemma reachable_rooms_ok: "reachable s \<Longrightarrow> rooms_ok (cache s)"
  by (induction rule: reachable.induct) (simp_all add: rooms_ok_def step_ok [unfolded rooms_ok_def])

lemma deserialize_ex_file: "deserializeRoom 5000 rt ex_file = Some ex_room"
  by (simp add: deserializeRoom_def ex_file_def ex_room_def normalizeRoomId_examples
        pad60_def load_reservation_def rebuild_entry_def committed_at_def
        cleanupReservations_def cleanup_entry_def normalizePhase_def trim_by_def
        is_jspace_def Let_def not_all_committed [of 1])

lemma ex_get_frame_cache:
  "cache (step (Message ex_env ex_conn (Some \<lparr>m_t = ''get_frame'', m_data = ex_data\<rparr>))
            (ex_store\<lparr>cache := []\<rparr>))
     = [(''ABCDEFG'', ex_room, 5000)]"
proof -
  have t: "now ex_env = 5000"
    by (simp add: ex_env_def)
  have g: "getRoom ex_env (ex_store\<lparr>cache := [], RATE_BUCKETS := b\<rparr>) ''ABCDEFG''
             = (set_cached ''ABCDEFG'' ex_room 5000 (ex_store\<lparr>cache := [], RATE_BUCKETS := b\<rparr>),
                Some (''ABCDEFG'', ex_room))" for b
  proof -
    have f: "files ex_store ''ABCDEFG'' = Some (Parsed ex_file)"
      by (simp add: ex_store_def)
    show ?thesis
      by (simp add: getRoom_def normalizeRoomId_examples t deserialize_ex_file Let_def f)
  qed
  have r: "fst (snd (checkRateLimit 5000 (remoteAddress ex_conn) ''get_frame'' []))"
    by (simp add: checkRateLimit_def RATE_BY_OP_def Let_def)
  have q: "''ABCDEFG'' \<notin> quarantineSet ex_store"
    by (simp add: ex_store_def)
  have b0: "RATE_BUCKETS ex_store = []"
    by (simp add: ex_store_def)
  show ?thesis
    using r
    by (simp add: on_message_def Let_def t b0 h_get_frame_def ex_submit_path g q
          committed_at_def ex_room_fields)
qed

text \<open>
  C2. In every store the server passes through, at every boundary between two events, each
  cached room has 60 \<open>committed\<close> entries and its phase is PLAYBACK if and only if all of
  them are true, DRAWING otherwise; \<open>normalizePhase\<close> sets the phase to exactly that.
\<close>

theorem phase_matches_committed:
  assumes "reachable s" and "(k, rm, la) \<in> set (cache s)"
  shows "length (committed rm) = 60
         \<and> (phase rm = ''PLAYBACK'') = (\<forall>i<60. committed rm ! i)
         \<and> (phase rm \<noteq> ''PLAYBACK'' \<longrightarrow> phase rm = ''DRAWING'')
         \<and> (\<forall>r. phase (normalizePhase r)
                  = (if list_all (\<lambda>b. b) (committed r) then ''PLAYBACK'' else ''DRAWING''))"
proof -
  have "rooms_ok (cache s)"
    using assms(1) by (rule reachable_rooms_ok)
  then have "room_ok rm"
    using assms(2) by (auto simp: rooms_ok_def list_all_iff)
  then show ?thesis
    by (auto simp: room_ok_def phase_normalizePhase list_all_length split: if_splits)
qed

theorem phase_matches_committed_witness:
  "reachable (step (Message ex_env ex_conn (Some \<lparr>m_t = ''get_frame'', m_data = ex_data\<rparr>))
                (ex_store\<lparr>cache := []\<rparr>))
   \<and> (''ABCDEFG'', ex_room, 5000)
       \<in> set (cache (step (Message ex_env ex_conn (Some \<lparr>m_t = ''get_frame'', m_data = ex_data\<rparr>))
                       (ex_store\<lparr>cache := []\<rparr>)))
   \<and> length (committed ex_room) = 60
   \<and> phase ex_room = ''DRAWING''
   \<and> \<not> (\<forall>i<60. committed ex_room ! i)"
proof -
  let ?s = "step (Message ex_env ex_conn (Some \<lparr>m_t = ''get_frame'', m_data = ex_data\<rparr>))
              (ex_store\<lparr>cache := []\<rparr>)"
  have r: "reachable ?s"
    by (rule reachable.after, rule reachable.boot) simp
  have m: "(''ABCDEFG'', ex_room, 5000) \<in> set (cache ?s)"
    by (simp only: ex_get_frame_cache) simp
  show ?thesis
    using phase_matches_committed [OF r m] r m by (simp add: ex_room_fields)
qed

section \<open>One accepted submission per frame\<close>

lemma dropWhile_id: "xs = [] \<or> \<not> P (hd xs) \<Longrightarrow> dropWhile P xs = xs"
  by (cases xs) auto

lemma AZ09_not_space: "is_AZ09 c \<Longrightarrow> \<not> is_space c"
  by (auto simp: is_AZ09_def is_space_def)

lemma AZ09_upper: "is_AZ09 c \<Longrightarrow> upper_char c = c"
  by (auto simp: is_AZ09_def upper_char_def)

lemma trim_AZ09: "list_all is_AZ09 x \<Longrightarrow> trim_by is_space x = x"
proof -
  assume a: "list_all is_AZ09 x"
  have 1: "dropWhile is_space x = x"
    using a by (intro dropWhile_id) (cases x, auto simp: AZ09_not_space)
  have "list_all is_AZ09 (rev x)"
    using a by (simp add: list_all_iff)
  then have 2: "dropWhile is_space (rev x) = rev x"
    by (intro dropWhile_id) (cases "rev x", auto simp: AZ09_not_space)
  show ?thesis
    by (simp add: trim_by_def 1 2)
qed

lemma AZ09_not_sharp_s: "is_AZ09 c \<Longrightarrow> code_unit c \<noteq> 223"
  by (auto simp: is_AZ09_def)

lemma toUpperCase_AZ09: "list_all is_AZ09 x \<Longrightarrow> toUpperCase x = x"
  by (induction x) (auto simp: toUpperCase_def AZ09_upper AZ09_not_sharp_s)

lemma normalizeRoomId_AZ09:
  "list_all is_AZ09 x \<Longrightarrow> normalizeRoomId x = x \<or> normalizeRoomId x = []"
  by (simp add: normalizeRoomId_def Let_def trim_AZ09 toUpperCase_AZ09)

lemma normalizeRoomId_shape: "normalizeRoomId x \<noteq> [] \<Longrightarrow> list_all is_AZ09 (normalizeRoomId x)"
  by (auto simp: normalizeRoomId_def Let_def ROOM_ID_RE_def split: if_splits)

lemma normalizeRoomId_idem: "normalizeRoomId (normalizeRoomId x) = normalizeRoomId x"
proof (cases "normalizeRoomId x = []")
  case True
  then show ?thesis by (simp add: normalizeRoomId_def Let_def ROOM_ID_RE_def trim_by_def toUpperCase_def)
next
  case False
  then have a: "list_all is_AZ09 (normalizeRoomId x)" and r: "ROOM_ID_RE (normalizeRoomId x)"
    by (auto simp: normalizeRoomId_def Let_def ROOM_ID_RE_def split: if_splits)
  show ?thesis
    using r by (simp add: normalizeRoomId_def [of "normalizeRoomId x"] Let_def trim_AZ09 [OF a]
                  toUpperCase_AZ09 [OF a])
qed

lemma normalizeRoomId_id7:
  "is_rand36 r \<Longrightarrow> normalizeRoomId (id7 r) = id7 r \<or> normalizeRoomId (id7 r) = []"
  by (simp add: normalizeRoomId_AZ09 id7_chars)

lemma committed_at_update: "committed_at cm i \<Longrightarrow> committed_at (cm[j := True]) i"
  by (cases "j = nat i") (auto simp: committed_at_def)

lemma room_good_update: "room_good tgt k' rid cm \<Longrightarrow> room_good tgt k' rid (cm[j := True])"
  by (auto simp: room_good_def committed_at_update split: option.splits)

lemma coherent_update:
  "coherent tgt c f \<Longrightarrow> room_good tgt k' (roomId rm) (committed rm)
   \<Longrightarrow> coherent tgt (AList.update k' (rm, la) c) f"
  by (auto simp: coherent_def distinct_update dest!: set_update_cases)

lemma coherent_file:
  "coherent tgt c f \<Longrightarrow> room_good tgt k' (normalizeRoomId (j_roomId obj)) (pad60 False (j_committed obj))
   \<Longrightarrow> coherent tgt c (f(k' \<mapsto> Parsed obj))"
  by (auto simp: coherent_def)

lemma coherent_subset:
  "coherent tgt c f \<Longrightarrow> set c' \<subseteq> set c \<Longrightarrow> distinct (map fst c') \<Longrightarrow> coherent tgt c' f"
  by (auto simp: coherent_def)

lemma pad60_id: "length xs = 60 \<Longrightarrow> pad60 d xs = xs"
  by (simp add: pad60_def)

lemma serializeRoom_snd_fields [simp]:
  "j_roomId (snd (serializeRoom t rm)) = roomId rm"
  "j_committed (snd (serializeRoom t rm)) = committed rm"
  by (simp_all add: serializeRoom_def Let_def)

lemma saveRoom_files:
  "files (snd (saveRoom ev w rm s)) =
     (if normalizeRoomId (roomId rm) \<noteq> [] \<and> w
      then (files s)(normalizeRoomId (roomId rm) \<mapsto>
              Parsed (snd (serializeRoom (now ev) (cleanupReservations (now ev) (normalizePhase rm)))))
      else files s)"
  by (simp add: saveRoom_def Let_def)

lemma coherent_saveRoom:
  assumes "coherent tgt c (files s)" and "room_good tgt k' (roomId rm) (committed rm)"
  shows "coherent tgt c (files (snd (saveRoom ev w rm s)))"
proof (cases "normalizeRoomId (roomId rm) \<noteq> [] \<and> w")
  case False
  then show ?thesis using assms by (auto simp: saveRoom_files)
next
  case True
  have k: "roomId rm = k'" "normalizeRoomId k' = k'" and l: "length (committed rm) = 60"
    using assms(2) True by (auto simp: room_good_def)
  have "room_good tgt k' (normalizeRoomId (roomId rm)) (pad60 False (committed rm))"
    using assms(2) k l by (simp add: pad60_id)
  then show ?thesis
    using True assms(1) k by (simp add: saveRoom_files coherent_file)
qed

lemma deserializeRoom_roomId:
  "deserializeRoom t rt obj = Some rm \<Longrightarrow> roomId rm = normalizeRoomId (j_roomId obj)"
  by (auto simp: deserializeRoom_def Let_def split: if_splits)

lemma coherent_lookup:
  "coherent tgt c f \<Longrightarrow> map_of c k = Some (rm, la) \<Longrightarrow> room_good tgt k (roomId rm) (committed rm)"
  by (auto simp: coherent_def dest!: map_of_SomeD)

lemma getRoom_coherent_cases [consumes 1, case_names none some]:
  assumes "coherent tgt (cache s) (files s)"
  obtains (none) "getRoom ev s rid = (s, None)"
  | (some) s1 k rm where "getRoom ev s rid = (s1, Some (k, rm))"
      "room_good tgt k (roomId rm) (committed rm)" "coherent tgt (cache s1) (files s1)"
      "files s1 = files s" "k = normalizeRoomId rid"
      "cache s1 = AList.update k (rm, now ev) (cache s)"
      "(\<exists>la. map_of (cache s) k = Some (rm, la))
       \<or> (\<exists>obj. files s k = Some (Parsed obj) \<and> committed rm = pad60 False (j_committed obj))"
proof (cases rule: getRoom_cases [of ev s rid])
  case miss
  then show ?thesis using none by simp
next
  case (hit k rm la)
  have g: "room_good tgt k (roomId rm) (committed rm)"
    using assms hit(4) by (rule coherent_lookup)
  show ?thesis
    using some [of "set_cached k rm (now ev) s" k rm] hit g assms
    by (auto simp: coherent_update)
next
  case (load k rm obj)
  have "room_good tgt k (normalizeRoomId (j_roomId obj)) (pad60 False (j_committed obj))"
    using assms load(5) by (auto simp: coherent_def)
  then have g: "room_good tgt k (roomId rm) (committed rm)"
    using load(6) by (simp add: deserializeRoom_roomId deserializeRoom_committed)
  show ?thesis
    using some [of "set_cached k rm (now ev) s" k rm] load g assms
    by (auto simp: coherent_update deserializeRoom_committed)
qed

lemma coherent_saveRoom':
  "coherent tgt c (files s) \<Longrightarrow> room_good tgt (roomId rm) (roomId rm) (committed rm)
   \<Longrightarrow> coherent tgt c (files (snd (saveRoom ev w rm s)))"
  by (rule coherent_saveRoom)

lemma room_good_roomId: "room_good tgt k rid cm \<Longrightarrow> rid = k"
  by (simp add: room_good_def)

lemma coherent_update':
  "coherent tgt c f \<Longrightarrow> room_good tgt k' (roomId rm) (committed rm)
   \<Longrightarrow> coherent tgt (AList.update k' (rm, la) c) f"
  by (rule coherent_update)

lemmas coherent_intros = coherent_update' coherent_saveRoom' room_good_update

lemma h_resync_coherent:
  assumes "coherent tgt (cache s) (files s)"
  shows "coherent tgt (cache (fst (h_resync ev s c d))) (files (fst (h_resync ev s c d)))"
  using assms
proof (cases rule: getRoom_coherent_cases [of tgt s ev "target_roomId c d"])
  case none
  then show ?thesis using assms by (simp add: h_resync_def Let_def)
next
  case (some s1 k rm)
  then show ?thesis
    using assms by (simp add: h_resync_def Let_def roomState_fst coherent_intros)
qed

lemma join_assign_coherent:
  assumes "coherent tgt (cache s) (files s)" and "room_good tgt k (roomId rm) (committed rm)"
  shows "coherent tgt (cache (fst (join_assign ev s c k rm m)))
           (files (fst (join_assign ev s c k rm m)))"
  using assms room_good_roomId [OF assms(2)]
  by (simp add: join_assign_def Let_def roomState_fst saveRoom_saved firstYoungestEmpty_fst
        coherent_intros)

lemma h_join_random_coherent:
  assumes "coherent tgt (cache s) (files s)"
  shows "coherent tgt (cache (fst (h_join_random ev s c d))) (files (fst (h_join_random ev s c d)))"
proof (cases "findRandomOpenRoomId ev s")
  case None
  then show ?thesis using assms by (simp add: h_join_random_def)
next
  case (Some rid)
  from assms show ?thesis
  proof (cases rule: getRoom_coherent_cases [of tgt s ev rid])
    case none
    then show ?thesis using assms Some by (simp add: h_join_random_def Let_def)
  next
    case (some s1 k rm)
    then show ?thesis
      using Some assms by (simp add: h_join_random_def Let_def coherent_intros join_assign_coherent)
  qed
qed

lemma h_join_by_id_coherent:
  assumes "coherent tgt (cache s) (files s)"
  shows "coherent tgt (cache (fst (h_join_by_id ev s c d))) (files (fst (h_join_by_id ev s c d)))"
  using assms
proof (cases rule: getRoom_coherent_cases [of tgt s ev "normalizeRoomId (d_roomId d)"])
  case none
  then show ?thesis using assms by (simp add: h_join_by_id_def Let_def)
next
  case (some s1 k rm)
  then show ?thesis
    using assms by (simp add: h_join_by_id_def Let_def coherent_intros join_assign_coherent)
qed

lemma h_join_room_coherent:
  assumes "coherent tgt (cache s) (files s)"
  shows "coherent tgt (cache (fst (h_join_room ev s c d))) (files (fst (h_join_room ev s c d)))"
  using assms
proof (cases rule: getRoom_coherent_cases [of tgt s ev "target_roomId c d"])
  case none
  then show ?thesis using assms by (simp add: h_join_room_def Let_def)
next
  case (some s1 k rm)
  then show ?thesis
    using assms
    by (simp add: h_join_room_def Let_def roomState_fst coherent_intros split: option.splits)
qed

lemma h_get_frame_coherent:
  assumes "coherent tgt (cache s) (files s)"
  shows "coherent tgt (cache (fst (h_get_frame ev s c d))) (files (fst (h_get_frame ev s c d)))"
  using assms
proof (cases rule: getRoom_coherent_cases [of tgt s ev "target_roomId c d"])
  case none
  then show ?thesis using assms by (simp add: h_get_frame_def Let_def)
next
  case (some s1 k rm)
  then show ?thesis
    using assms by (simp add: h_get_frame_def Let_def split: option.splits)
qed

lemma h_submit_frame_coherent:
  assumes "coherent tgt (cache s) (files s)"
  shows "coherent tgt (cache (fst (h_submit_frame ev s c d))) (files (fst (h_submit_frame ev s c d)))"
  using assms
proof (cases rule: getRoom_coherent_cases [of tgt s ev "target_roomId c d"])
  case none
  then show ?thesis using assms by (simp add: h_submit_frame_def Let_def)
next
  case (some s1 k rm)
  note rid = room_good_roomId [OF some(2)]
  show ?thesis
    using some assms rid
    by (simp add: h_submit_frame_def Let_def roomState_fst saveRoom_saved coherent_intros
          split: option.splits)
qed

lemma room_good_minted:
  "mint_ok tgt r \<Longrightarrow> length cm = 60 \<Longrightarrow> room_good tgt (id7 r) (id7 r) cm"
  using normalizeRoomId_id7 [of r]
  by (auto simp: mint_ok_def room_good_def split: option.splits)

lemma makeRoom_coherent:
  assumes "coherent tgt (cache s) (files s)" and "mint_ok tgt (rnd1 ev)"
  shows "coherent tgt (cache (snd (makeRoom ev th s))) (files (snd (makeRoom ev th s)))"
  using assms
  by (simp add: makeRoom_def Let_def saveRoom_saved coherent_intros room_good_minted)

lemma h_create_coherent:
  assumes "coherent tgt (cache s) (files s)" and "mint_ok tgt (rnd1 ev)"
  shows "coherent tgt (cache (fst (h_create_public_and_submit ev s c d)))
           (files (fst (h_create_public_and_submit ev s c d)))"
  using makeRoom_coherent [OF assms, of "if trim_by is_jspace (d_theme d) \<noteq> []
            then trim_by is_jspace (d_theme d) else rnd_theme ev"] assms
  by (simp add: h_create_public_and_submit_def Let_def roomState_fst saveRoom_saved
        coherent_intros room_good_minted makeRoom_fields)

lemma on_message_coherent:
  assumes "coherent tgt (cache s) (files s)"
    and "\<And>m. raw = Some m \<Longrightarrow> m_t m = ''create_public_and_submit'' \<Longrightarrow> mint_ok tgt (rnd1 ev)"
  shows "coherent tgt (cache (fst (on_message ev s c raw))) (files (fst (on_message ev s c raw)))"
proof (cases raw)
  case None
  then show ?thesis using assms by (simp add: on_message_def)
next
  case (Some m)
  have r: "coherent tgt (cache (s\<lparr>RATE_BUCKETS := b\<rparr>)) (files (s\<lparr>RATE_BUCKETS := b\<rparr>))" for b
    using assms by simp
  show ?thesis
    using Some r assms(2) [OF Some]
    by (simp add: on_message_def Let_def h_hello_def h_resync_coherent h_create_coherent
          h_join_random_coherent h_join_by_id_coherent h_join_room_coherent
          h_get_frame_coherent h_submit_frame_coherent)
qed

lemma is_submitted_simps [simp]:
  "is_submitted i (error_env ev m) = False"
  "is_submitted i (Broadcast rid en) = False"
  "is_submitted i (Send (Envelope v t ts (P_submitted rid j))) = (t = ''submitted'' \<and> j = i)"
  "is_submitted i (Send (Envelope v t ts (P_error a b c))) = False"
  by (simp_all add: is_submitted_def error_env_def)

lemma h_submit_frame_submitted:
  assumes "list_ex (is_submitted i) (snd (snd (h_submit_frame ev s c d)))"
  obtains s1 k rm r where "getRoom ev s (target_roomId c d) = (s1, Some (k, rm))"
    and "target_roomId c d \<noteq> []" and "target_roomId c d \<notin> quarantineSet s"
    and "\<not> list_all (\<lambda>b. b) (committed rm)"
    and "d_frameIndex d = Some i" and "0 \<le> i" and "i < 60"
    and "d_reservationToken d \<noteq> []"
    and "map_of (reservations (cleanupReservations (now ev) (normalizePhase rm)))
           (d_reservationToken d) = Some r"
    and "now ev < expiresAt r" and "frameIndex r = i"
    and "\<not> committed_at (committed rm) i"
    and "validatePngDataUrl (d_dataUrl d)"
proof (cases "getRoom ev s (target_roomId c d)")
  case (Pair s1 o1)
  show ?thesis
  proof (cases o1)
    case None
    then show ?thesis
      using assms Pair by (simp add: h_submit_frame_def Let_def split: if_splits)
  next
    case (Some p)
    obtain k rm where p: "p = (k, rm)" by (cases p)
    show ?thesis
      using assms Pair Some p that [of s1 k rm]
      by (simp add: h_submit_frame_def Let_def phase_normalizePhase
            split: if_splits option.splits)
  qed
qed

lemma target_roomId_normal: "target_roomId c d = k \<Longrightarrow> normalizeRoomId k = k"
  by (auto simp: target_roomId_def normalizeRoomId_idem)

lemma on_message_submit:
  assumes "m_t m = ''submit_frame''"
  shows "snd (snd (on_message ev s c (Some m))) =
           (if \<not> fst (snd (checkRateLimit (now ev) (remoteAddress c) (m_t m) (RATE_BUCKETS s)))
            then [Send (Envelope 1 ''error'' (now ev)
                    (P_error (Some ''RATE_LIMIT'') MSG_RATE_LIMIT
                       (Some (snd (snd (checkRateLimit (now ev) (remoteAddress c) (m_t m)
                                           (RATE_BUCKETS s)))))))]
            else snd (snd (h_submit_frame ev
                   (s\<lparr>RATE_BUCKETS := fst (checkRateLimit (now ev) (remoteAddress c) (m_t m)
                                              (RATE_BUCKETS s))\<rparr>) c (m_data m))))"
    and "fst (on_message ev s c (Some m)) =
           (if \<not> fst (snd (checkRateLimit (now ev) (remoteAddress c) (m_t m) (RATE_BUCKETS s)))
            then s\<lparr>RATE_BUCKETS := fst (checkRateLimit (now ev) (remoteAddress c) (m_t m)
                                              (RATE_BUCKETS s))\<rparr>
            else fst (h_submit_frame ev
                   (s\<lparr>RATE_BUCKETS := fst (checkRateLimit (now ev) (remoteAddress c) (m_t m)
                                              (RATE_BUCKETS s))\<rparr>) c (m_data m)))"
  using assms by (simp_all add: on_message_def Let_def)

lemma accepts_submitted:
  assumes "accepts k i e s"
  obtains ev c m b where "e = Message ev c (Some m)" and "m_t m = ''submit_frame''"
    and "target_roomId c (m_data m) = k"
    and "list_ex (is_submitted i) (snd (snd (h_submit_frame ev (s\<lparr>RATE_BUCKETS := b\<rparr>) c (m_data m))))"
    and "step e s = fst (h_submit_frame ev (s\<lparr>RATE_BUCKETS := b\<rparr>) c (m_data m))"
proof (cases e)
  case (Message ev c raw)
  then obtain m where raw: "raw = Some m" and t: "m_t m = ''submit_frame''"
    and k: "target_roomId c (m_data m) = k"
    and l: "list_ex (is_submitted i) (replies (Message ev c (Some m)) s)"
    using assms by (auto simp: accepts_def split: option.splits)
  let ?b = "fst (checkRateLimit (now ev) (remoteAddress c) (m_t m) (RATE_BUCKETS s))"
  have ok: "fst (snd (checkRateLimit (now ev) (remoteAddress c) (m_t m) (RATE_BUCKETS s)))"
    using l by (simp add: on_message_submit(1) [OF t] split: if_splits)
  show ?thesis
    using that [of ev c m ?b] Message raw t k l ok
    by (simp add: on_message_submit [OF t])
qed (use assms in \<open>simp_all add: accepts_def\<close>)

lemma no_second_accept:
  assumes "coherent (Some (k, i)) (cache s) (files s)"
  shows "\<not> accepts k i e s"
proof
  assume "accepts k i e s"
  then obtain ev c m b where e: "e = Message ev c (Some m)" and mt: "m_t m = ''submit_frame''"
    and t: "target_roomId c (m_data m) = k"
    and l: "list_ex (is_submitted i)
              (snd (snd (h_submit_frame ev (s\<lparr>RATE_BUCKETS := b\<rparr>) c (m_data m))))"
    and st: "step e s = fst (h_submit_frame ev (s\<lparr>RATE_BUCKETS := b\<rparr>) c (m_data m))"
    by (rule accepts_submitted)
  let ?s = "s\<lparr>RATE_BUCKETS := b\<rparr>"
  have co: "coherent (Some (k, i)) (cache ?s) (files ?s)"
    using assms by simp
  from l obtain s1 k' rm where g: "getRoom ev ?s (target_roomId c (m_data m)) = (s1, Some (k', rm))"
    and n: "\<not> committed_at (committed rm) i"
    by (auto elim: h_submit_frame_submitted)
  from co show False
  proof (cases rule: getRoom_coherent_cases [of "Some (k, i)" ?s ev "target_roomId c (m_data m)"])
    case none
    then show ?thesis using g by simp
  next
    case (some s1' k'' rm')
    then have "k'' = k" "rm' = rm"
      using g t target_roomId_normal [OF t] by simp_all
    then show ?thesis
      using some(2) n by (simp add: room_good_def)
  qed
qed

lemma set_update_distinct:
  "distinct (map fst c) \<Longrightarrow> e \<in> set (AList.update k v c) \<Longrightarrow> e = (k, v) \<or> (e \<in> set c \<and> fst e \<noteq> k)"
  by (induction c) (auto split: if_splits)

lemma room_good_other: "k' \<noteq> k \<Longrightarrow> room_good (Some (k, i)) k' rid cm = room_good None k' rid cm"
  by (simp add: room_good_def)

lemma coherent_establish:
  assumes "coherent None c f"
    and "room_good (Some (k, i)) k (roomId x) (committed x)"
    and "room_good (Some (k, i)) k (normalizeRoomId (j_roomId obj)) (pad60 False (j_committed obj))"
  shows "coherent (Some (k, i)) (AList.update k (x, la) c) (f(k \<mapsto> Parsed obj))"
proof -
  have d: "distinct (map fst c)"
    using assms(1) by (simp add: coherent_def)
  have 1: "room_good (Some (k, i)) (fst e) (roomId (fst (snd e))) (committed (fst (snd e)))"
    if "e \<in> set (AList.update k (x, la) c)" for e
    using set_update_distinct [OF d that] assms(1,2)
    by (auto simp: coherent_def room_good_other)
  have 2: "room_good (Some (k, i)) k' (normalizeRoomId (j_roomId o')) (pad60 False (j_committed o'))"
    if "(f(k \<mapsto> Parsed obj)) k' = Some (Parsed o')" for k' o'
    using that assms(1,3) by (cases "k' = k") (auto simp: coherent_def room_good_other)
  show ?thesis
    using d 1 2 by (simp add: coherent_def distinct_update)
qed

lemma first_accept_commits:
  assumes "coherent None (cache s) (files s)" and "accepts k i e s" and "undisturbed k i e"
  shows "coherent (Some (k, i)) (cache (step e s)) (files (step e s))"
proof -
  from assms(2) obtain ev c m b where e: "e = Message ev c (Some m)"
    and mt: "m_t m = ''submit_frame''"
    and t: "target_roomId c (m_data m) = k"
    and l: "list_ex (is_submitted i)
              (snd (snd (h_submit_frame ev (s\<lparr>RATE_BUCKETS := b\<rparr>) c (m_data m))))"
    and st: "step e s = fst (h_submit_frame ev (s\<lparr>RATE_BUCKETS := b\<rparr>) c (m_data m))"
    by (rule accepts_submitted)
  let ?s = "s\<lparr>RATE_BUCKETS := b\<rparr>" and ?d = "m_data m"

  have co: "coherent None (cache ?s) (files ?s)"
    using assms(1) by simp
  from l obtain s1 k' rm r where g: "getRoom ev ?s (target_roomId c ?d) = (s1, Some (k', rm))"
    and p: "target_roomId c ?d \<noteq> []" "target_roomId c ?d \<notin> quarantineSet ?s"
      "\<not> list_all (\<lambda>b. b) (committed rm)" "d_frameIndex ?d = Some i" "0 \<le> i" "i < 60"
      "d_reservationToken ?d \<noteq> []"
      "map_of (reservations (cleanupReservations (now ev) (normalizePhase rm)))
         (d_reservationToken ?d) = Some r"
      "now ev < expiresAt r" "frameIndex r = i" "\<not> committed_at (committed rm) i"
      "validatePngDataUrl (d_dataUrl ?d)"
    by (rule h_submit_frame_submitted)
  have w: "write1_ok ev"
    using assms(3) e mt t p(4) by (simp add: undisturbed_def)
  from co show ?thesis
  proof (cases rule: getRoom_coherent_cases [of None ?s ev "target_roomId c ?d"])
    case none
    then show ?thesis using g by simp
  next
    case (some s1' k'' rm')
    then have eq: "s1' = s1" "k'' = k" "rm' = rm" "k' = k"
      using g t target_roomId_normal [OF t] by simp_all
    have rg: "room_good None k (roomId rm) (committed rm)" and c1: "coherent None (cache s1) (files s1)"
      using some eq by simp_all
    have rk: "roomId rm = k" and len: "length (committed rm) = 60" and nk: "normalizeRoomId k = k"
      using rg target_roomId_normal [OF t] by (simp_all add: room_good_def)
    have kne: "k \<noteq> []"
      using p(1) t by simp
    let ?cm = "(committed rm)[nat i := True]"
    have ci: "committed_at ?cm i"
      using p(5,6) len by (simp add: committed_at_def)
    have good: "room_good (Some (k, i)) k k ?cm"
      using rg ci rk by (simp add: room_good_def)
    show ?thesis
      using g p w rk nk kne eq c1 good len
      by (auto simp add: st h_submit_frame_def Let_def phase_normalizePhase saveRoom_saved
            saveRoom_files roomState_fst pad60_id intro!: coherent_establish)
  qed
qed

lemma evictCache_fields [simp]:
  "files (evictCache t s) = files s"
  by (simp add: evictCache_def Let_def)

lemma distinct_fold_delete:
  "distinct (map fst c) \<Longrightarrow> distinct (map fst (fold (\<lambda>e. AList.delete (fst e)) xs c))"
  by (induction xs arbitrary: c) (simp_all add: distinct_delete)

lemma evictCache_distinct:
  "distinct (map fst (cache s)) \<Longrightarrow> distinct (map fst (cache (evictCache t s)))"
  by (simp add: evictCache_def Let_def distinct_fold_delete distinct_map_filter)

lemma step_coherent:
  assumes "coherent tgt (cache s) (files s)"
    and "\<And>ev c m. e = Message ev c (Some m) \<Longrightarrow> m_t m = ''create_public_and_submit''
           \<Longrightarrow> mint_ok tgt (rnd1 ev)"
  shows "coherent tgt (cache (step e s)) (files (step e s))"
proof (cases e)
  case (Message ev c raw)
  then show ?thesis using assms by (simp add: on_message_coherent)
next
  case (Evict t)
  have "distinct (map fst (cache (evictCache t s)))"
    using assms(1) by (simp add: coherent_def evictCache_distinct)
  then show ?thesis
    using Evict assms(1) evictCache_subset [of t s] by (simp add: coherent_subset)
next
  case (Backup keep interval t stamp)
  then show ?thesis using assms(1) by (simp add: doBackup_def)
next
  case (SweepBuckets t)
  then show ?thesis using assms(1) by (simp add: prune_rate_buckets_def)
next
  case (Quarantine rid mode)
  then show ?thesis using assms(1) by (simp add: admin_quarantine_def Let_def)
qed

lemma undisturbed_mint_ok:
  "undisturbed k j (Message ev c (Some m)) \<Longrightarrow> m_t m = ''create_public_and_submit''
   \<Longrightarrow> mint_ok (Some (k, i)) (rnd1 ev) \<and> mint_ok None (rnd1 ev)"
  by (simp add: undisturbed_def mint_ok_def)

lemma no_more_successes:
  assumes "coherent (Some (k, i)) (cache s) (files s)" and "\<forall>e\<in>set es. undisturbed k i e"
  shows "successes k i s es = 0"
  using assms
proof (induction es arbitrary: s)
  case Nil
  then show ?case by simp
next
  case (Cons e es)
  have "coherent (Some (k, i)) (cache (step e s)) (files (step e s))"
    using Cons.prems by (intro step_coherent) (auto dest: undisturbed_mint_ok)
  then show ?case
    using Cons no_second_accept [of k i s e] by simp
qed

lemma successes_le_1:
  assumes "coherent None (cache s) (files s)" and "\<forall>e\<in>set es. undisturbed k i e"
  shows "successes k i s es \<le> 1"
  using assms
proof (induction es arbitrary: s)
  case Nil
  then show ?case by simp
next
  case (Cons e es)
  show ?case
  proof (cases "accepts k i e s")
    case True
    then have "coherent (Some (k, i)) (cache (step e s)) (files (step e s))"
      using Cons.prems by (intro first_accept_commits) simp_all
    then have "successes k i (step e s) es = 0"
      using Cons.prems by (intro no_more_successes) simp_all
    then show ?thesis using True by simp
  next
    case False
    have "coherent None (cache (step e s)) (files (step e s))"
      using Cons.prems by (intro step_coherent) (auto dest: undisturbed_mint_ok)
    then show ?thesis
      using False Cons by simp
  qed
qed

lemma getRoom_buckets:
  "getRoom ev (s\<lparr>RATE_BUCKETS := b\<rparr>) rid
     = (fst (getRoom ev s rid)\<lparr>RATE_BUCKETS := b\<rparr>, snd (getRoom ev s rid))"
  by (simp add: getRoom_def Let_def set_cached_def split: option.splits disk_file.splits)

lemma h_submit_frame_buckets:
  "snd (snd (h_submit_frame ev (s\<lparr>RATE_BUCKETS := b\<rparr>) c d)) = snd (snd (h_submit_frame ev s c d))"
proof (cases "getRoom ev s (target_roomId c d)")
  case (Pair s1 o1)
  then have g: "getRoom ev (s\<lparr>RATE_BUCKETS := b\<rparr>) (target_roomId c d) = (s1\<lparr>RATE_BUCKETS := b\<rparr>, o1)"
    by (simp add: getRoom_buckets)
  show ?thesis
    by (simp add: h_submit_frame_def Let_def Pair g saveRoom_saved error_env_def
          room_state_env_def split: option.splits prod.splits)
qed

lemma accepts_mechanism:
  assumes "accepts k i e s"
  shows "\<exists>ev c m rm r. e = Message ev c (Some m) \<and> m_t m = ''submit_frame''
           \<and> d_frameIndex (m_data m) = Some i
           \<and> snd (getRoom ev s k) = Some (k, rm)
           \<and> \<not> committed_at (committed rm) i
           \<and> map_of (reservations (cleanupReservations (now ev) (normalizePhase rm)))
                (d_reservationToken (m_data m)) = Some r
           \<and> frameIndex r = i \<and> now ev < expiresAt r"
proof -
  from assms obtain ev c m b where e: "e = Message ev c (Some m)" and mt: "m_t m = ''submit_frame''"
    and t: "target_roomId c (m_data m) = k"
    and l: "list_ex (is_submitted i)
              (snd (snd (h_submit_frame ev (s\<lparr>RATE_BUCKETS := b\<rparr>) c (m_data m))))"
    and st: "step e s = fst (h_submit_frame ev (s\<lparr>RATE_BUCKETS := b\<rparr>) c (m_data m))"
    by (rule accepts_submitted)
  from l obtain s1 k' rm r where g: "getRoom ev (s\<lparr>RATE_BUCKETS := b\<rparr>) (target_roomId c (m_data m))
                                      = (s1, Some (k', rm))"
    and p: "d_frameIndex (m_data m) = Some i" "\<not> committed_at (committed rm) i"
      "map_of (reservations (cleanupReservations (now ev) (normalizePhase rm)))
         (d_reservationToken (m_data m)) = Some r"
      "frameIndex r = i" "now ev < expiresAt r"
    by (auto elim: h_submit_frame_submitted)
  have "snd (getRoom ev s k) = Some (k', rm)"
    using g t by (simp add: getRoom_buckets)
  moreover have "k' = k"
    using g t target_roomId_normal [OF t]
    by (cases rule: getRoom_cases [of ev "s\<lparr>RATE_BUCKETS := b\<rparr>" k]) auto
  ultimately show ?thesis
    using e mt p by blast
qed

lemma ex_store_coherent: "coherent None (cache ex_store) (files ex_store)"
proof -
  have 1: "room_good None ''ABCDEFG'' (roomId ex_room) (committed ex_room)"
    by (simp add: room_good_def ex_room_fields normalizeRoomId_examples)
  have 2: "room_good None ''ZZZZZZZ'' (roomId full_room) (committed full_room)"
    by (simp add: room_good_def full_room_fields normalizeRoomId_examples)
  have 3: "room_good None ''ABCDEFG'' (normalizeRoomId (j_roomId ex_file)) (pad60 False (j_committed ex_file))"
    by (simp add: room_good_def ex_file_def normalizeRoomId_examples)
  show ?thesis
    using 1 2 3 by (simp add: coherent_def ex_store_def)
qed

lemma getRoom_RATE_BUCKETS [simp]: "RATE_BUCKETS (fst (getRoom ev s rid)) = RATE_BUCKETS s"
  by (simp add: getRoom_def Let_def split: option.splits disk_file.splits)

lemma getRoom_pair:
  "getRoom ev s x = (s1, r) \<Longrightarrow>
     files s1 = files s \<and> quarantineSet s1 = quarantineSet s \<and> RATE_BUCKETS s1 = RATE_BUCKETS s"
  using getRoom_fields(1,2) [of ev s x] getRoom_RATE_BUCKETS [of ev s x] by simp

lemma h_submit_frame_keeps:
  "RATE_BUCKETS (fst (h_submit_frame ev s c d)) = RATE_BUCKETS s"
  "quarantineSet (fst (h_submit_frame ev s c d)) = quarantineSet s"
  by (auto simp: h_submit_frame_def Let_def split: prod.splits option.splits dest: getRoom_pair)

lemma h_submit_frame_commit_cache:
  assumes "target_roomId c d \<noteq> []" and "target_roomId c d \<notin> quarantineSet s"
    and "getRoom ev s (target_roomId c d) = (s1, Some (k, rm0))"
    and "\<not> list_all (\<lambda>b. b) (committed rm0)"
    and "d_frameIndex d = Some idx" and "0 \<le> idx" and "idx < 60"
    and "d_reservationToken d \<noteq> []"
    and "map_of (reservations (cleanupReservations (now ev) (normalizePhase rm0)))
           (d_reservationToken d) = Some r"
    and "now ev < expiresAt r" and "frameIndex r = idx"
    and "\<not> committed_at (committed rm0) idx"
    and "validatePngDataUrl (d_dataUrl d)"
    and "\<not> list_all (\<lambda>b. b) ((committed rm0)[nat idx := True])"
  shows "\<exists>X. cache (fst (h_submit_frame ev s c d)) = AList.update k (X, now ev) (cache s1)"
  using assms
  by (simp add: h_submit_frame_def Let_def phase_normalizePhase saveRoom_saved) blast

lemma join_assign_keeps:
  "RATE_BUCKETS (fst (join_assign ev s c k rm m)) = RATE_BUCKETS s"
  "quarantineSet (fst (join_assign ev s c k rm m)) = quarantineSet s"
  by (simp_all add: join_assign_def Let_def updateIndexFromRoom_def)

lemma h_join_by_id_keeps:
  "RATE_BUCKETS (fst (h_join_by_id ev s c d)) = RATE_BUCKETS s"
  "quarantineSet (fst (h_join_by_id ev s c d)) = quarantineSet s"
  by (auto simp: h_join_by_id_def Let_def join_assign_keeps split: prod.splits option.splits
        dest: getRoom_pair)

lemma join_assign_cache:
  assumes "snd (firstYoungestEmpty (now ev) rm) = idx" and "0 \<le> idx"
  shows "cache (fst (join_assign ev s c k rm m)) =
           AList.update k
             (fst (roomState (now ev) (saved (now ev)
                ((cleanupReservations (now ev) rm)
                   \<lparr>reservations :=
                      AList.update (token (rnd1 ev) (rnd2 ev))
                        \<lparr>frameIndex = idx, expiresAt = now ev + RESERVATION_MS\<rparr>
                        (reservations (cleanupReservations (now ev) rm)),
                    reservedByFrame :=
                      AList.update idx (token (rnd1 ev) (rnd2 ev))
                        (reservedByFrame (cleanupReservations (now ev) rm)),
                    updatedAt := now ev\<rparr>))),
              now ev) (cache s)"
  using assms by (simp add: join_assign_def Let_def firstYoungestEmpty_fst saveRoom_saved)

lemma join_assign_files_failed:
  "\<not> write1_ok ev \<Longrightarrow> files (fst (join_assign ev s c k rm m)) = files s"
  by (simp add: join_assign_def Let_def saveRoom_write_failed)

lemma ex_rate:
  "checkRateLimit 5000 ''10.0.0.1'' ''submit_frame'' []
     = ([(''10.0.0.1|submit_frame'', 1, Some 65000)], True, 0)"
  "checkRateLimit 400000 ''10.0.0.1'' ''join_by_id'' [(''10.0.0.1|submit_frame'', 1, Some 65000)]
     = ([(''10.0.0.1|submit_frame'', 1, Some 65000), (''10.0.0.1|join_by_id'', 1, Some 410000)],
        True, 0)"
  "fst (snd (checkRateLimit 401000 ''10.0.0.1'' ''submit_frame''
               [(''10.0.0.1|submit_frame'', 1, Some 65000),
                (''10.0.0.1|join_by_id'', 1, Some 410000)]))"
  by (simp_all add: checkRateLimit_def RATE_BY_OP_def Let_def)

lemma ex_store_fields:
  "cache ex_store = [(''ABCDEFG'', ex_room, 2000), (''ZZZZZZZ'', full_room, 2000)]"
  "files ex_store ''ABCDEFG'' = Some (Parsed ex_file)"
  "quarantineSet ex_store = {''QQQQQQQ''}"
  "RATE_BUCKETS ex_store = []"
  by (simp_all add: ex_store_def)

lemma ex_env_fields:
  "now ex_env = 5000" "rnd1 ex_env = ''0.i''" "rnd2 ex_env = ''0.i''"
  "\<not> write1_ok ex_env" "\<not> write2_ok ex_env" "remoteAddress ex_conn = ''10.0.0.1''"
  by (simp_all add: ex_env_def ex_conn_def)

lemma lost_commit_first:
  fixes s1 :: store
  defines "s1 \<equiv> step (Message ex_env ex_conn (Some \<lparr>m_t = ''submit_frame'', m_data = ex_data\<rparr>))
                   ex_store"
  shows "accepts ''ABCDEFG'' 1
           (Message ex_env ex_conn (Some \<lparr>m_t = ''submit_frame'', m_data = ex_data\<rparr>)) ex_store"
    and "files s1 = files ex_store"
    and "quarantineSet s1 = quarantineSet ex_store"
    and "RATE_BUCKETS s1 = [(''10.0.0.1|submit_frame'', 1, Some 65000)]"
    and "\<exists>X. cache s1 = [(''ABCDEFG'', X, 5000), (''ZZZZZZZ'', full_room, 2000)]"
proof -
  let ?b = "[(''10.0.0.1|submit_frame'', 1::nat, Some (65000::int))]"
  let ?s = "ex_store\<lparr>RATE_BUCKETS := ?b\<rparr>"
  have t: "now ex_env = 5000" "rnd_theme ex_env = rnd_theme ex_env"
    by (simp_all add: ex_env_def)
  have s1: "s1 = fst (h_submit_frame ex_env ?s ex_conn ex_data)"
    by (simp add: s1_def on_message_submit ex_env_fields ex_store_fields ex_rate)
  show "accepts ''ABCDEFG'' 1
          (Message ex_env ex_conn (Some \<lparr>m_t = ''submit_frame'', m_data = ex_data\<rparr>)) ex_store"
    by (simp add: accepts_def ex_submit_path on_message_submit ex_env_fields ex_store_fields
          ex_rate h_submit_frame_buckets ex_submit_result(1) [OF t])
  show "files s1 = files ex_store"
    by (simp add: s1 h_submit_frame_files_failed ex_env_fields)
  show "quarantineSet s1 = quarantineSet ex_store"
    by (simp add: s1 h_submit_frame_keeps)
  show "RATE_BUCKETS s1 = ?b"
    by (simp add: s1 h_submit_frame_keeps)
  have g: "getRoom ex_env ?s (target_roomId ex_conn ex_data)
             = (set_cached ''ABCDEFG'' ex_room 5000 ex_store\<lparr>RATE_BUCKETS := ?b\<rparr>,
                Some (''ABCDEFG'', ex_room))"
    by (simp add: ex_submit_path getRoom_buckets getRoom_ex)
  have q: "target_roomId ex_conn ex_data \<notin> quarantineSet ?s"
    by (simp add: ex_submit_path ex_store_def)
  have ne: "target_roomId ex_conn ex_data \<noteq> []"
    by (simp add: ex_submit_path)
  have m: "map_of (reservations (cleanupReservations (now ex_env) (normalizePhase ex_room)))
             (d_reservationToken ex_data) = Some \<lparr>frameIndex = 1, expiresAt = 200000\<rparr>"
    by (simp add: t ex_submit_path)
  have "\<exists>X. cache (fst (h_submit_frame ex_env ?s ex_conn ex_data))
               = AList.update ''ABCDEFG'' (X, now ex_env)
                   (cache (set_cached ''ABCDEFG'' ex_room 5000 ex_store\<lparr>RATE_BUCKETS := ?b\<rparr>))"
    by (rule h_submit_frame_commit_cache [OF ne q g ex_room_not_done ex_submit_path(2) _ _ _ m _ _
              ex_submit_path(5,6,7)]) (simp_all add: ex_submit_path t)
  then show "\<exists>X. cache s1 = [(''ABCDEFG'', X, 5000), (''ZZZZZZZ'', full_room, 2000)]"
    by (simp add: s1 t ex_store_fields)
qed

lemma evict_idle:
  assumes "cache s = [(k1, X, 5000), (k2, Y, 2000)]"
  shows "evictCache 400000 s = s\<lparr>cache := []\<rparr>"
  using assms by (simp add: evictCache_def ROOM_CACHE_IDLE_MS_def ROOM_CACHE_MAX_def Let_def)

lemma deserialize_ex_file_late: "deserializeRoom 400000 rt ex_file = Some reloaded_room"
  by (simp add: deserializeRoom_def ex_file_def reloaded_room_def ex_room_def
        normalizeRoomId_examples pad60_def load_reservation_def rebuild_entry_def committed_at_def
        cleanupReservations_def cleanup_entry_def normalizePhase_def trim_by_def
        is_jspace_def Let_def not_all_committed [of 1])

lemma reloaded_room_fields:
  "roomId reloaded_room = ''ABCDEFG''"
  "committed reloaded_room = (replicate 60 False)[0 := True]"
  "phase reloaded_room = ''DRAWING''"
  "reservations reloaded_room = []"
  "reservedByFrame reloaded_room = []"
  by (simp_all add: reloaded_room_def ex_room_def)

lemma rejoined_room_fields:
  "roomId rejoined_room = ''ABCDEFG''"
  "committed rejoined_room = (replicate 60 False)[0 := True]"
  "phase rejoined_room = ''DRAWING''"
  "reservations rejoined_room = [(''i-i'', \<lparr>frameIndex = 1, expiresAt = 580000\<rparr>)]"
  "reservedByFrame rejoined_room = [(1, ''i-i'')]"
  by (simp_all add: rejoined_room_def ex_room_def)

lemma reloaded_room_not_done: "\<not> list_all (\<lambda>b. b) (committed reloaded_room)"
  by (rule not_all_committed [of 1]) (simp_all add: reloaded_room_fields)

lemma rejoined_room_not_done: "\<not> list_all (\<lambda>b. b) (committed rejoined_room)"
  by (rule not_all_committed [of 1]) (simp_all add: rejoined_room_fields)

lemma normalizePhase_reloaded: "normalizePhase reloaded_room = reloaded_room"
  using reloaded_room_not_done
  by (simp add: normalizePhase_def Let_def) (simp add: reloaded_room_def ex_room_def)

lemma normalizePhase_rejoined: "normalizePhase rejoined_room = rejoined_room"
  using rejoined_room_not_done
  by (simp add: normalizePhase_def Let_def) (simp add: rejoined_room_def ex_room_def)

lemma cleanup_reloaded: "cleanupReservations t reloaded_room = reloaded_room"
  by (simp add: reloaded_room_def ex_room_def cleanupReservations_def Let_def)

lemma cleanup_rejoined:
  "t < 580000 \<Longrightarrow> cleanupReservations t rejoined_room = rejoined_room"
  by (simp add: rejoined_room_def ex_room_def cleanupReservations_def cleanup_entry_def
        committed_at_def Let_def)

lemma fye_reloaded: "snd (firstYoungestEmpty t reloaded_room) = 1"
  by (simp add: firstYoungestEmpty_def cleanup_reloaded Let_def upt_60_unfold reloaded_room_fields
        committed_at_def split del: if_split)

lemma rejoin_update:
  "reloaded_room\<lparr>reservations := [(''i-i'', \<lparr>frameIndex = 1, expiresAt = 580000\<rparr>)],
                 reservedByFrame := [(1, ''i-i'')],
                 updatedAt := 400000\<rparr> = rejoined_room"
  by (simp add: reloaded_room_def rejoined_room_def ex_room_def)

lemma saved_rejoined: "saved 400000 rejoined_room = rejoined_room"
  by (simp add: saved_def rejoined_room_fields normalizeRoomId_examples normalizePhase_rejoined
        cleanup_rejoined)

lemma roomState_rejoined: "fst (roomState 400000 rejoined_room) = rejoined_room"
  by (simp add: roomState_fst normalizePhase_rejoined cleanup_rejoined)

lemma lost_commit_rejoin:
  assumes "cache s = []" and "files s = files ex_store"
    and "quarantineSet s = quarantineSet ex_store"
    and "RATE_BUCKETS s = [(''10.0.0.1|submit_frame'', 1, Some 65000)]"
  shows "cache (step (Message (ex_env\<lparr>now := 400000\<rparr>) ex_conn
                        (Some \<lparr>m_t = ''join_by_id'', m_data = ex_data\<rparr>)) s)
           = [(''ABCDEFG'', rejoined_room, 400000)]"
    and "quarantineSet (step (Message (ex_env\<lparr>now := 400000\<rparr>) ex_conn
                        (Some \<lparr>m_t = ''join_by_id'', m_data = ex_data\<rparr>)) s)
           = quarantineSet ex_store"
    and "RATE_BUCKETS (step (Message (ex_env\<lparr>now := 400000\<rparr>) ex_conn
                        (Some \<lparr>m_t = ''join_by_id'', m_data = ex_data\<rparr>)) s)
           = [(''10.0.0.1|submit_frame'', 1, Some 65000), (''10.0.0.1|join_by_id'', 1, Some 410000)]"
proof -
  let ?ev = "ex_env\<lparr>now := 400000\<rparr>"
  let ?b = "[(''10.0.0.1|submit_frame'', Suc 0, Some (65000::int)),
             (''10.0.0.1|join_by_id'', Suc 0, Some 410000)]"
  let ?s = "s\<lparr>RATE_BUCKETS := ?b\<rparr>"
  have e: "now ?ev = 400000" "rnd1 ?ev = ''0.i''" "rnd2 ?ev = ''0.i''" "d_roomId ex_data = ''ABCDEFG''"
    by (simp_all add: ex_env_def ex_data_def)
  have st: "fst (on_message ?ev s ex_conn (Some \<lparr>m_t = ''join_by_id'', m_data = ex_data\<rparr>))
              = fst (h_join_by_id ?ev ?s ex_conn ex_data)"
    by (simp add: on_message_def Let_def e ex_env_fields assms ex_rate [unfolded One_nat_def])
  have g: "getRoom ?ev ?s ''ABCDEFG''
             = (set_cached ''ABCDEFG'' reloaded_room 400000 ?s, Some (''ABCDEFG'', reloaded_room))"
    by (simp add: getRoom_def normalizeRoomId_examples e assms ex_store_fields
          deserialize_ex_file_late Let_def)
  have q: "''ABCDEFG'' \<notin> quarantineSet ?s"
    by (simp add: assms ex_store_fields)
  have j: "h_join_by_id ?ev ?s ex_conn ex_data
             = join_assign ?ev (set_cached ''ABCDEFG'' reloaded_room 400000 ?s) ex_conn ''ABCDEFG''
                 reloaded_room MSG_NO_EMPTY_FRAME"
    using q
    by (simp add: h_join_by_id_def Let_def e normalizeRoomId_examples g normalizePhase_reloaded
          reloaded_room_fields)
  have f: "snd (firstYoungestEmpty (now ?ev) reloaded_room) = 1"
    by (rule fye_reloaded)
  show "cache (step (Message ?ev ex_conn (Some \<lparr>m_t = ''join_by_id'', m_data = ex_data\<rparr>)) s)
          = [(''ABCDEFG'', rejoined_room, 400000)]"
    by (simp add: st j join_assign_cache [OF f] e cleanup_reloaded reloaded_room_fields token_def
          RESERVATION_MS_def rejoin_update saved_rejoined roomState_rejoined assms)
  show "quarantineSet (step (Message ?ev ex_conn (Some \<lparr>m_t = ''join_by_id'', m_data = ex_data\<rparr>)) s)
          = quarantineSet ex_store"
    by (simp add: st h_join_by_id_keeps assms)
  show "RATE_BUCKETS (step (Message ?ev ex_conn (Some \<lparr>m_t = ''join_by_id'', m_data = ex_data\<rparr>)) s)
          = [(''10.0.0.1|submit_frame'', 1, Some 65000), (''10.0.0.1|join_by_id'', 1, Some 410000)]"
    by (simp add: st h_join_by_id_keeps)
qed

lemma lost_commit_second:
  assumes "cache s = [(''ABCDEFG'', rejoined_room, 400000)]"
    and "quarantineSet s = quarantineSet ex_store"
    and "RATE_BUCKETS s = [(''10.0.0.1|submit_frame'', 1, Some 65000),
                           (''10.0.0.1|join_by_id'', 1, Some 410000)]"
  shows "accepts ''ABCDEFG'' 1
           (Message (ex_env\<lparr>now := 401000\<rparr>) ex_conn
              (Some \<lparr>m_t = ''submit_frame'',
                     m_data = ex_data\<lparr>d_reservationToken := ''i-i''\<rparr>\<rparr>)) s"
proof -
  let ?ev = "ex_env\<lparr>now := 401000\<rparr>"
  let ?d = "ex_data\<lparr>d_reservationToken := ''i-i''\<rparr>"
  have e: "now ?ev = 401000"
    by simp
  have d: "target_roomId ex_conn ?d = ''ABCDEFG''" "d_frameIndex ?d = Some 1"
    "d_reservationToken ?d = ''i-i''" "validatePngDataUrl (d_dataUrl ?d)"
    by (simp_all add: target_roomId_def ex_data_def normalizeRoomId_examples validatePngDataUrl_def)
  have g: "getRoom ?ev s (target_roomId ex_conn ?d)
             = (set_cached ''ABCDEFG'' rejoined_room 401000 s, Some (''ABCDEFG'', rejoined_room))"
    by (simp add: d getRoom_def normalizeRoomId_examples assms Let_def)
  have q: "target_roomId ex_conn ?d \<notin> quarantineSet s"
    by (simp add: d assms ex_store_fields)
  have ne: "target_roomId ex_conn ?d \<noteq> []"
    by (simp add: d)
  have m: "map_of (reservations (cleanupReservations (now ?ev) (normalizePhase rejoined_room)))
             (d_reservationToken ?d) = Some \<lparr>frameIndex = 1, expiresAt = 580000\<rparr>"
    by (simp add: d normalizePhase_rejoined cleanup_rejoined rejoined_room_fields)
  have nc: "\<not> committed_at (committed rejoined_room) 1"
    by (simp add: committed_at_def rejoined_room_fields)
  have nd: "\<not> list_all (\<lambda>b. b) ((committed rejoined_room)[nat 1 := True])"
    by (rule not_all_committed [of 2]) (simp_all add: rejoined_room_fields)
  have r: "snd (snd (h_submit_frame ?ev s ex_conn ?d)) =
             [Broadcast (roomId rejoined_room)
                (Envelope 1 ''frame_committed'' (now ?ev) (P_frame_committed (roomId rejoined_room) 1)),
              Send (Envelope 1 ''submitted'' (now ?ev) (P_submitted (roomId rejoined_room) 1))]"
    by (rule h_submit_frame_commit(1) [OF ne q g rejoined_room_not_done d(2) _ _ _ m _ _ nc d(4) nd])
       (simp_all add: d)
  show ?thesis
    by (simp add: accepts_def d on_message_submit ex_env_fields assms
          ex_rate [unfolded One_nat_def] h_submit_frame_buckets r)
qed

text \<open>
  C1. The claim: for every room and every frame index, at most one \<open>submit_frame\<close> ever
  succeeds. It fails when the save of the first one fails: \<open>saveRoom\<close> swallows the error,
  the request is answered \<open>submitted\<close>, and the file keeps frame 1 uncommitted. Once the room
  has been idle for five minutes \<open>evictCache\<close> drops it, \<open>join_by_id\<close> reloads the file and
  reserves frame 1 again, and a second \<open>submit_frame\<close> for frame 1 is answered \<open>submitted\<close>.
\<close>

theorem submit_accepted_twice_after_lost_save:
  "coherent None (cache ex_store) (files ex_store)
   \<and> \<not> write1_ok ex_env
   \<and> successes ''ABCDEFG'' 1 ex_store
        [Message ex_env ex_conn (Some \<lparr>m_t = ''submit_frame'', m_data = ex_data\<rparr>),
         Evict 400000,
         Message (ex_env\<lparr>now := 400000\<rparr>) ex_conn
           (Some \<lparr>m_t = ''join_by_id'', m_data = ex_data\<rparr>),
         Message (ex_env\<lparr>now := 401000\<rparr>) ex_conn
           (Some \<lparr>m_t = ''submit_frame'', m_data = ex_data\<lparr>d_reservationToken := ''i-i''\<rparr>\<rparr>)]
       = 2"
proof -
  let ?E1 = "Message ex_env ex_conn (Some \<lparr>m_t = ''submit_frame'', m_data = ex_data\<rparr>)"
  let ?E3 = "Message (ex_env\<lparr>now := 400000\<rparr>) ex_conn
               (Some \<lparr>m_t = ''join_by_id'', m_data = ex_data\<rparr>)"
  let ?E4 = "Message (ex_env\<lparr>now := 401000\<rparr>) ex_conn
               (Some \<lparr>m_t = ''submit_frame'', m_data = ex_data\<lparr>d_reservationToken := ''i-i''\<rparr>\<rparr>)"
  let ?s1 = "step ?E1 ex_store"
  let ?s2 = "step (Evict 400000) ?s1"
  let ?s3 = "step ?E3 ?s2"
  note f = lost_commit_first
  from f(5) obtain X where c1: "cache ?s1 = [(''ABCDEFG'', X, 5000), (''ZZZZZZZ'', full_room, 2000)]"
    by blast
  have e2: "?s2 = ?s1\<lparr>cache := []\<rparr>"
    by (simp only: step.simps(2) evict_idle [OF c1])
  have f2: "cache ?s2 = []" "files ?s2 = files ex_store"
    "quarantineSet ?s2 = quarantineSet ex_store"
    "RATE_BUCKETS ?s2 = [(''10.0.0.1|submit_frame'', 1, Some 65000)]"
    unfolding e2 using f(2,3,4) by simp_all
  note r = lost_commit_rejoin [OF f2]
  have a1: "accepts ''ABCDEFG'' 1 ?E1 ex_store"
    by (rule f(1))
  have a2: "\<not> accepts ''ABCDEFG'' 1 (Evict 400000) ?s1"
    by (simp add: accepts_def)
  have a3: "\<not> accepts ''ABCDEFG'' 1 ?E3 ?s2"
    by (simp add: accepts_def)
  have a4: "accepts ''ABCDEFG'' 1 ?E4 ?s3"
    by (rule lost_commit_second [OF r])
  have "successes ''ABCDEFG'' 1 ex_store [?E1, Evict 400000, ?E3, ?E4] = 2"
    by (simp only: successes.simps a1 a2 a3 a4 if_True if_False)
  then show ?thesis
    using ex_store_coherent by (simp add: ex_env_fields)
qed

lemma has_room_file_upd [simp]: "has_room_file (f(k' \<mapsto> Parsed obj)) k = (k' = k \<or> has_room_file f k)"
  by (simp add: has_room_file_def)

lemma saveRoom_has_file [simp]:
  "has_room_file (files s) k \<Longrightarrow> has_room_file (files (snd (saveRoom ev w rm s))) k"
  by (simp add: saveRoom_files)

lemma getRoom_files_pair: "getRoom ev s x = (s1, r) \<Longrightarrow> files s1 = files s"
  using getRoom_fields(1) [of ev s x] by simp

lemma makeRoom_has_file [simp]:
  "has_room_file (files s) k \<Longrightarrow> has_room_file (files (snd (makeRoom ev th s))) k"
  by (simp add: makeRoom_def Let_def)

lemma join_assign_has_file [simp]:
  "has_room_file (files s) k \<Longrightarrow> has_room_file (files (fst (join_assign ev s c k' rm m))) k"
  by (simp add: join_assign_def Let_def)

lemma h_resync_has_file:
  "has_room_file (files s) k \<Longrightarrow> has_room_file (files (fst (h_resync ev s c d))) k"
  by (auto simp: h_resync_def Let_def split: prod.splits option.splits dest: getRoom_files_pair)

lemma h_create_has_file:
  "has_room_file (files s) k \<Longrightarrow> has_room_file (files (fst (h_create_public_and_submit ev s c d))) k"
  by (simp add: h_create_public_and_submit_def Let_def)

lemma h_join_random_has_file:
  "has_room_file (files s) k \<Longrightarrow> has_room_file (files (fst (h_join_random ev s c d))) k"
  by (auto simp: h_join_random_def Let_def split: prod.splits option.splits dest: getRoom_files_pair)

lemma h_join_by_id_has_file:
  "has_room_file (files s) k \<Longrightarrow> has_room_file (files (fst (h_join_by_id ev s c d))) k"
  by (auto simp: h_join_by_id_def Let_def split: prod.splits option.splits dest: getRoom_files_pair)

lemma h_join_room_has_file:
  "has_room_file (files s) k \<Longrightarrow> has_room_file (files (fst (h_join_room ev s c d))) k"
  by (auto simp: h_join_room_def Let_def split: prod.splits option.splits dest: getRoom_files_pair)

lemma h_get_frame_has_file:
  "has_room_file (files s) k \<Longrightarrow> has_room_file (files (fst (h_get_frame ev s c d))) k"
  by (auto simp: h_get_frame_def Let_def split: prod.splits option.splits dest: getRoom_files_pair)

lemma h_submit_frame_has_file:
  "has_room_file (files s) k \<Longrightarrow> has_room_file (files (fst (h_submit_frame ev s c d))) k"
  by (auto simp: h_submit_frame_def Let_def split: prod.splits option.splits dest: getRoom_files_pair)

lemma on_message_has_file:
  assumes "has_room_file (files s) k"
  shows "has_room_file (files (fst (on_message ev s c raw))) k"
proof (cases raw)
  case None
  then show ?thesis using assms by (simp add: on_message_def)
next
  case (Some m)
  have r: "has_room_file (files (s\<lparr>RATE_BUCKETS := b\<rparr>)) k" for b
    using assms by simp
  show ?thesis
    using Some r
    by (simp add: on_message_def Let_def h_hello_def h_resync_has_file h_create_has_file
          h_join_random_has_file h_join_by_id_has_file h_join_room_has_file
          h_get_frame_has_file h_submit_frame_has_file)
qed

lemma step_has_file:
  "has_room_file (files s) k \<Longrightarrow> has_room_file (files (step e s)) k"
  by (cases e)
     (simp_all add: on_message_has_file doBackup_def prune_rate_buckets_def admin_quarantine_def
        Let_def)

lemma committed_on_disk_iff:
  "coherent (Some (k, i)) c f \<Longrightarrow> committed_on_disk k i f = has_room_file f k"
  by (auto simp: committed_on_disk_def has_room_file_def coherent_def room_good_def
        split: option.splits disk_file.splits)

lemma committed_in_cache_iff:
  "coherent (Some (k, i)) c f \<Longrightarrow> committed_in_cache k i c = (map_of c k \<noteq> None)"
  by (auto simp: committed_in_cache_def room_good_def split: option.splits
        dest!: coherent_lookup)

lemma accepted_cached:
  assumes "list_ex (is_submitted i) (snd (snd (h_submit_frame ev s c d)))"
    and "getRoom ev s (target_roomId c d) = (s1, Some (k, rm))"
  shows "map_of (cache (fst (h_submit_frame ev s c d))) k \<noteq> None"
proof -
  from assms(1) obtain s1' k' rm' r where "getRoom ev s (target_roomId c d) = (s1', Some (k', rm'))"
    and p: "target_roomId c d \<noteq> []" "target_roomId c d \<notin> quarantineSet s"
      "\<not> list_all (\<lambda>b. b) (committed rm')" "d_frameIndex d = Some i" "0 \<le> i" "i < 60"
      "d_reservationToken d \<noteq> []"
      "map_of (reservations (cleanupReservations (now ev) (normalizePhase rm')))
         (d_reservationToken d) = Some r"
      "now ev < expiresAt r" "frameIndex r = i" "\<not> committed_at (committed rm') i"
      "validatePngDataUrl (d_dataUrl d)"
    by (rule h_submit_frame_submitted)
  then have eq: "rm' = rm"
    using assms(2) by simp
  show ?thesis
    using assms(2) p [unfolded eq]
    by (simp add: h_submit_frame_def Let_def phase_normalizePhase update_conv')
qed

lemma accepted_filed:
  assumes "list_ex (is_submitted i) (snd (snd (h_submit_frame ev s c d)))"
    and "getRoom ev s (target_roomId c d) = (s1, Some (k, rm))"
    and "write1_ok ev" and "normalizeRoomId (roomId rm) = k" and "k \<noteq> []"
  shows "has_room_file (files (fst (h_submit_frame ev s c d))) k"
proof -
  from assms(1) obtain s1' k' rm' r where "getRoom ev s (target_roomId c d) = (s1', Some (k', rm'))"
    and p: "target_roomId c d \<noteq> []" "target_roomId c d \<notin> quarantineSet s"
      "\<not> list_all (\<lambda>b. b) (committed rm')" "d_frameIndex d = Some i" "0 \<le> i" "i < 60"
      "d_reservationToken d \<noteq> []"
      "map_of (reservations (cleanupReservations (now ev) (normalizePhase rm')))
         (d_reservationToken d) = Some r"
      "now ev < expiresAt r" "frameIndex r = i" "\<not> committed_at (committed rm') i"
      "validatePngDataUrl (d_dataUrl d)"
    by (rule h_submit_frame_submitted)
  then have eq: "rm' = rm"
    using assms(2) by simp
  show ?thesis
    using assms(2-) p [unfolded eq]
    by (simp add: h_submit_frame_def Let_def phase_normalizePhase saveRoom_files saveRoom_saved)
qed

lemma first_accept_held:
  assumes "coherent None (cache s) (files s)" and "accepts k i e s" and "undisturbed k i e"
  shows "committed_in_cache k i (cache (step e s))" and "committed_on_disk k i (files (step e s))"
proof -
  have co': "coherent (Some (k, i)) (cache (step e s)) (files (step e s))"
    using assms by (rule first_accept_commits)
  from assms(2) obtain ev c m b where e: "e = Message ev c (Some m)"
    and mt: "m_t m = ''submit_frame''"
    and t: "target_roomId c (m_data m) = k"
    and l: "list_ex (is_submitted i)
              (snd (snd (h_submit_frame ev (s\<lparr>RATE_BUCKETS := b\<rparr>) c (m_data m))))"
    and st: "step e s = fst (h_submit_frame ev (s\<lparr>RATE_BUCKETS := b\<rparr>) c (m_data m))"
    by (rule accepts_submitted)
  let ?s = "s\<lparr>RATE_BUCKETS := b\<rparr>" and ?d = "m_data m"
  have co: "coherent None (cache ?s) (files ?s)"
    using assms(1) by simp
  from l obtain s1 k' rm r where g: "getRoom ev ?s (target_roomId c ?d) = (s1, Some (k', rm))"
    and p: "target_roomId c ?d \<noteq> []" "d_frameIndex ?d = Some i"
    by (auto elim: h_submit_frame_submitted)
  have w: "write1_ok ev"
    using assms(3) e mt t p(2) by (simp add: undisturbed_def)
  from co have x: "k' = k \<and> roomId rm = k \<and> normalizeRoomId k = k"
  proof (cases rule: getRoom_coherent_cases [of None ?s ev "target_roomId c ?d"])
    case none
    then show ?thesis using g by simp
  next
    case (some s1' k'' rm')
    then show ?thesis
      using g t target_roomId_normal [OF t] by (simp add: room_good_def)
  qed
  have g': "getRoom ev ?s (target_roomId c ?d) = (s1, Some (k, rm))"
    using g x by simp
  have "map_of (cache (step e s)) k \<noteq> None"
    unfolding st by (rule accepted_cached [OF l g'])
  then show "committed_in_cache k i (cache (step e s))"
    using co' by (simp add: committed_in_cache_iff)
  have "has_room_file (files (step e s)) k"
    unfolding st using x p(1) t by (intro accepted_filed [OF l g' w]) simp_all
  then show "committed_on_disk k i (files (step e s))"
    using co' by (simp add: committed_on_disk_iff)
qed

lemma step_keeps_on_disk:
  assumes "coherent (Some (k, i)) (cache (step e s)) (files (step e s))"
    and "committed_on_disk k i (files s)"
  shows "committed_on_disk k i (files (step e s))"
proof -
  have "has_room_file (files s) k"
    using assms(2) by (simp add: committed_on_disk_def has_room_file_def
        split: option.splits disk_file.splits)
  then have "has_room_file (files (step e s)) k"
    by (rule step_has_file)
  then show ?thesis
    using assms(1) by (simp add: committed_on_disk_iff)
qed

text \<open>
  C1, amended. For every room id \<open>k\<close> and frame index \<open>i\<close>, along any run of events in
  which the room-file write of every submission of frame \<open>i\<close> to room \<open>k\<close> succeeds and no
  creation mints the id \<open>k\<close> again, at most one \<open>submit_frame\<close> for \<open>i\<close> is accepted. A
  request is accepted only when \<open>committed[i]\<close> is false and the token presented is a live
  reservation recorded for \<open>i\<close>; acceptance leaves the room cached under \<open>k\<close> with
  \<open>committed[i]\<close> true and the room file of \<open>k\<close> with \<open>committed[i]\<close> true; no later event
  (message, eviction, backup, bucket sweep, quarantine change) undoes that: the file keeps
  frame \<open>i\<close> committed, every copy of the room held in the cache or on disk has frame \<open>i\<close>
  committed, and no request for the frame is accepted. The run starts from a store in
  which every cached room has 60 slots and is held under its own id, and every room file
  is named after the room it holds.
\<close>

theorem at_most_one_submit:
  assumes "coherent None (cache s) (files s)" and "\<forall>e\<in>set es. undisturbed k i e"
  shows "successes k i s es \<le> 1
         \<and> (\<forall>e. accepts k i e s \<longrightarrow>
               (\<exists>ev c m rm r. e = Message ev c (Some m) \<and> m_t m = ''submit_frame''
                  \<and> d_frameIndex (m_data m) = Some i
                  \<and> snd (getRoom ev s k) = Some (k, rm)
                  \<and> \<not> committed_at (committed rm) i
                  \<and> map_of (reservations (cleanupReservations (now ev) (normalizePhase rm)))
                       (d_reservationToken (m_data m)) = Some r
                  \<and> frameIndex r = i \<and> now ev < expiresAt r))
         \<and> (\<forall>e. accepts k i e s \<longrightarrow> undisturbed k i e \<longrightarrow>
               committed_in_cache k i (cache (step e s))
               \<and> committed_on_disk k i (files (step e s))
               \<and> coherent (Some (k, i)) (cache (step e s)) (files (step e s)))
         \<and> (\<forall>s' e. coherent (Some (k, i)) (cache s') (files s') \<longrightarrow> undisturbed k i e \<longrightarrow>
               coherent (Some (k, i)) (cache (step e s')) (files (step e s'))
               \<and> (committed_on_disk k i (files s') \<longrightarrow> committed_on_disk k i (files (step e s')))
               \<and> \<not> accepts k i e s')"
proof -
  have a: "successes k i s es \<le> 1"
    using assms by (rule successes_le_1)
  have d: "coherent (Some (k, i)) (cache (step e s')) (files (step e s'))"
    if "coherent (Some (k, i)) (cache s') (files s')" "undisturbed k i e" for s' e
    using that by (intro step_coherent) (auto dest: undisturbed_mint_ok)
  have b: "\<forall>e. accepts k i e s \<longrightarrow>
               (\<exists>ev c m rm r. e = Message ev c (Some m) \<and> m_t m = ''submit_frame''
                  \<and> d_frameIndex (m_data m) = Some i
                  \<and> snd (getRoom ev s k) = Some (k, rm)
                  \<and> \<not> committed_at (committed rm) i
                  \<and> map_of (reservations (cleanupReservations (now ev) (normalizePhase rm)))
                       (d_reservationToken (m_data m)) = Some r
                  \<and> frameIndex r = i \<and> now ev < expiresAt r)"
    using accepts_mechanism [of k i _ s] by blast
  have c: "\<forall>e. accepts k i e s \<longrightarrow> undisturbed k i e \<longrightarrow>
               committed_in_cache k i (cache (step e s))
               \<and> committed_on_disk k i (files (step e s))
               \<and> coherent (Some (k, i)) (cache (step e s)) (files (step e s))"
    using first_accept_commits [OF assms(1)] first_accept_held [OF assms(1)] by blast
  have n: "\<forall>s' e. coherent (Some (k, i)) (cache s') (files s') \<longrightarrow> undisturbed k i e \<longrightarrow>
               coherent (Some (k, i)) (cache (step e s')) (files (step e s'))
               \<and> (committed_on_disk k i (files s') \<longrightarrow> committed_on_disk k i (files (step e s')))
               \<and> \<not> accepts k i e s'"
    using d no_second_accept step_keeps_on_disk by blast
  show ?thesis
    using a b c n by blast
qed

theorem at_most_one_submit_witness:
  "coherent None (cache ex_store) (files ex_store)
   \<and> undisturbed ''ABCDEFG'' 1
        (Message (ex_env\<lparr>write1_ok := True\<rparr>) ex_conn
           (Some \<lparr>m_t = ''submit_frame'', m_data = ex_data\<rparr>))
   \<and> accepts ''ABCDEFG'' 1
        (Message (ex_env\<lparr>write1_ok := True\<rparr>) ex_conn
           (Some \<lparr>m_t = ''submit_frame'', m_data = ex_data\<rparr>)) ex_store
   \<and> committed_in_cache ''ABCDEFG'' 1
        (cache (step (Message (ex_env\<lparr>write1_ok := True\<rparr>) ex_conn
           (Some \<lparr>m_t = ''submit_frame'', m_data = ex_data\<rparr>)) ex_store))
   \<and> committed_on_disk ''ABCDEFG'' 1
        (files (step (Message (ex_env\<lparr>write1_ok := True\<rparr>) ex_conn
           (Some \<lparr>m_t = ''submit_frame'', m_data = ex_data\<rparr>)) ex_store))
   \<and> successes ''ABCDEFG'' 1 ex_store
        [Message (ex_env\<lparr>write1_ok := True\<rparr>) ex_conn
           (Some \<lparr>m_t = ''submit_frame'', m_data = ex_data\<rparr>),
         Message (ex_env\<lparr>write1_ok := True\<rparr>) ex_conn
           (Some \<lparr>m_t = ''submit_frame'', m_data = ex_data\<rparr>)] = 1"
proof -
  let ?ev = "ex_env\<lparr>write1_ok := True\<rparr>"
  let ?e = "Message ?ev ex_conn (Some \<lparr>m_t = ''submit_frame'', m_data = ex_data\<rparr>)"
  have u: "undisturbed ''ABCDEFG'' 1 ?e"
    by (simp add: undisturbed_def)
  have t: "now ?ev = 5000" "rnd_theme ?ev = rnd_theme ex_env"
    by (simp_all add: ex_env_def)
  have r: "fst (snd (checkRateLimit 5000 (remoteAddress ex_conn) ''submit_frame'' (RATE_BUCKETS ex_store)))"
    by (simp add: checkRateLimit_def RATE_BY_OP_def Let_def ex_store_def)
  have a: "accepts ''ABCDEFG'' 1 ?e ex_store"
    using r
    by (simp add: accepts_def ex_submit_path on_message_submit t h_submit_frame_buckets
          ex_submit_result(1) [OF t])
  have pre: "\<forall>e\<in>set [?e, ?e]. undisturbed ''ABCDEFG'' 1 e"
    using u by simp
  note th = at_most_one_submit [OF ex_store_coherent pre]
  have "successes ''ABCDEFG'' 1 ex_store [?e, ?e] \<le> 1"
    using th by blast
  then have s: "successes ''ABCDEFG'' 1 ex_store [?e, ?e] = 1"
    using a by (simp split: if_splits)
  have h: "committed_in_cache ''ABCDEFG'' 1 (cache (step ?e ex_store))
           \<and> committed_on_disk ''ABCDEFG'' 1 (files (step ?e ex_store))"
    using th u a by blast
  show ?thesis
    using ex_store_coherent u a h s by simp
qed

end
